theory Spec2Isabelle
  imports Complex_Main
begin

section \<open>Data model of the game engine\<close>

text \<open>
  The engine is the class \<open>GameEngine\<close>. TypeScript's \<open>number\<close> is modelled as
  \<open>real\<close> (rounding of doubles is not modelled); \<open>frameCount\<close>, which only counts
  calls, is a \<open>nat\<close>. Interfaces become records, \<open>extends GameObject\<close> becomes record
  extension, string-literal unions become datatypes. Field names follow the source;
  where two interfaces share a field name the entity's initial is put in front
  (\<open>e_health\<close>, \<open>p_health\<close>, ...), the coordinates \<open>x\<close>, \<open>y\<close> are \<open>vec_x\<close>, \<open>vec_y\<close>
  and \<open>size\<close> is \<open>obj_size\<close>; \<open>type\<close> is \<open>e_type\<close> and \<open>pu_type\<close>, and the three
  flags of \<open>input\<close> are \<open>in_left\<close>, \<open>in_right\<close> and \<open>in_shoot\<close>. What \<open>render\<close>
  draws is not modelled, only its calls of \<open>Math.random\<close>.
\<close>

record Vector2D =
  vec_x :: real
  vec_y :: real

record GameObject =
  position :: Vector2D
  velocity :: Vector2D
  obj_size :: Vector2D
  active :: bool

datatype EnemyType = basic | fast | heavy

datatype Owner = OwnerPlayer | OwnerEnemy

datatype PowerUpType = rapidFire | shield | multiShot

text \<open>
  \<open>Player.powerUps\<close> is a JavaScript \<open>Map\<close>, which keeps its keys in insertion order
  (the order is visible in the list given to \<open>onPowerUpChange\<close>): an association list
  with the three operations the engine uses.
\<close>

type_synonym PowerUpMap = "(PowerUpType \<times> real) list"

record Player = GameObject +
  p_health :: real
  p_shootCooldown :: real
  p_powerUps :: PowerUpMap

record Enemy = GameObject +
  e_type :: EnemyType
  e_health :: real
  points :: real
  e_shootCooldown :: real

record Projectile = GameObject +
  damage :: real
  owner :: Owner

record PowerUp = GameObject +
  pu_type :: PowerUpType
  duration :: real

record Particle = GameObject +
  life :: real
  maxLife :: real
  color :: string

text \<open>
  The five callbacks of \<open>GameCallbacks\<close> are external; a call is recorded as an event
  appended to \<open>callbackLog\<close>, with the argument it was given.
\<close>

datatype Event =
  ScoreChange real
  | LivesChange real
  | LevelChange real
  | PowerUpChange "(PowerUpType \<times> real) list"
  | GameOver

record InputState =
  in_left :: bool
  in_right :: bool
  in_shoot :: bool

text \<open>
  The state of a \<open>GameEngine\<close> object. \<open>canvasWidth\<close> and \<open>canvasHeight\<close> are what the
  engine reads of its canvas. \<open>Math.random()\<close> is the sequence \<open>randomSource\<close>, read at
  \<open>randomCalls\<close>, which every call advances.
\<close>

record GameEngine =
  canvasWidth :: real
  canvasHeight :: real
  callbackLog :: "Event list"
  lastTime :: real
  frameCount :: nat
  score :: real
  lives :: real
  level :: real
  gameSpeed :: real
  input :: InputState
  player :: Player
  enemies :: "Enemy list"
  projectiles :: "Projectile list"
  powerUps :: "PowerUp list"
  particles :: "Particle list"
  enemySpawnTimer :: real
  powerUpSpawnTimer :: real
  randomSource :: "nat \<Rightarrow> real"
  randomCalls :: nat

definition PLAYER_SPEED :: real where
  "PLAYER_SPEED = 300"

definition PROJECTILE_SPEED :: real where
  "PROJECTILE_SPEED = 400"

definition ENEMY_SPAWN_RATE :: real where
  "ENEMY_SPAWN_RATE = 2000"

definition POWERUP_SPAWN_RATE :: real where
  "POWERUP_SPAWN_RATE = 15000"

section \<open>Helpers: the power-up map, the callbacks, the random source\<close>

definition mapHas :: "PowerUpType \<Rightarrow> PowerUpMap \<Rightarrow> bool" where
  "mapHas k m = (k \<in> set (map fst m))"

fun mapSet :: "PowerUpType \<Rightarrow> real \<Rightarrow> PowerUpMap \<Rightarrow> PowerUpMap" where
  "mapSet k v [] = [(k, v)]"
| "mapSet k v (kv # m) = (if fst kv = k then (k, v) # m else kv # mapSet k v m)"

definition mapDelete :: "PowerUpType \<Rightarrow> PowerUpMap \<Rightarrow> PowerUpMap" where
  "mapDelete k m = filter (\<lambda>kv. fst kv \<noteq> k) m"

definition mapGet :: "PowerUpMap \<Rightarrow> PowerUpType \<Rightarrow> real option" where
  "mapGet m k = map_of m k"

definition fire :: "Event \<Rightarrow> GameEngine \<Rightarrow> GameEngine" where
  "fire ev s = s\<lparr>callbackLog := callbackLog s @ [ev]\<rparr>"

definition random :: "GameEngine \<Rightarrow> real \<times> GameEngine" where
  "random s = (randomSource s (randomCalls s), s\<lparr>randomCalls := Suc (randomCalls s)\<rparr>)"

section \<open>Construction, input and reset\<close>

definition constructor :: "real \<Rightarrow> real \<Rightarrow> (nat \<Rightarrow> real) \<Rightarrow> GameEngine" where
  "constructor w h rnd =
     \<lparr>canvasWidth = w, canvasHeight = h, callbackLog = [], lastTime = 0, frameCount = 0,
      score = 0, lives = 3, level = 1, gameSpeed = 1,
      input = \<lparr>in_left = False, in_right = False, in_shoot = False\<rparr>,
      player = \<lparr>position = \<lparr>vec_x = w / 2, vec_y = h - 60\<rparr>,
                velocity = \<lparr>vec_x = 0, vec_y = 0\<rparr>,
                obj_size = \<lparr>vec_x = 30, vec_y = 30\<rparr>,
                active = True, p_health = 100, p_shootCooldown = 0, p_powerUps = []\<rparr>,
      enemies = [], projectiles = [], powerUps = [], particles = [],
      enemySpawnTimer = 0, powerUpSpawnTimer = 0,
      randomSource = rnd, randomCalls = 0\<rparr>"

datatype Action = ActLeft | ActRight | ActShoot

fun setPlayerInput :: "Action \<Rightarrow> bool \<Rightarrow> GameEngine \<Rightarrow> GameEngine" where
  "setPlayerInput ActLeft pressed s = s\<lparr>input := (input s)\<lparr>in_left := pressed\<rparr>\<rparr>"
| "setPlayerInput ActRight pressed s = s\<lparr>input := (input s)\<lparr>in_right := pressed\<rparr>\<rparr>"
| "setPlayerInput ActShoot pressed s = s\<lparr>input := (input s)\<lparr>in_shoot := pressed\<rparr>\<rparr>"

definition reset :: "GameEngine \<Rightarrow> GameEngine" where
  "reset s =
     (let s1 = s\<lparr>score := 0, lives := 3, level := 1, gameSpeed := 1\<rparr>;
          s2 = s1\<lparr>player := (player s1)
                 \<lparr>position := \<lparr>vec_x = canvasWidth s1 / 2, vec_y = canvasHeight s1 - 60\<rparr>,
                  p_health := 100, p_powerUps := []\<rparr>\<rparr>;
          s3 = s2\<lparr>enemies := [], projectiles := [], powerUps := [], particles := []\<rparr>;
          s4 = s3\<lparr>enemySpawnTimer := 0, powerUpSpawnTimer := POWERUP_SPAWN_RATE\<rparr>
      in fire (PowerUpChange [])
           (fire (LevelChange (level s4))
             (fire (LivesChange (lives s4))
               (fire (ScoreChange (score s4)) s4))))"

section \<open>Collision test and entity creation\<close>

definition checkCollision ::
  "('a GameObject_scheme) \<Rightarrow> ('b GameObject_scheme) \<Rightarrow> bool" where
  "checkCollision obj1 obj2 =
     (vec_x (position obj1) < vec_x (position obj2) + vec_x (obj_size obj2) \<and>
      vec_x (position obj1) + vec_x (obj_size obj1) > vec_x (position obj2) \<and>
      vec_y (position obj1) < vec_y (position obj2) + vec_y (obj_size obj2) \<and>
      vec_y (position obj1) + vec_y (obj_size obj1) > vec_y (position obj2))"

definition playerShot :: "Player \<Rightarrow> Projectile" where
  "playerShot p =
     \<lparr>position = \<lparr>vec_x = vec_x (position p),
                  vec_y = vec_y (position p) - vec_y (obj_size p) / 2\<rparr>,
      velocity = \<lparr>vec_x = 0, vec_y = - PROJECTILE_SPEED\<rparr>,
      obj_size = \<lparr>vec_x = 4, vec_y = 12\<rparr>,
      active = True, damage = 25, owner = OwnerPlayer\<rparr>"

definition createPlayerProjectile :: "GameEngine \<Rightarrow> GameEngine" where
  "createPlayerProjectile s =
     (let projectile = playerShot (player s);
          s1 = s\<lparr>projectiles := projectiles s @ [projectile]\<rparr>
      in if mapHas multiShot (p_powerUps (player s1)) then
           (let leftProjectile = projectile
                  \<lparr>position := \<lparr>vec_x = vec_x (position projectile) - 15,
                                vec_y = vec_y (position projectile)\<rparr>,
                   velocity := \<lparr>vec_x = - 50, vec_y = - PROJECTILE_SPEED\<rparr>\<rparr>;
                rightProjectile = projectile
                  \<lparr>position := \<lparr>vec_x = vec_x (position projectile) + 15,
                                vec_y = vec_y (position projectile)\<rparr>,
                   velocity := \<lparr>vec_x = 50, vec_y = - PROJECTILE_SPEED\<rparr>\<rparr>
            in s1\<lparr>projectiles := projectiles s1 @ [leftProjectile, rightProjectile]\<rparr>)
         else s1)"

definition createEnemyProjectile :: "Enemy \<Rightarrow> GameEngine \<Rightarrow> GameEngine" where
  "createEnemyProjectile enemy s =
     s\<lparr>projectiles := projectiles s @
        [\<lparr>position = \<lparr>vec_x = vec_x (position enemy),
                       vec_y = vec_y (position enemy) + vec_y (obj_size enemy) / 2\<rparr>,
          velocity = \<lparr>vec_x = 0, vec_y = PROJECTILE_SPEED * 0.6\<rparr>,
          obj_size = \<lparr>vec_x = 3, vec_y = 8\<rparr>,
          active = True, damage = 20, owner = OwnerEnemy\<rparr>]\<rparr>"

text \<open>
  \<open>enemyTypes[Math.floor(Math.random() * 3)]\<close>: \<open>Math.random()\<close> is in \<open>[0, 1)\<close>, so
  the index is 0, 1 or 2.
\<close>

definition pickEnemyType :: "real \<Rightarrow> EnemyType" where
  "pickEnemyType r = [basic, fast, heavy] ! nat \<lfloor>r * 3\<rfloor>"

definition pickPowerUpType :: "real \<Rightarrow> PowerUpType" where
  "pickPowerUpType r = [rapidFire, shield, multiShot] ! nat \<lfloor>r * 3\<rfloor>"

definition spawnEnemy :: "GameEngine \<Rightarrow> GameEngine" where
  "spawnEnemy s =
     (let (r1, s1) = random s;
          randomType = pickEnemyType r1;
          (r2, s2) = random s1;
          (r3, s3) = random s2;
          (r4, s4) = random s3;
          enemy = \<lparr>position = \<lparr>vec_x = r2 * (canvasWidth s - 40) + 20, vec_y = - 30\<rparr>,
                   velocity = \<lparr>vec_x = (r3 - 0.5) * 50, vec_y = 80\<rparr>,
                   obj_size = \<lparr>vec_x = 30, vec_y = 30\<rparr>,
                   active = True,
                   e_type = randomType,
                   e_health = (if randomType = heavy then 75
                               else if randomType = fast then 25 else 50),
                   points = (if randomType = heavy then 200
                             else if randomType = fast then 150 else 100),
                   e_shootCooldown = r4 * 2000\<rparr>;
          enemy1 = (if randomType = fast then
                      enemy\<lparr>velocity := (velocity enemy)\<lparr>vec_y := 120\<rparr>,
                            obj_size := \<lparr>vec_x = 25, vec_y = 25\<rparr>\<rparr>
                    else if randomType = heavy then
                      enemy\<lparr>velocity := (velocity enemy)\<lparr>vec_y := 50\<rparr>,
                            obj_size := \<lparr>vec_x = 40, vec_y = 40\<rparr>\<rparr>
                    else enemy)
      in s4\<lparr>enemies := enemies s4 @ [enemy1]\<rparr>)"

definition spawnPowerUp :: "GameEngine \<Rightarrow> GameEngine" where
  "spawnPowerUp s =
     (let (r1, s1) = random s;
          randomType = pickPowerUpType r1;
          (r2, s2) = random s1;
          powerUp = \<lparr>position = \<lparr>vec_x = r2 * (canvasWidth s - 30) + 15, vec_y = - 20\<rparr>,
                     velocity = \<lparr>vec_x = 0, vec_y = 60\<rparr>,
                     obj_size = \<lparr>vec_x = 25, vec_y = 25\<rparr>,
                     active = True, pu_type = randomType, duration = 8000\<rparr>
      in s2\<lparr>powerUps := powerUps s2 @ [powerUp]\<rparr>)"

text \<open>The \<open>for\<close> loop of \<open>createParticles\<close>, by recursion on the remaining count.\<close>

fun createParticles :: "Vector2D \<Rightarrow> string \<Rightarrow> nat \<Rightarrow> GameEngine \<Rightarrow> GameEngine" where
  "createParticles pos col 0 s = s"
| "createParticles pos col (Suc n) s =
     (let (r1, s1) = random s;
          (r2, s2) = random s1;
          (r3, s3) = random s2;
          particle = \<lparr>position = pos,
                      velocity = \<lparr>vec_x = (r1 - 0.5) * 200, vec_y = (r2 - 0.5) * 200\<rparr>,
                      obj_size = \<lparr>vec_x = 3, vec_y = 3\<rparr>,
                      active = True,
                      life = 500 + r3 * 500, maxLife = 1000, color = col\<rparr>
      in createParticles pos col n (s3\<lparr>particles := particles s3 @ [particle]\<rparr>))"

section \<open>The update pipeline\<close>

text \<open>
  A \<open>for (const x of xs) { ... }\<close> loop whose body changes \<open>x\<close> in place and the rest
  of the engine: the body is a function from the element and the state to the changed
  element and the new state, run over the list from left to right. No loop of the
  engine adds to or removes from the list it runs over.
\<close>

fun forEach :: "('a \<Rightarrow> 's \<Rightarrow> 'a \<times> 's) \<Rightarrow> 'a list \<Rightarrow> 's \<Rightarrow> 'a list \<times> 's" where
  "forEach body [] s = ([], s)"
| "forEach body (x # xs) s =
     (let (x1, s1) = body x s; (xs1, s2) = forEach body xs s1 in (x1 # xs1, s2))"

text \<open>
  The loop over \<open>player.powerUps.entries()\<close>: each entry is visited once and only its
  own key is deleted or set.
\<close>

definition tickPowerUp :: "real \<Rightarrow> PowerUpType \<times> real \<Rightarrow> PowerUpMap \<Rightarrow> PowerUpMap" where
  "tickPowerUp deltaTime kv m =
     (let newTimeLeft = snd kv - deltaTime
      in if newTimeLeft \<le> 0 then mapDelete (fst kv) m else mapSet (fst kv) newTimeLeft m)"

definition tickPowerUps :: "real \<Rightarrow> PowerUpMap \<Rightarrow> PowerUpMap" where
  "tickPowerUps deltaTime m = fold (tickPowerUp deltaTime) m m"

definition updatePlayer :: "real \<Rightarrow> GameEngine \<Rightarrow> GameEngine" where
  "updatePlayer deltaTime s =
     (let dt = deltaTime / 1000;
          p0 = player s;
          v1 = (if in_left (input s) then - PLAYER_SPEED else 0);
          v2 = (if in_right (input s) then PLAYER_SPEED else v1);
          x1 = vec_x (position p0) + v2 * dt;
          x2 = max (vec_x (obj_size p0) / 2)
                 (min (canvasWidth s - vec_x (obj_size p0) / 2) x1);
          cd = max 0 (p_shootCooldown p0 - deltaTime);
          s1 = s\<lparr>player := p0\<lparr>velocity := (velocity p0)\<lparr>vec_x := v2\<rparr>,
                              position := (position p0)\<lparr>vec_x := x2\<rparr>,
                              p_shootCooldown := cd\<rparr>\<rparr>;
          s2 = (if in_shoot (input s1) \<and> p_shootCooldown (player s1) \<le> 0 then
                  (let s' = createPlayerProjectile s1;
                       rapidFireActive = mapHas rapidFire (p_powerUps (player s'))
                   in s'\<lparr>player := (player s')
                          \<lparr>p_shootCooldown := (if rapidFireActive then 100 else 250)\<rparr>\<rparr>)
                else s1);
          s3 = s2\<lparr>player := (player s2)
                 \<lparr>p_powerUps := tickPowerUps deltaTime (p_powerUps (player s2))\<rparr>\<rparr>;
          activePowerUps = map (\<lambda>kv. (fst kv, snd kv / 1000)) (p_powerUps (player s3))
      in fire (PowerUpChange activePowerUps) s3)"

definition enemyStep :: "real \<Rightarrow> Enemy \<Rightarrow> GameEngine \<Rightarrow> Enemy \<times> GameEngine" where
  "enemyStep deltaTime enemy s =
     (if \<not> active enemy then (enemy, s)
      else
        (let dt = deltaTime / 1000;
             e1 = enemy\<lparr>position :=
                    \<lparr>vec_x = vec_x (position enemy) + vec_x (velocity enemy) * dt * gameSpeed s,
                     vec_y = vec_y (position enemy) + vec_y (velocity enemy) * dt * gameSpeed s\<rparr>\<rparr>;
             e2 = (if vec_y (position e1) > canvasHeight s + 50 then e1\<lparr>active := False\<rparr>
                   else e1);
             e3 = e2\<lparr>e_shootCooldown := max 0 (e_shootCooldown e2 - deltaTime)\<rparr>
         in if e_shootCooldown e3 \<le> 0 then
              (let (r1, s1) = random s
               in if r1 < 0.005 then
                    (let s2 = createEnemyProjectile e3 s1;
                         (r2, s3) = random s2
                     in (e3\<lparr>e_shootCooldown := 1000 + r2 * 2000\<rparr>, s3))
                  else (e3, s1))
            else (e3, s)))"

definition updateEnemies :: "real \<Rightarrow> GameEngine \<Rightarrow> GameEngine" where
  "updateEnemies deltaTime s =
     (let (es, s1) = forEach (enemyStep deltaTime) (enemies s) s in s1\<lparr>enemies := es\<rparr>)"

definition projectileStep :: "real \<Rightarrow> real \<Rightarrow> real \<Rightarrow> Projectile \<Rightarrow> Projectile" where
  "projectileStep deltaTime w h projectile =
     (if \<not> active projectile then projectile
      else
        (let dt = deltaTime / 1000;
             p1 = projectile\<lparr>position :=
                    \<lparr>vec_x = vec_x (position projectile) + vec_x (velocity projectile) * dt,
                     vec_y = vec_y (position projectile) + vec_y (velocity projectile) * dt\<rparr>\<rparr>
         in if vec_y (position p1) < - 10 \<or> vec_y (position p1) > h + 10 \<or>
               vec_x (position p1) < - 10 \<or> vec_x (position p1) > w + 10
            then p1\<lparr>active := False\<rparr> else p1))"

definition updateProjectiles :: "real \<Rightarrow> GameEngine \<Rightarrow> GameEngine" where
  "updateProjectiles deltaTime s =
     s\<lparr>projectiles :=
         map (projectileStep deltaTime (canvasWidth s) (canvasHeight s)) (projectiles s)\<rparr>"

definition powerUpStep :: "real \<Rightarrow> nat \<Rightarrow> PowerUp \<Rightarrow> PowerUp" where
  "powerUpStep deltaTime frames powerUp =
     (if \<not> active powerUp then powerUp
      else
        (let p1 = powerUp\<lparr>position := (position powerUp)
                    \<lparr>vec_y := vec_y (position powerUp) + sin (real frames * 0.1) * 0.5\<rparr>,
                  duration := duration powerUp - deltaTime\<rparr>
         in if duration p1 \<le> 0 then p1\<lparr>active := False\<rparr> else p1))"

definition updatePowerUps :: "real \<Rightarrow> GameEngine \<Rightarrow> GameEngine" where
  "updatePowerUps deltaTime s =
     s\<lparr>powerUps := map (powerUpStep deltaTime (frameCount s)) (powerUps s)\<rparr>"

definition particleStep :: "real \<Rightarrow> Particle \<Rightarrow> Particle" where
  "particleStep deltaTime particle =
     (if \<not> active particle then particle
      else
        (let dt = deltaTime / 1000;
             p1 = particle\<lparr>position :=
                    \<lparr>vec_x = vec_x (position particle) + vec_x (velocity particle) * dt,
                     vec_y = vec_y (position particle) + vec_y (velocity particle) * dt\<rparr>,
                  life := life particle - deltaTime\<rparr>
         in if life p1 \<le> 0 then p1\<lparr>active := False\<rparr> else p1))"

definition updateParticles :: "real \<Rightarrow> GameEngine \<Rightarrow> GameEngine" where
  "updateParticles deltaTime s = s\<lparr>particles := map (particleStep deltaTime) (particles s)\<rparr>"

definition updateSpawning :: "real \<Rightarrow> GameEngine \<Rightarrow> GameEngine" where
  "updateSpawning deltaTime s =
     (let s1 = s\<lparr>enemySpawnTimer := enemySpawnTimer s - deltaTime\<rparr>;
          s2 = (if enemySpawnTimer s1 \<le> 0 then
                  (let s' = spawnEnemy s1
                   in s'\<lparr>enemySpawnTimer := ENEMY_SPAWN_RATE / gameSpeed s'\<rparr>)
                else s1);
          s3 = s2\<lparr>powerUpSpawnTimer := powerUpSpawnTimer s2 - deltaTime\<rparr>
      in if powerUpSpawnTimer s3 \<le> 0 then
           (let s' = spawnPowerUp s3 in s'\<lparr>powerUpSpawnTimer := POWERUP_SPAWN_RATE\<rparr>)
         else s3)"

section \<open>Collision resolution\<close>

text \<open>
  \<open>handleCollisions\<close> is four loops in a row, \<open>pass1\<close> to \<open>pass4\<close> here (the source
  has them inline, under the comments \<^emph>\<open>Player projectiles vs enemies\<close>, \<^emph>\<open>Enemy
  projectiles vs player\<close>, \<^emph>\<open>Player vs enemies\<close> and \<^emph>\<open>Player vs power-ups\<close>); the body
  of each loop is a function of its own.
\<close>

text \<open>
  Pass 1, the inner loop over the enemies for one projectile. The projectile is part of
  the loop's state: the body sets its \<open>active\<close> flag and does not read it.
\<close>

definition hitEnemy ::
  "Enemy \<Rightarrow> Projectile \<times> GameEngine \<Rightarrow> Enemy \<times> (Projectile \<times> GameEngine)" where
  "hitEnemy enemy ps =
     (let projectile = fst ps; s = snd ps
      in if \<not> active enemy then (enemy, ps)
         else if checkCollision projectile enemy then
           (let p1 = projectile\<lparr>active := False\<rparr>;
                e1 = enemy\<lparr>e_health := e_health enemy - damage projectile\<rparr>;
                s1 = createParticles (position e1) ''#ff6b6b'' 5 s
            in if e_health e1 \<le> 0 then
                 (let e2 = e1\<lparr>active := False\<rparr>;
                      s2 = s1\<lparr>score := score s1 + points e2\<rparr>;
                      s3 = fire (ScoreChange (score s2)) s2
                  in (e2, (p1, createParticles (position e2) ''#ffd93d'' 10 s3)))
               else (e1, (p1, s1)))
         else (enemy, ps))"

text \<open>Pass 1, the outer loop over the projectiles; the enemies are part of its state.\<close>

definition projectileVsEnemies ::
  "Projectile \<Rightarrow> Enemy list \<times> GameEngine \<Rightarrow> Projectile \<times> (Enemy list \<times> GameEngine)" where
  "projectileVsEnemies projectile ess =
     (if \<not> active projectile \<or> owner projectile \<noteq> OwnerPlayer then (projectile, ess)
      else
        (let (es1, (p1, s1)) = forEach hitEnemy (fst ess) (projectile, snd ess)
         in (p1, (es1, s1))))"

text \<open>
  The block both damage passes run on a hit: nothing under a shield, else one life less,
  the lives callback, particles at the player, and the game-over callback at
  \<open>lives \<le> 0\<close>.
\<close>

definition damagePlayer :: "string \<Rightarrow> nat \<Rightarrow> GameEngine \<Rightarrow> GameEngine" where
  "damagePlayer col n s =
     (if \<not> mapHas shield (p_powerUps (player s)) then
        (let s1 = s\<lparr>lives := lives s - 1\<rparr>;
             s2 = fire (LivesChange (lives s1)) s1;
             s3 = createParticles (position (player s2)) col n s2
         in if lives s3 \<le> 0 then fire GameOver s3 else s3)
      else s)"

definition projectileVsPlayer :: "Projectile \<Rightarrow> GameEngine \<Rightarrow> Projectile \<times> GameEngine" where
  "projectileVsPlayer projectile s =
     (if \<not> active projectile \<or> owner projectile \<noteq> OwnerEnemy then (projectile, s)
      else if checkCollision projectile (player s) then
        (projectile\<lparr>active := False\<rparr>, damagePlayer ''#ff4757'' 8 s)
      else (projectile, s))"

definition playerVsEnemy :: "Enemy \<Rightarrow> GameEngine \<Rightarrow> Enemy \<times> GameEngine" where
  "playerVsEnemy enemy s =
     (if \<not> active enemy then (enemy, s)
      else if checkCollision (player s) enemy then
        (enemy\<lparr>active := False\<rparr>, damagePlayer ''#ff6b6b'' 12 s)
      else (enemy, s))"

definition playerVsPowerUp :: "PowerUp \<Rightarrow> GameEngine \<Rightarrow> PowerUp \<times> GameEngine" where
  "playerVsPowerUp powerUp s =
     (if \<not> active powerUp then (powerUp, s)
      else if checkCollision (player s) powerUp then
        (let p1 = powerUp\<lparr>active := False\<rparr>;
             s1 = s\<lparr>player := (player s)
                    \<lparr>p_powerUps := mapSet (pu_type p1) (duration p1) (p_powerUps (player s))\<rparr>\<rparr>
         in (p1, createParticles (position p1) ''#6c5ce7'' 8 s1))
      else (powerUp, s))"

definition pass1 :: "GameEngine \<Rightarrow> GameEngine" where
  "pass1 s =
     (let (ps, (es, s1)) = forEach projectileVsEnemies (projectiles s) (enemies s, s)
      in s1\<lparr>projectiles := ps, enemies := es\<rparr>)"

definition pass2 :: "GameEngine \<Rightarrow> GameEngine" where
  "pass2 s =
     (let (ps, s1) = forEach projectileVsPlayer (projectiles s) s in s1\<lparr>projectiles := ps\<rparr>)"

definition pass3 :: "GameEngine \<Rightarrow> GameEngine" where
  "pass3 s =
     (let (es, s1) = forEach playerVsEnemy (enemies s) s in s1\<lparr>enemies := es\<rparr>)"

definition pass4 :: "GameEngine \<Rightarrow> GameEngine" where
  "pass4 s =
     (let (pus, s1) = forEach playerVsPowerUp (powerUps s) s in s1\<lparr>powerUps := pus\<rparr>)"

definition handleCollisions :: "GameEngine \<Rightarrow> GameEngine" where
  "handleCollisions s = pass4 (pass3 (pass2 (pass1 s)))"

section \<open>Difficulty, cleanup and the tick\<close>

definition updateGameState :: "GameEngine \<Rightarrow> GameEngine" where
  "updateGameState s =
     (let newLevel = real_of_int \<lfloor>score s / 1000\<rfloor> + 1
      in if newLevel \<noteq> level s then
           (let s1 = s\<lparr>level := newLevel\<rparr>;
                s2 = s1\<lparr>gameSpeed := 1 + (level s1 - 1) * 0.2\<rparr>
            in fire (LevelChange (level s2)) s2)
         else s)"

definition cleanup :: "GameEngine \<Rightarrow> GameEngine" where
  "cleanup s =
     s\<lparr>enemies := filter active (enemies s),
       projectiles := filter active (projectiles s),
       powerUps := filter active (powerUps s),
       particles := filter active (particles s)\<rparr>"

definition update :: "real \<Rightarrow> GameEngine \<Rightarrow> GameEngine" where
  "update timestamp s =
     (let deltaTime = timestamp - lastTime s;
          s1 = s\<lparr>lastTime := timestamp, frameCount := Suc (frameCount s)\<rparr>;
          s2 = updatePlayer deltaTime s1;
          s3 = updateEnemies deltaTime s2;
          s4 = updateProjectiles deltaTime s3;
          s5 = updatePowerUps deltaTime s4;
          s6 = updateParticles deltaTime s5;
          s7 = updateSpawning deltaTime s6;
          s8 = handleCollisions s7;
          s9 = updateGameState s8
      in cleanup s9)"

text \<open>
  \<open>render\<close> reads the state and draws it. It changes nothing of the engine, but
  \<open>renderStarfield\<close> calls \<open>Math.random\<close> twice for each of its 100 stars.
\<close>

definition render :: "GameEngine \<Rightarrow> GameEngine" where
  "render s = s\<lparr>randomCalls := randomCalls s + 200\<rparr>"

section \<open>Auxiliary definitions\<close>

subsection \<open>Particles, phases and concrete states\<close>

text \<open>
  The particles one call of \<open>createParticles\<close> adds, with \<open>rnd\<close> the random source
  and \<open>i\<close> the index of the next value to read.
\<close>

fun particleBurst ::
  "Vector2D \<Rightarrow> string \<Rightarrow> (nat \<Rightarrow> real) \<Rightarrow> nat \<Rightarrow> nat \<Rightarrow> Particle list" where
  "particleBurst pos col rnd i 0 = []"
| "particleBurst pos col rnd i (Suc n) =
     \<lparr>position = pos,
      velocity = \<lparr>vec_x = (rnd i - 0.5) * 200, vec_y = (rnd (Suc i) - 0.5) * 200\<rparr>,
      obj_size = \<lparr>vec_x = 3, vec_y = 3\<rparr>,
      active = True,
      life = 500 + rnd (Suc (Suc i)) * 500, maxLife = 1000, color = col\<rparr>
     # particleBurst pos col rnd (Suc (Suc (Suc i))) n"

text \<open>
  The overlap test as the specification words it: the rectangles are centred at
  \<open>position\<close> and \<open>size\<close> wide and high, and all four comparisons are strict.
\<close>

definition centredOverlap :: "('a GameObject_scheme) \<Rightarrow> ('b GameObject_scheme) \<Rightarrow> bool" where
  "centredOverlap a b =
     (vec_x (position a) - vec_x (obj_size a) / 2 < vec_x (position b) + vec_x (obj_size b) / 2 \<and>
      vec_x (position a) + vec_x (obj_size a) / 2 > vec_x (position b) - vec_x (obj_size b) / 2 \<and>
      vec_y (position a) - vec_y (obj_size a) / 2 < vec_y (position b) + vec_y (obj_size b) / 2 \<and>
      vec_y (position a) + vec_y (obj_size a) / 2 > vec_y (position b) - vec_y (obj_size b) / 2)"

text \<open>Concrete entities and engine states for the examples.\<close>

definition gameObject :: "real \<Rightarrow> real \<Rightarrow> real \<Rightarrow> real \<Rightarrow> GameObject" where
  "gameObject px py w h =
     \<lparr>position = \<lparr>vec_x = px, vec_y = py\<rparr>, velocity = \<lparr>vec_x = 0, vec_y = 0\<rparr>,
      obj_size = \<lparr>vec_x = w, vec_y = h\<rparr>, active = True\<rparr>"

definition enemyAt :: "real \<Rightarrow> real \<Rightarrow> Enemy" where
  "enemyAt px py =
     \<lparr>position = \<lparr>vec_x = px, vec_y = py\<rparr>, velocity = \<lparr>vec_x = 0, vec_y = 80\<rparr>,
      obj_size = \<lparr>vec_x = 30, vec_y = 30\<rparr>, active = True, e_type = basic, e_health = 50,
      points = 100, e_shootCooldown = 1000\<rparr>"

definition shotAt :: "real \<Rightarrow> real \<Rightarrow> Projectile" where
  "shotAt px py =
     \<lparr>position = \<lparr>vec_x = px, vec_y = py\<rparr>, velocity = \<lparr>vec_x = 0, vec_y = - 400\<rparr>,
      obj_size = \<lparr>vec_x = 4, vec_y = 12\<rparr>, active = True, damage = 25, owner = OwnerPlayer\<rparr>"

text \<open>
  The engine after construction on a canvas of 800 by 600, with \<open>Math.random\<close> always 0
  and both spawn timers well above 0, so that a tick spawns nothing. The other states
  put entities into it.
\<close>

definition quiet :: GameEngine where
  "quiet =
     (constructor 800 600 (\<lambda>n. 0))\<lparr>enemySpawnTimer := 1000, powerUpSpawnTimer := 15000\<rparr>"

definition oneShotTwoEnemies :: GameEngine where
  "oneShotTwoEnemies =
     quiet\<lparr>enemies := [enemyAt 100 100, enemyAt 110 100], projectiles := [shotAt 115 110]\<rparr>"

text \<open>The phases of \<open>update\<close> before collision resolution, and all of it but \<open>cleanup\<close>.\<close>

definition beforeCollisions :: "real \<Rightarrow> GameEngine \<Rightarrow> GameEngine" where
  "beforeCollisions timestamp s =
     (let deltaTime = timestamp - lastTime s;
          s1 = s\<lparr>lastTime := timestamp, frameCount := Suc (frameCount s)\<rparr>
      in updateSpawning deltaTime
           (updateParticles deltaTime
             (updatePowerUps deltaTime
               (updateProjectiles deltaTime
                 (updateEnemies deltaTime
                   (updatePlayer deltaTime s1))))))"

definition beforeCleanup :: "real \<Rightarrow> GameEngine \<Rightarrow> GameEngine" where
  "beforeCleanup timestamp s = updateGameState (handleCollisions (beforeCollisions timestamp s))"

subsection \<open>Deactivation\<close>

text \<open>
  \<open>stays xs ys\<close>: the collection \<open>ys\<close> still has every entity of \<open>xs\<close> at its
  index (entities after them are new), and none that was inactive in \<open>xs\<close> is active
  in \<open>ys\<close>. \<open>entitiesStay\<close> says so of the four collections of two states;
  \<open>particlesOnly\<close> is the case of a step that only adds particles.
\<close>

definition stays :: "('a GameObject_scheme) list \<Rightarrow> ('a GameObject_scheme) list \<Rightarrow> bool" where
  "stays xs ys = (length xs \<le> length ys \<and> (\<forall>i<length xs. active (ys ! i) \<longrightarrow> active (xs ! i)))"

definition entitiesStay :: "GameEngine \<Rightarrow> GameEngine \<Rightarrow> bool" where
  "entitiesStay s s' =
     (stays (enemies s) (enemies s') \<and> stays (projectiles s) (projectiles s') \<and>
      stays (powerUps s) (powerUps s') \<and> stays (particles s) (particles s'))"

definition particlesOnly :: "GameEngine \<Rightarrow> GameEngine \<Rightarrow> bool" where
  "particlesOnly s s' =
     (enemies s' = enemies s \<and> projectiles s' = projectiles s \<and> powerUps s' = powerUps s \<and>
      stays (particles s) (particles s'))"

subsection \<open>Lives and game over\<close>

text \<open>
  The calls of \<open>onLivesChange\<close> and \<open>onGameOver\<close>. \<open>hitEvents l k\<close> is what \<open>k\<close>
  unshielded hits fire when they start at \<open>lives = l\<close>: each one the new number of
  lives and, when that is at most 0, game-over. \<open>lifeTrace s s'\<close>: from \<open>s\<close> to \<open>s'\<close>
  the log has grown by these calls, among calls of other callbacks, and \<open>lives\<close> has
  dropped by \<open>k\<close>.
\<close>

fun lifeEvent :: "Event \<Rightarrow> bool" where
  "lifeEvent (LivesChange v) = True"
| "lifeEvent GameOver = True"
| "lifeEvent ev = False"

fun hitEvents :: "real \<Rightarrow> nat \<Rightarrow> Event list" where
  "hitEvents l 0 = []"
| "hitEvents l (Suc k) =
     LivesChange (l - 1) # (if l - 1 \<le> 0 then [GameOver] else []) @ hitEvents (l - 1) k"

definition lifeTrace :: "GameEngine \<Rightarrow> GameEngine \<Rightarrow> bool" where
  "lifeTrace s s' =
     (\<exists>new k. callbackLog s' = callbackLog s @ new \<and> lives s' = lives s - real k \<and>
        filter lifeEvent new = hitEvents (lives s) k)"

subsection \<open>Score\<close>

text \<open>
  The points \<open>spawnEnemy\<close> gives an enemy of each type. \<open>enemyOk\<close> is what the engine
  keeps true of every enemy: it has the points of its type and, while active, positive
  health.
\<close>

fun pointValue :: "EnemyType \<Rightarrow> real" where
  "pointValue heavy = 200"
| "pointValue fast = 150"
| "pointValue basic = 100"

definition enemyOk :: "Enemy \<Rightarrow> bool" where
  "enemyOk e = (points e = pointValue (e_type e) \<and> (active e \<longrightarrow> 0 < e_health e))"

text \<open>
  An enemy is destroyed between two states when its health goes from above 0 to at most
  0. \<open>tally c es es'\<close> adds up \<open>c e\<close> over the enemies of \<open>es\<close> destroyed in \<open>es'\<close>;
  \<open>evolves\<close> is how an enemy changes during collision resolution.
\<close>

definition destroyed :: "Enemy \<Rightarrow> Enemy \<Rightarrow> bool" where
  "destroyed e e' = (0 < e_health e \<and> e_health e' \<le> 0)"

definition tally :: "(Enemy \<Rightarrow> 'a::comm_monoid_add) \<Rightarrow> Enemy list \<Rightarrow> Enemy list \<Rightarrow> 'a" where
  "tally c es es' =
     sum_list (map (\<lambda>ee. if destroyed (fst ee) (snd ee) then c (fst ee) else 0) (zip es es'))"

definition evolves :: "Enemy \<Rightarrow> Enemy \<Rightarrow> bool" where
  "evolves e e' =
     (enemyOk e \<and> enemyOk e' \<and> e_type e' = e_type e \<and> (\<not> active e \<longrightarrow> e' = e))"

text \<open>
  The arguments of the calls of \<open>onScoreChange\<close> in a log. \<open>scored n t t'\<close>: from \<open>t\<close> to
  \<open>t'\<close> the callback was called \<open>n\<close> times, each time with the previous score plus 100,
  150 or 200, and the last call, if any, carried the score of \<open>t'\<close>.
\<close>

fun scoreValues :: "Event list \<Rightarrow> real list" where
  "scoreValues [] = []"
| "scoreValues (ScoreChange v # evs) = v # scoreValues evs"
| "scoreValues (ev # evs) = scoreValues evs"

definition scored :: "nat \<Rightarrow> GameEngine \<Rightarrow> GameEngine \<Rightarrow> bool" where
  "scored n t t' =
     (\<exists>new. callbackLog t' = callbackLog t @ new \<and> length (scoreValues new) = n \<and>
        last (score t # scoreValues new) = score t' \<and>
        successively (\<lambda>a b. b - a \<in> {100, 150, 200}) (score t # scoreValues new))"

abbreviation pv :: "Enemy \<Rightarrow> real" where
  "pv e \<equiv> pointValue (e_type e)"

abbreviation one :: "Enemy \<Rightarrow> nat" where
  "one e \<equiv> Suc 0"

text \<open>Enemies on their way through the phases.\<close>

definition sameBody :: "Enemy \<Rightarrow> Enemy \<Rightarrow> bool" where
  "sameBody e e' =
     (e_type e' = e_type e \<and> e_health e' = e_health e \<and> points e' = points e \<and>
      (active e' \<longrightarrow> active e))"

text \<open>
  The states of an engine: constructed on some canvas with some random source, then
  driven by \<open>update\<close>, \<open>render\<close>, \<open>setPlayerInput\<close> and \<open>reset\<close> in any order.
\<close>

inductive reachable :: "GameEngine \<Rightarrow> bool" where
  start: "reachable (constructor w h rnd)"
| tick: "reachable s \<Longrightarrow> reachable (update timestamp s)"
| key: "reachable s \<Longrightarrow> reachable (setPlayerInput a pressed s)"
| restart: "reachable s \<Longrightarrow> reachable (reset s)"
| frame: "reachable s \<Longrightarrow> reachable (render s)"

text \<open>
  One life left and two enemy projectiles on the player; \<open>lastLifeMid\<close> is that state
  after the phases of a 16 ms tick that come before collision resolution.
\<close>

definition enemyShotAt :: "real \<Rightarrow> real \<Rightarrow> Projectile" where
  "enemyShotAt px py =
     \<lparr>position = \<lparr>vec_x = px, vec_y = py\<rparr>, velocity = \<lparr>vec_x = 0, vec_y = 240\<rparr>,
      obj_size = \<lparr>vec_x = 3, vec_y = 8\<rparr>, active = True, damage = 20, owner = OwnerEnemy\<rparr>"

definition lastLife :: GameEngine where
  "lastLife = quiet\<lparr>lives := 1, projectiles := [enemyShotAt 405 545, enemyShotAt 410 545]\<rparr>"

definition lastLifeMid :: GameEngine where
  "lastLifeMid =
     lastLife\<lparr>lastTime := 16, frameCount := 1, callbackLog := [PowerUpChange []],
              projectiles := [enemyShotAt 405 548.84, enemyShotAt 410 548.84],
              enemySpawnTimer := 984, powerUpSpawnTimer := 14984\<rparr>"

subsection \<open>Pickup, contact and cooldowns\<close>

text \<open>
  \<open>picked p pu\<close>: pass 4 picks the power-up up; \<open>pickUp\<close> is what that does to the
  player's map.
\<close>

definition picked :: "Player \<Rightarrow> PowerUp \<Rightarrow> bool" where
  "picked p pu = (active pu \<and> checkCollision p pu)"

definition pickUp :: "PowerUp \<Rightarrow> PowerUpMap \<Rightarrow> PowerUpMap" where
  "pickUp pu m = mapSet (pu_type pu) (duration pu) m"

text \<open>
  How one enemy and one projectile change in the damage passes: \<open>sameBox\<close> in pass 1,
  \<open>consumed\<close> for a projectile and \<open>rammed\<close> for an enemy over all of
  \<open>handleCollisions\<close>, with the player \<open>pl\<close> of its start.
\<close>

definition sameBox :: "Enemy \<Rightarrow> Enemy \<Rightarrow> bool" where
  "sameBox e e' =
     (position e' = position e \<and> obj_size e' = obj_size e \<and>
      e_shootCooldown e' = e_shootCooldown e \<and> (active e' \<longrightarrow> active e))"

definition consumed :: "Player \<Rightarrow> Projectile \<Rightarrow> Projectile \<Rightarrow> bool" where
  "consumed pl p p' =
     (active p \<and> owner p = OwnerEnemy \<and> checkCollision p pl \<longrightarrow> \<not> active p')"

definition rammed :: "Player \<Rightarrow> Enemy \<Rightarrow> Enemy \<Rightarrow> bool" where
  "rammed pl e e' =
     ((active e \<and> checkCollision pl e \<longrightarrow> \<not> active e') \<and> (active e' \<longrightarrow> active e) \<and>
      position e' = position e \<and> obj_size e' = obj_size e \<and>
      e_shootCooldown e' = e_shootCooldown e)"

text \<open>
  A shielded player on its last life, hit by an enemy projectile and rammed by an
  enemy; and a player with 3000 ms of shield left on a shield power-up with 500 ms left.
\<close>

definition shielded :: GameEngine where
  "shielded =
     quiet\<lparr>lives := 1,
           player := (player quiet)\<lparr>p_powerUps := [(shield, 5000)]\<rparr>,
           enemies := [enemyAt 390 530],
           projectiles := [enemyShotAt 405 545]\<rparr>"

definition shieldedMid :: GameEngine where
  "shieldedMid =
     shielded\<lparr>lastTime := 16, frameCount := 1,
              callbackLog := [PowerUpChange [(shield, 4.984)]],
              player := (player quiet)\<lparr>p_powerUps := [(shield, 4984)]\<rparr>,
              enemies := [(enemyAt 390 531.28)\<lparr>e_shootCooldown := 984\<rparr>],
              projectiles := [enemyShotAt 405 548.84],
              enemySpawnTimer := 984, powerUpSpawnTimer := 14984\<rparr>"

definition powerUpAt :: "PowerUpType \<Rightarrow> real \<Rightarrow> real \<Rightarrow> real \<Rightarrow> PowerUp" where
  "powerUpAt k px py left =
     \<lparr>position = \<lparr>vec_x = px, vec_y = py\<rparr>, velocity = \<lparr>vec_x = 0, vec_y = 60\<rparr>,
      obj_size = \<lparr>vec_x = 25, vec_y = 25\<rparr>, active = True, pu_type = k, duration = left\<rparr>"

definition nearlyExpired :: GameEngine where
  "nearlyExpired =
     quiet\<lparr>player := (player quiet)\<lparr>p_powerUps := [(shield, 3000)]\<rparr>,
           powerUps := [powerUpAt shield 410 530 500]\<rparr>"

text \<open>
  An active enemy's shoot cooldown is not negative.
\<close>

definition coolOk :: "Enemy \<Rightarrow> bool" where
  "coolOk e = (active e \<longrightarrow> 0 \<le> e_shootCooldown e)"

subsection \<open>More concrete states\<close>

text \<open>
  \<open>backwards\<close>: the last tick was at 2000 and an enemy is falling. \<open>bobbing\<close>: a
  power-up on screen after one frame. \<open>oneHitLeft\<close>: a shot on an enemy with health 25.
  \<open>wreck\<close>: an inactive enemy still in the list. \<open>trigger\<close>: the shoot key held. The
  \<open>Mid\<close> states are those reached before collision resolution.
\<close>

definition backwards :: GameEngine where
  "backwards = quiet\<lparr>lastTime := 2000, enemies := [enemyAt 100 100]\<rparr>"

definition backwardsMid :: GameEngine where
  "backwardsMid =
     backwards\<lparr>lastTime := 1000, frameCount := 1, callbackLog := [PowerUpChange []],
               player := (player quiet)\<lparr>p_shootCooldown := 1000\<rparr>,
               enemies := [(enemyAt 100 100)\<lparr>position := \<lparr>vec_x = 100, vec_y = 20\<rparr>,
                                            e_shootCooldown := 2000\<rparr>],
               enemySpawnTimer := 2000, powerUpSpawnTimer := 16000\<rparr>"

definition bobbing :: GameEngine where
  "bobbing = quiet\<lparr>frameCount := 1, powerUps := [powerUpAt shield 100 100 8000]\<rparr>"

definition oneHitLeft :: GameEngine where
  "oneHitLeft =
     quiet\<lparr>enemies := [(enemyAt 100 100)\<lparr>e_health := 25\<rparr>], projectiles := [shotAt 105 110]\<rparr>"

definition oneHitLeftMid :: GameEngine where
  "oneHitLeftMid =
     oneHitLeft\<lparr>lastTime := 16, frameCount := 1, callbackLog := [PowerUpChange []],
                enemies := [(enemyAt 100 101.28)\<lparr>e_health := 25, e_shootCooldown := 984\<rparr>],
                projectiles := [shotAt 105 103.6],
                enemySpawnTimer := 984, powerUpSpawnTimer := 14984\<rparr>"

definition wreck :: GameEngine where
  "wreck =
     quiet\<lparr>enemies := [(enemyAt 100 100)\<lparr>active := False\<rparr>],
           projectiles := [(shotAt 200 100)\<lparr>active := False\<rparr>],
           powerUps := [(powerUpAt shield 300 100 0)\<lparr>active := False\<rparr>],
           particles := [\<lparr>position = \<lparr>vec_x = 100, vec_y = 100\<rparr>,
                          velocity = \<lparr>vec_x = 0, vec_y = 0\<rparr>,
                          obj_size = \<lparr>vec_x = 3, vec_y = 3\<rparr>, active = False,
                          life = 0, maxLife = 1000, color = ''#ffd93d''\<rparr>]\<rparr>"

definition trigger :: GameEngine where
  "trigger = quiet\<lparr>input := (input quiet)\<lparr>in_shoot := True\<rparr>\<rparr>"

text \<open>
  What is left of a stored duration \<open>t\<close> after ticks with the deltas \<open>ds\<close>, in the
  order of the ticks: \<open>None\<close> once a tick has brought it to zero or below, as the entry
  is deleted then.
\<close>

fun countdown :: "real \<Rightarrow> real list \<Rightarrow> real option" where
  "countdown t [] = Some t"
| "countdown t (d # ds) = (if t - d \<le> 0 then None else countdown (t - d) ds)"

text \<open>
  What one entry of the map has become when \<open>tickPowerUp\<close> has run for the entries
  \<open>xs\<close>: untouched, counted down, or gone.
\<close>

definition tickEntry :: "real \<Rightarrow> PowerUpMap \<Rightarrow> PowerUpType \<times> real \<Rightarrow> PowerUpMap" where
  "tickEntry deltaTime xs kv =
     (case map_of xs (fst kv) of
        None \<Rightarrow> [kv]
      | Some t \<Rightarrow> (if t - deltaTime \<le> 0 then [] else [(fst kv, t - deltaTime)]))"

text \<open>
  The \<open>deltaTime\<close> of each tick of a run with the timestamps \<open>ts\<close> that starts with
  \<open>lastTime\<close> at \<open>l\<close>.
\<close>

fun deltas :: "real \<Rightarrow> real list \<Rightarrow> real list" where
  "deltas l [] = []"
| "deltas l (t # ts) = (t - l) # deltas t ts"

text \<open>
  No power-up of kind \<open>k\<close> is picked up in the ticks with the timestamps \<open>ts\<close>.
\<close>

fun noPickup :: "PowerUpType \<Rightarrow> real list \<Rightarrow> GameEngine \<Rightarrow> bool" where
  "noPickup k [] s = True"
| "noPickup k (t # ts) s =
     (filter (\<lambda>pu. pu_type pu = k)
        (filter (\<lambda>pu. active pu \<and> checkCollision (player (beforeCollisions t s)) pu)
           (powerUps (beforeCollisions t s))) = [] \<and>
      noPickup k ts (update t s))"

text \<open>
  A shield power-up with 516 left that overlaps the player, whose own shield has 3000
  left.
\<close>

definition approaching :: GameEngine where
  "approaching =
     quiet\<lparr>player := (player quiet)\<lparr>p_powerUps := [(shield, 3000)]\<rparr>,
           powerUps := [powerUpAt shield 410 530 516]\<rparr>"

section \<open>Properties\<close>

subsection \<open>Basic facts\<close>

lemma createParticles_eq:
  "createParticles pos col n s =
     s\<lparr>particles := particles s @ particleBurst pos col (randomSource s) (randomCalls s) n,
       randomCalls := randomCalls s + 3 * n\<rparr>"
  by (induction n arbitrary: s) (simp_all add: random_def)

lemmas collision_defs = handleCollisions_def pass1_def pass2_def pass3_def pass4_def
  projectileVsEnemies_def hitEnemy_def projectileVsPlayer_def playerVsEnemy_def
  playerVsPowerUp_def damagePlayer_def checkCollision_def fire_def mapHas_def
  createParticles_eq

lemmas example_defs = constructor_def quiet_def enemyAt_def shotAt_def gameObject_def

subsection \<open>The collision test, reset and player shots\<close>

text \<open>
  C2. \<open>checkCollision\<close> compares \<open>[position, position + size]\<close> on each axis, so
  \<open>position\<close> is the corner of the rectangle it tests, not its centre: a player
  projectile at (100, 100) and an enemy at (110, 100), whose rectangles centred at
  these positions overlap, do not collide.
\<close>

theorem checkCollision_not_centred:
  "centredOverlap (gameObject 100 100 4 12) (gameObject 110 100 30 30) \<and>
   \<not> checkCollision (gameObject 100 100 4 12) (gameObject 110 100 30 30)"
  by (simp add: centredOverlap_def checkCollision_def gameObject_def)

text \<open>
  C7. The inner loop of the first pass does not stop at the projectile's first hit and
  does not read the projectile's \<open>active\<close> flag: one active player projectile that
  overlaps two enemies takes its damage of 25 from both in the same call.
\<close>

theorem shot_damages_two_enemies:
  "map e_health (enemies oneShotTwoEnemies) = [50, 50] \<and>
   map active (projectiles oneShotTwoEnemies) = [True] \<and>
   map e_health (enemies (handleCollisions oneShotTwoEnemies)) = [25, 25]"
  by (simp add: oneShotTwoEnemies_def example_defs collision_defs)

text \<open>
  C8. \<open>reset\<close>, from any state, sets score 0, lives 3, level 1 and game speed 1, puts
  the player back at the centre of the bottom row, empties its power-up map and the
  four collections, sets the enemy spawn timer to 0 and the power-up spawn timer to
  15000, and calls the score, lives, level and power-up callbacks, in this order, with
  0, 3, 1 and the empty list.
\<close>

theorem reset_restores:
  "score (reset s) = 0 \<and> lives (reset s) = 3 \<and> level (reset s) = 1 \<and>
   gameSpeed (reset s) = 1 \<and>
   position (player (reset s)) = \<lparr>vec_x = canvasWidth s / 2, vec_y = canvasHeight s - 60\<rparr> \<and>
   p_powerUps (player (reset s)) = [] \<and>
   enemies (reset s) = [] \<and> projectiles (reset s) = [] \<and> powerUps (reset s) = [] \<and>
   particles (reset s) = [] \<and>
   enemySpawnTimer (reset s) = 0 \<and> powerUpSpawnTimer (reset s) = 15000 \<and>
   callbackLog (reset s) =
     callbackLog s @ [ScoreChange 0, LivesChange 3, LevelChange 1, PowerUpChange []]"
  by (simp add: reset_def fire_def POWERUP_SPAWN_RATE_def)

text \<open>
  C10. \<open>createPlayerProjectile\<close> appends one projectile when \<open>multiShot\<close> is not a key
  of the player's power-up map and three when it is: the straight shot from the
  player's nose, then one 15 to its left with horizontal velocity -50 and one 15 to
  its right with horizontal velocity 50; all of size 4 by 12, upward velocity 400,
  damage 25 and owner \<open>player\<close>.
\<close>

theorem createPlayerProjectile_shots:
  "projectiles (createPlayerProjectile s) =
     projectiles s @
       (let px = vec_x (position (player s));
            py = vec_y (position (player s)) - vec_y (obj_size (player s)) / 2;
            shot = (\<lambda>dx vx.
              \<lparr>position = \<lparr>vec_x = px + dx, vec_y = py\<rparr>,
               velocity = \<lparr>vec_x = vx, vec_y = - 400\<rparr>,
               obj_size = \<lparr>vec_x = 4, vec_y = 12\<rparr>,
               active = True, damage = 25, owner = OwnerPlayer\<rparr>)
        in if mapHas multiShot (p_powerUps (player s))
           then [shot 0 0, shot (- 15) (- 50), shot 15 50]
           else [shot 0 0])"
  by (simp add: createPlayerProjectile_def playerShot_def PROJECTILE_SPEED_def Let_def)

subsection \<open>Loops, and deactivation is terminal\<close>

lemma update_beforeCleanup: "update timestamp s = cleanup (beforeCleanup timestamp s)"
  by (simp add: update_def beforeCleanup_def beforeCollisions_def Let_def)

lemma update_beforeCollisions:
  "update timestamp s =
     cleanup (updateGameState (handleCollisions (beforeCollisions timestamp s)))"
  by (simp add: update_def beforeCollisions_def Let_def)

lemma forEach_rule:
  assumes "forEach body xs s = (ys, s')" and "I s"
    and step: "\<And>x t x' t'. I t \<Longrightarrow> body x t = (x', t') \<Longrightarrow> R x x' \<and> I t'"
  shows "list_all2 R xs ys \<and> I s'"
  using assms(1,2)
proof (induction xs arbitrary: s ys s')
  case Nil
  then show ?case by simp
next
  case (Cons x xs)
  obtain x1 s1 where b: "body x s = (x1, s1)" by (cases "body x s")
  obtain xs1 s2 where r: "forEach body xs s1 = (xs1, s2)" by (cases "forEach body xs s1")
  from Cons.prems b r have eq: "ys = x1 # xs1" "s' = s2" by simp_all
  from step [OF Cons.prems(2) b] have h: "R x x1" "I s1" by simp_all
  from Cons.IH [OF r h(2)] h(1) eq show ?case by simp
qed

lemma stays_refl [simp]: "stays xs xs"
  by (simp add: stays_def)

lemma stays_trans: "stays xs ys \<Longrightarrow> stays ys zs \<Longrightarrow> stays xs zs"
  by (auto simp: stays_def)

lemma stays_append [simp]: "stays xs (xs @ zs)"
  by (simp add: stays_def nth_append)

lemma stays_append2: "stays xs ys \<Longrightarrow> stays xs (ys @ zs)"
  by (auto simp: stays_def nth_append)

lemma stays_map: "(\<And>x. active (f x) \<Longrightarrow> active x) \<Longrightarrow> stays xs (map f xs)"
  by (simp add: stays_def)

lemma stays_list_all2: "list_all2 (\<lambda>x y. active y \<longrightarrow> active x) xs ys \<Longrightarrow> stays xs ys"
  by (auto simp: stays_def list_all2_conv_all_nth)

lemma entitiesStay_refl [simp]: "entitiesStay s s"
  by (simp add: entitiesStay_def)

lemma entitiesStay_trans: "entitiesStay s t \<Longrightarrow> entitiesStay t u \<Longrightarrow> entitiesStay s u"
  unfolding entitiesStay_def by (blast intro: stays_trans)

lemma createPlayerProjectile_fields [simp]:
  "canvasWidth (createPlayerProjectile s) = canvasWidth s"
  "canvasHeight (createPlayerProjectile s) = canvasHeight s"
  "callbackLog (createPlayerProjectile s) = callbackLog s"
  "score (createPlayerProjectile s) = score s"
  "lives (createPlayerProjectile s) = lives s"
  "input (createPlayerProjectile s) = input s"
  "player (createPlayerProjectile s) = player s"
  "enemies (createPlayerProjectile s) = enemies s"
  "powerUps (createPlayerProjectile s) = powerUps s"
  "particles (createPlayerProjectile s) = particles s"
  "randomSource (createPlayerProjectile s) = randomSource s"
  "randomCalls (createPlayerProjectile s) = randomCalls s"
  "gameSpeed (createPlayerProjectile s) = gameSpeed s"
  "frameCount (createPlayerProjectile s) = frameCount s"
  by (simp_all add: createPlayerProjectile_def Let_def)

lemma createPlayerProjectile_stays:
  "stays xs (projectiles s) \<Longrightarrow> stays xs (projectiles (createPlayerProjectile s))"
  by (simp add: createPlayerProjectile_def Let_def stays_append2)

lemma updatePlayer_fields [simp]:
  "canvasWidth (updatePlayer deltaTime s) = canvasWidth s"
  "canvasHeight (updatePlayer deltaTime s) = canvasHeight s"
  "score (updatePlayer deltaTime s) = score s"
  "lives (updatePlayer deltaTime s) = lives s"
  "input (updatePlayer deltaTime s) = input s"
  "enemies (updatePlayer deltaTime s) = enemies s"
  "powerUps (updatePlayer deltaTime s) = powerUps s"
  "particles (updatePlayer deltaTime s) = particles s"
  "randomSource (updatePlayer deltaTime s) = randomSource s"
  "randomCalls (updatePlayer deltaTime s) = randomCalls s"
  "gameSpeed (updatePlayer deltaTime s) = gameSpeed s"
  "frameCount (updatePlayer deltaTime s) = frameCount s"
  by (simp_all add: updatePlayer_def Let_def fire_def)

lemma updatePlayer_projectiles:
  "stays (projectiles s) (projectiles (updatePlayer deltaTime s))"
  by (auto simp: updatePlayer_def Let_def fire_def intro!: createPlayerProjectile_stays)

lemma updatePlayer_stay: "entitiesStay s (updatePlayer deltaTime s)"
  by (simp add: entitiesStay_def updatePlayer_projectiles)

lemma enemyStep_stay:
  assumes "enemyStep deltaTime e t = (e', t')"
  shows "(active e' \<longrightarrow> active e) \<and> enemies t' = enemies t \<and> stays (projectiles t) (projectiles t') \<and>
     powerUps t' = powerUps t \<and> particles t' = particles t"
  using assms
  by (auto simp: enemyStep_def Let_def random_def createEnemyProjectile_def
      split: if_splits prod.splits)

lemma updateEnemies_stay: "entitiesStay s (updateEnemies deltaTime s)"
proof -
  obtain es s1 where f: "forEach (enemyStep deltaTime) (enemies s) s = (es, s1)"
    by (cases "forEach (enemyStep deltaTime) (enemies s) s")
  have "list_all2 (\<lambda>x y. active y \<longrightarrow> active x) (enemies s) es \<and>
        (enemies s1 = enemies s \<and> stays (projectiles s) (projectiles s1) \<and>
         powerUps s1 = powerUps s \<and> particles s1 = particles s)"
    by (rule forEach_rule [OF f]) (auto dest!: enemyStep_stay intro: stays_trans)
  with f show ?thesis
    by (simp add: updateEnemies_def entitiesStay_def stays_list_all2)
qed

lemma updateProjectiles_stay: "entitiesStay s (updateProjectiles deltaTime s)"
  by (auto simp: updateProjectiles_def entitiesStay_def projectileStep_def Let_def intro!: stays_map split: if_splits)

lemma updatePowerUps_stay: "entitiesStay s (updatePowerUps deltaTime s)"
  by (auto simp: updatePowerUps_def entitiesStay_def powerUpStep_def Let_def intro!: stays_map split: if_splits)

lemma updateParticles_stay: "entitiesStay s (updateParticles deltaTime s)"
  by (auto simp: updateParticles_def entitiesStay_def particleStep_def Let_def intro!: stays_map split: if_splits)

lemma updateSpawning_stay: "entitiesStay s (updateSpawning deltaTime s)"
  by (simp add: updateSpawning_def entitiesStay_def spawnEnemy_def spawnPowerUp_def
      random_def Let_def)

lemma updateGameState_stay: "entitiesStay s (updateGameState s)"
  by (simp add: updateGameState_def entitiesStay_def fire_def Let_def)

lemma particlesOnly_refl [simp]: "particlesOnly s s"
  by (simp add: particlesOnly_def)

lemma particlesOnly_trans: "particlesOnly s t \<Longrightarrow> particlesOnly t u \<Longrightarrow> particlesOnly s u"
  by (auto simp: particlesOnly_def intro: stays_trans)

lemma damagePlayer_particlesOnly: "particlesOnly s (damagePlayer col n s)"
  by (simp add: particlesOnly_def damagePlayer_def createParticles_eq fire_def Let_def)

lemma hitEnemy_stay:
  assumes "hitEnemy e (p, t) = (e', (p', t'))"
  shows "(active e' \<longrightarrow> active e) \<and> (active p' \<longrightarrow> active p) \<and> particlesOnly t t'"
  using assms
  by (auto simp: hitEnemy_def Let_def createParticles_eq fire_def particlesOnly_def
      stays_append2 split: if_splits)

lemma projectileVsEnemies_stay:
  assumes "projectileVsEnemies p (es, t) = (p', (es', t'))"
  shows "(active p' \<longrightarrow> active p) \<and> stays es es' \<and> particlesOnly t t'"
proof (cases "\<not> active p \<or> owner p \<noteq> OwnerPlayer")
  case True
  with assms show ?thesis by (auto simp: projectileVsEnemies_def)
next
  case False
  obtain es1 p1 s1 where f: "forEach hitEnemy es (p, t) = (es1, (p1, s1))"
    by (cases "forEach hitEnemy es (p, t)") auto
  have "list_all2 (\<lambda>x y. active y \<longrightarrow> active x) es es1 \<and>
        (case (p1, s1) of (q, u) \<Rightarrow> (active q \<longrightarrow> active p) \<and> particlesOnly t u)"
    by (rule forEach_rule [OF f]) (auto dest!: hitEnemy_stay intro: particlesOnly_trans)
  with assms False f show ?thesis
    by (auto simp: projectileVsEnemies_def stays_list_all2)
qed

lemma pass1_stay: "entitiesStay s (pass1 s)"
proof -
  obtain ps es s1 where f:
    "forEach projectileVsEnemies (projectiles s) (enemies s, s) = (ps, (es, s1))"
    by (cases "forEach projectileVsEnemies (projectiles s) (enemies s, s)") auto
  let ?I = "\<lambda>esu. stays (enemies s) (fst esu) \<and> particlesOnly s (snd esu)"
  have "list_all2 (\<lambda>x y. active y \<longrightarrow> active x) (projectiles s) ps \<and> ?I (es, s1)"
  proof (rule forEach_rule [where I = ?I, OF f])
    show "?I (enemies s, s)" by simp
  next
    fix x t x' t'
    assume i: "?I t" and b: "projectileVsEnemies x t = (x', t')"
    from b have "projectileVsEnemies x (fst t, snd t) = (x', (fst t', snd t'))" by simp
    from projectileVsEnemies_stay [OF this] i
    show "(active x' \<longrightarrow> active x) \<and> ?I t'"
      by (blast intro: stays_trans particlesOnly_trans)
  qed
  with f show ?thesis
    by (simp add: pass1_def entitiesStay_def stays_list_all2 particlesOnly_def)
qed

lemma projectileVsPlayer_stay:
  "projectileVsPlayer p t = (p', t') \<Longrightarrow> (active p' \<longrightarrow> active p) \<and> particlesOnly t t'"
  by (auto simp: projectileVsPlayer_def damagePlayer_particlesOnly split: if_splits)

lemma playerVsEnemy_stay:
  "playerVsEnemy e t = (e', t') \<Longrightarrow> (active e' \<longrightarrow> active e) \<and> particlesOnly t t'"
  by (auto simp: playerVsEnemy_def damagePlayer_particlesOnly split: if_splits)

lemma playerVsPowerUp_stay:
  "playerVsPowerUp pu t = (pu', t') \<Longrightarrow> (active pu' \<longrightarrow> active pu) \<and> particlesOnly t t'"
  by (auto simp: playerVsPowerUp_def Let_def createParticles_eq particlesOnly_def stays_append2
      split: if_splits)

lemma pass2_stay: "entitiesStay s (pass2 s)"
proof -
  obtain xs s1 where f: "forEach projectileVsPlayer (projectiles s) s = (xs, s1)"
    by (cases "forEach projectileVsPlayer (projectiles s) s")
  have "list_all2 (\<lambda>x y. active y \<longrightarrow> active x) (projectiles s) xs \<and> particlesOnly s s1"
  proof (rule forEach_rule [where I = "particlesOnly s", OF f])
    show "particlesOnly s s" by simp
  next
    fix x t x' t'
    assume i: "particlesOnly s t" and b: "projectileVsPlayer x t = (x', t')"
    from projectileVsPlayer_stay [OF b] i
    show "(active x' \<longrightarrow> active x) \<and> particlesOnly s t'"
      by (blast intro: particlesOnly_trans)
  qed
  with f show ?thesis
    by (simp add: pass2_def entitiesStay_def stays_list_all2 particlesOnly_def)
qed

lemma pass3_stay: "entitiesStay s (pass3 s)"
proof -
  obtain xs s1 where f: "forEach playerVsEnemy (enemies s) s = (xs, s1)"
    by (cases "forEach playerVsEnemy (enemies s) s")
  have "list_all2 (\<lambda>x y. active y \<longrightarrow> active x) (enemies s) xs \<and> particlesOnly s s1"
  proof (rule forEach_rule [where I = "particlesOnly s", OF f])
    show "particlesOnly s s" by simp
  next
    fix x t x' t'
    assume i: "particlesOnly s t" and b: "playerVsEnemy x t = (x', t')"
    from playerVsEnemy_stay [OF b] i
    show "(active x' \<longrightarrow> active x) \<and> particlesOnly s t'"
      by (blast intro: particlesOnly_trans)
  qed
  with f show ?thesis
    by (simp add: pass3_def entitiesStay_def stays_list_all2 particlesOnly_def)
qed

lemma pass4_stay: "entitiesStay s (pass4 s)"
proof -
  obtain xs s1 where f: "forEach playerVsPowerUp (powerUps s) s = (xs, s1)"
    by (cases "forEach playerVsPowerUp (powerUps s) s")
  have "list_all2 (\<lambda>x y. active y \<longrightarrow> active x) (powerUps s) xs \<and> particlesOnly s s1"
  proof (rule forEach_rule [where I = "particlesOnly s", OF f])
    show "particlesOnly s s" by simp
  next
    fix x t x' t'
    assume i: "particlesOnly s t" and b: "playerVsPowerUp x t = (x', t')"
    from playerVsPowerUp_stay [OF b] i
    show "(active x' \<longrightarrow> active x) \<and> particlesOnly s t'"
      by (blast intro: particlesOnly_trans)
  qed
  with f show ?thesis
    by (simp add: pass4_def entitiesStay_def stays_list_all2 particlesOnly_def)
qed

lemmas stay_steps =
  entitiesStay_trans [OF _ pass1_stay] entitiesStay_trans [OF _ pass2_stay]
  entitiesStay_trans [OF _ pass3_stay] entitiesStay_trans [OF _ pass4_stay]
  entitiesStay_trans [OF _ updatePlayer_stay] entitiesStay_trans [OF _ updateEnemies_stay]
  entitiesStay_trans [OF _ updateProjectiles_stay] entitiesStay_trans [OF _ updatePowerUps_stay]
  entitiesStay_trans [OF _ updateParticles_stay] entitiesStay_trans [OF _ updateSpawning_stay]
  entitiesStay_trans [OF _ updateGameState_stay]

lemma handleCollisions_stay: "entitiesStay s (handleCollisions s)"
  unfolding handleCollisions_def by (intro stay_steps) simp

lemma beforeCleanup_stay: "entitiesStay s (beforeCleanup timestamp s)"
  unfolding beforeCleanup_def beforeCollisions_def Let_def handleCollisions_def
  by (intro stay_steps) (simp add: entitiesStay_def)

text \<open>
  C9. \<open>update\<close> is \<open>cleanup\<close> after all other phases. Up to \<open>cleanup\<close> no phase
  removes or reorders an entity of the four collections or sets an \<open>active\<close> flag from
  false to true (\<open>entitiesStay\<close>: the entity at an index is still there and, once
  inactive, stays inactive; new entities are appended). \<open>cleanup\<close> then keeps exactly
  the active entities, so after the tick every collection holds active entities only.
\<close>

theorem deactivation_is_terminal:
  "update timestamp s = cleanup (beforeCleanup timestamp s) \<and>
   entitiesStay s (beforeCleanup timestamp s) \<and>
   list_all active (enemies (update timestamp s)) \<and>
   list_all active (projectiles (update timestamp s)) \<and>
   list_all active (powerUps (update timestamp s)) \<and>
   list_all active (particles (update timestamp s)) \<and>
   enemies (update timestamp s) = filter active (enemies (beforeCleanup timestamp s)) \<and>
   projectiles (update timestamp s) = filter active (projectiles (beforeCleanup timestamp s)) \<and>
   powerUps (update timestamp s) = filter active (powerUps (beforeCleanup timestamp s)) \<and>
   particles (update timestamp s) = filter active (particles (beforeCleanup timestamp s))"
  by (simp add: update_beforeCleanup cleanup_def beforeCleanup_stay list_all_iff)

subsection \<open>What each phase leaves alone\<close>

lemma forEach_preserve:
  assumes "\<And>x t. g (snd (body x t)) = g t"
  shows "g (snd (forEach body xs s)) = g s"
  using assms by (induction xs arbitrary: s) (simp_all add: split_beta)

lemma enemyStep_fields [simp]:
  "canvasWidth (snd (enemyStep dt e t)) = canvasWidth t"
  "canvasHeight (snd (enemyStep dt e t)) = canvasHeight t"
  "callbackLog (snd (enemyStep dt e t)) = callbackLog t"
  "score (snd (enemyStep dt e t)) = score t"
  "lives (snd (enemyStep dt e t)) = lives t"
  "gameSpeed (snd (enemyStep dt e t)) = gameSpeed t"
  "frameCount (snd (enemyStep dt e t)) = frameCount t"
  "input (snd (enemyStep dt e t)) = input t"
  "player (snd (enemyStep dt e t)) = player t"
  "powerUps (snd (enemyStep dt e t)) = powerUps t"
  "particles (snd (enemyStep dt e t)) = particles t"
  "randomSource (snd (enemyStep dt e t)) = randomSource t"
  by (simp_all add: enemyStep_def Let_def random_def createEnemyProjectile_def split_beta)

lemma updateEnemies_fields [simp]:
  "canvasWidth (updateEnemies dt s) = canvasWidth s"
  "canvasHeight (updateEnemies dt s) = canvasHeight s"
  "callbackLog (updateEnemies dt s) = callbackLog s"
  "score (updateEnemies dt s) = score s"
  "lives (updateEnemies dt s) = lives s"
  "gameSpeed (updateEnemies dt s) = gameSpeed s"
  "frameCount (updateEnemies dt s) = frameCount s"
  "input (updateEnemies dt s) = input s"
  "player (updateEnemies dt s) = player s"
  "powerUps (updateEnemies dt s) = powerUps s"
  "particles (updateEnemies dt s) = particles s"
  "randomSource (updateEnemies dt s) = randomSource s"
  by (simp_all add: updateEnemies_def split_beta forEach_preserve)

lemma damagePlayer_fields [simp]:
  "canvasWidth (damagePlayer col n t) = canvasWidth t"
  "canvasHeight (damagePlayer col n t) = canvasHeight t"
  "score (damagePlayer col n t) = score t"
  "gameSpeed (damagePlayer col n t) = gameSpeed t"
  "frameCount (damagePlayer col n t) = frameCount t"
  "input (damagePlayer col n t) = input t"
  "player (damagePlayer col n t) = player t"
  "enemies (damagePlayer col n t) = enemies t"
  "projectiles (damagePlayer col n t) = projectiles t"
  "powerUps (damagePlayer col n t) = powerUps t"
  "randomSource (damagePlayer col n t) = randomSource t"
  by (simp_all add: damagePlayer_def Let_def createParticles_eq fire_def)

lemma hitEnemy_fields [simp]:
  "canvasWidth (snd (snd (hitEnemy e pt))) = canvasWidth (snd pt)"
  "canvasHeight (snd (snd (hitEnemy e pt))) = canvasHeight (snd pt)"
  "lives (snd (snd (hitEnemy e pt))) = lives (snd pt)"
  "gameSpeed (snd (snd (hitEnemy e pt))) = gameSpeed (snd pt)"
  "frameCount (snd (snd (hitEnemy e pt))) = frameCount (snd pt)"
  "input (snd (snd (hitEnemy e pt))) = input (snd pt)"
  "player (snd (snd (hitEnemy e pt))) = player (snd pt)"
  "enemies (snd (snd (hitEnemy e pt))) = enemies (snd pt)"
  "projectiles (snd (snd (hitEnemy e pt))) = projectiles (snd pt)"
  "powerUps (snd (snd (hitEnemy e pt))) = powerUps (snd pt)"
  "randomSource (snd (snd (hitEnemy e pt))) = randomSource (snd pt)"
  by (simp_all add: hitEnemy_def Let_def createParticles_eq fire_def)

lemma projectileVsEnemies_fields [simp]:
  "canvasWidth (snd (snd (projectileVsEnemies p et))) = canvasWidth (snd et)"
  "canvasHeight (snd (snd (projectileVsEnemies p et))) = canvasHeight (snd et)"
  "lives (snd (snd (projectileVsEnemies p et))) = lives (snd et)"
  "gameSpeed (snd (snd (projectileVsEnemies p et))) = gameSpeed (snd et)"
  "frameCount (snd (snd (projectileVsEnemies p et))) = frameCount (snd et)"
  "input (snd (snd (projectileVsEnemies p et))) = input (snd et)"
  "player (snd (snd (projectileVsEnemies p et))) = player (snd et)"
  "powerUps (snd (snd (projectileVsEnemies p et))) = powerUps (snd et)"
  "randomSource (snd (snd (projectileVsEnemies p et))) = randomSource (snd et)"
  by (simp_all add: projectileVsEnemies_def split_beta
      forEach_preserve [where g = "\<lambda>pt. canvasWidth (snd pt)"]
      forEach_preserve [where g = "\<lambda>pt. canvasHeight (snd pt)"]
      forEach_preserve [where g = "\<lambda>pt. lives (snd pt)"]
      forEach_preserve [where g = "\<lambda>pt. gameSpeed (snd pt)"]
      forEach_preserve [where g = "\<lambda>pt. frameCount (snd pt)"]
      forEach_preserve [where g = "\<lambda>pt. input (snd pt)"]
      forEach_preserve [where g = "\<lambda>pt. player (snd pt)"]
      forEach_preserve [where g = "\<lambda>pt. powerUps (snd pt)"]
      forEach_preserve [where g = "\<lambda>pt. randomSource (snd pt)"])

lemma pass1_fields [simp]:
  "canvasWidth (pass1 s) = canvasWidth s"
  "canvasHeight (pass1 s) = canvasHeight s"
  "lives (pass1 s) = lives s"
  "gameSpeed (pass1 s) = gameSpeed s"
  "frameCount (pass1 s) = frameCount s"
  "input (pass1 s) = input s"
  "player (pass1 s) = player s"
  "powerUps (pass1 s) = powerUps s"
  "randomSource (pass1 s) = randomSource s"
  by (simp_all add: pass1_def split_beta
      forEach_preserve [where g = "\<lambda>pt. canvasWidth (snd pt)"]
      forEach_preserve [where g = "\<lambda>pt. canvasHeight (snd pt)"]
      forEach_preserve [where g = "\<lambda>pt. lives (snd pt)"]
      forEach_preserve [where g = "\<lambda>pt. gameSpeed (snd pt)"]
      forEach_preserve [where g = "\<lambda>pt. frameCount (snd pt)"]
      forEach_preserve [where g = "\<lambda>pt. input (snd pt)"]
      forEach_preserve [where g = "\<lambda>pt. player (snd pt)"]
      forEach_preserve [where g = "\<lambda>pt. powerUps (snd pt)"]
      forEach_preserve [where g = "\<lambda>pt. randomSource (snd pt)"])

lemma projectileVsPlayer_fields [simp]:
  "canvasWidth (snd (projectileVsPlayer p t)) = canvasWidth t"
  "canvasHeight (snd (projectileVsPlayer p t)) = canvasHeight t"
  "score (snd (projectileVsPlayer p t)) = score t"
  "gameSpeed (snd (projectileVsPlayer p t)) = gameSpeed t"
  "frameCount (snd (projectileVsPlayer p t)) = frameCount t"
  "input (snd (projectileVsPlayer p t)) = input t"
  "player (snd (projectileVsPlayer p t)) = player t"
  "enemies (snd (projectileVsPlayer p t)) = enemies t"
  "powerUps (snd (projectileVsPlayer p t)) = powerUps t"
  "randomSource (snd (projectileVsPlayer p t)) = randomSource t"
  by (simp_all add: projectileVsPlayer_def)

lemma pass2_fields [simp]:
  "canvasWidth (pass2 s) = canvasWidth s"
  "canvasHeight (pass2 s) = canvasHeight s"
  "score (pass2 s) = score s"
  "gameSpeed (pass2 s) = gameSpeed s"
  "frameCount (pass2 s) = frameCount s"
  "input (pass2 s) = input s"
  "player (pass2 s) = player s"
  "enemies (pass2 s) = enemies s"
  "powerUps (pass2 s) = powerUps s"
  "randomSource (pass2 s) = randomSource s"
  by (simp_all add: pass2_def split_beta forEach_preserve)

lemma playerVsEnemy_fields [simp]:
  "canvasWidth (snd (playerVsEnemy e t)) = canvasWidth t"
  "canvasHeight (snd (playerVsEnemy e t)) = canvasHeight t"
  "score (snd (playerVsEnemy e t)) = score t"
  "gameSpeed (snd (playerVsEnemy e t)) = gameSpeed t"
  "frameCount (snd (playerVsEnemy e t)) = frameCount t"
  "input (snd (playerVsEnemy e t)) = input t"
  "player (snd (playerVsEnemy e t)) = player t"
  "projectiles (snd (playerVsEnemy e t)) = projectiles t"
  "powerUps (snd (playerVsEnemy e t)) = powerUps t"
  "randomSource (snd (playerVsEnemy e t)) = randomSource t"
  by (simp_all add: playerVsEnemy_def)

lemma pass3_fields [simp]:
  "canvasWidth (pass3 s) = canvasWidth s"
  "canvasHeight (pass3 s) = canvasHeight s"
  "score (pass3 s) = score s"
  "gameSpeed (pass3 s) = gameSpeed s"
  "frameCount (pass3 s) = frameCount s"
  "input (pass3 s) = input s"
  "player (pass3 s) = player s"
  "projectiles (pass3 s) = projectiles s"
  "powerUps (pass3 s) = powerUps s"
  "randomSource (pass3 s) = randomSource s"
  by (simp_all add: pass3_def split_beta forEach_preserve)

lemma playerVsPowerUp_fields [simp]:
  "canvasWidth (snd (playerVsPowerUp pu t)) = canvasWidth t"
  "canvasHeight (snd (playerVsPowerUp pu t)) = canvasHeight t"
  "callbackLog (snd (playerVsPowerUp pu t)) = callbackLog t"
  "score (snd (playerVsPowerUp pu t)) = score t"
  "lives (snd (playerVsPowerUp pu t)) = lives t"
  "gameSpeed (snd (playerVsPowerUp pu t)) = gameSpeed t"
  "frameCount (snd (playerVsPowerUp pu t)) = frameCount t"
  "input (snd (playerVsPowerUp pu t)) = input t"
  "enemies (snd (playerVsPowerUp pu t)) = enemies t"
  "projectiles (snd (playerVsPowerUp pu t)) = projectiles t"
  "randomSource (snd (playerVsPowerUp pu t)) = randomSource t"
  by (simp_all add: playerVsPowerUp_def Let_def createParticles_eq)

lemma pass4_fields [simp]:
  "canvasWidth (pass4 s) = canvasWidth s"
  "canvasHeight (pass4 s) = canvasHeight s"
  "callbackLog (pass4 s) = callbackLog s"
  "score (pass4 s) = score s"
  "lives (pass4 s) = lives s"
  "gameSpeed (pass4 s) = gameSpeed s"
  "frameCount (pass4 s) = frameCount s"
  "input (pass4 s) = input s"
  "enemies (pass4 s) = enemies s"
  "projectiles (pass4 s) = projectiles s"
  "randomSource (pass4 s) = randomSource s"
  by (simp_all add: pass4_def split_beta forEach_preserve)

subsection \<open>Lives and game over\<close>

lemma hitEvents_add: "hitEvents l (j + k) = hitEvents l j @ hitEvents (l - real j) k"
proof (induction j arbitrary: l)
  case 0
  show ?case by simp
next
  case (Suc j)
  then show ?case by (simp add: diff_diff_eq)
qed

lemma hitEvents_no_gameOver: "0 < l - real k \<Longrightarrow> GameOver \<notin> set (hitEvents l k)"
proof (induction k arbitrary: l)
  case 0
  show ?case by simp
next
  case (Suc k)
  from Suc.prems have "0 < l - 1 - real k" by simp
  with Suc.IH [of "l - 1"] show ?case by auto
qed

lemma hitEvents_gameOver: "l - real k \<le> 0 \<Longrightarrow> 0 < l \<Longrightarrow> GameOver \<in> set (hitEvents l k)"
proof (induction k arbitrary: l)
  case 0
  then show ?case by simp
next
  case (Suc k)
  show ?case
  proof (cases "l - 1 \<le> 0")
    case True
    then show ?thesis by simp
  next
    case False
    with Suc.prems Suc.IH [of "l - 1"] show ?thesis by simp
  qed
qed

lemma lifeTrace_refl [simp]: "lifeTrace s s"
  unfolding lifeTrace_def by (rule exI [of _ "[]"], rule exI [of _ 0]) simp

lemma lifeTrace_trans:
  assumes "lifeTrace s t" and "lifeTrace t u"
  shows "lifeTrace s u"
proof -
  from assms(1) obtain n1 k1 where a: "callbackLog t = callbackLog s @ n1"
    "lives t = lives s - real k1" "filter lifeEvent n1 = hitEvents (lives s) k1"
    unfolding lifeTrace_def by blast
  from assms(2) obtain n2 k2 where b: "callbackLog u = callbackLog t @ n2"
    "lives u = lives t - real k2" "filter lifeEvent n2 = hitEvents (lives t) k2"
    unfolding lifeTrace_def by blast
  have "callbackLog u = callbackLog s @ (n1 @ n2)" using a b by simp
  moreover have "lives u = lives s - real (k1 + k2)" using a b by simp
  moreover have "filter lifeEvent (n1 @ n2) = hitEvents (lives s) (k1 + k2)"
    using a b by (simp add: hitEvents_add)
  ultimately show ?thesis unfolding lifeTrace_def by blast
qed

text \<open>A step that fires only other events and leaves \<open>lives\<close> alone.\<close>

lemma lifeTrace_quiet:
  assumes "callbackLog s' = callbackLog s @ new" and "lives s' = lives s"
    and "filter lifeEvent new = []"
  shows "lifeTrace s s'"
  unfolding lifeTrace_def using assms
  by (intro exI [of _ new] exI [of _ 0]) simp

lemma damagePlayer_lifeTrace: "lifeTrace s (damagePlayer col n s)"
proof (cases "mapHas shield (p_powerUps (player s))")
  case True
  then show ?thesis by (simp add: damagePlayer_def)
next
  case False
  let ?new = "LivesChange (lives s - 1) # (if lives s - 1 \<le> 0 then [GameOver] else [])"
  have "callbackLog (damagePlayer col n s) = callbackLog s @ ?new"
    using False by (simp add: damagePlayer_def Let_def createParticles_eq fire_def)
  moreover have "lives (damagePlayer col n s) = lives s - real 1"
    using False by (simp add: damagePlayer_def Let_def createParticles_eq fire_def)
  moreover have "filter lifeEvent ?new = hitEvents (lives s) 1" by simp
  ultimately show ?thesis unfolding lifeTrace_def by blast
qed

lemma forEach_state:
  assumes refl: "\<And>t. Q t t" and trans: "\<And>t u v. Q t u \<Longrightarrow> Q u v \<Longrightarrow> Q t v"
    and step: "\<And>x t. Q t (snd (body x t))"
  shows "Q s (snd (forEach body xs s))"
proof (induction xs arbitrary: s)
  case Nil
  show ?case by (simp add: refl)
next
  case (Cons x xs)
  have "Q s (snd (body x s))" by (rule step)
  moreover have "Q (snd (body x s)) (snd (forEach body xs (snd (body x s))))" by (rule Cons.IH)
  ultimately show ?case by (simp add: split_beta) (rule trans)
qed

lemma pass2_lifeTrace: "lifeTrace s (pass2 s)"
proof -
  have "lifeTrace s (snd (forEach projectileVsPlayer (projectiles s) s))"
    by (rule forEach_state [where Q = lifeTrace])
      (auto intro: lifeTrace_trans simp: projectileVsPlayer_def damagePlayer_lifeTrace)
  then show ?thesis
    by (simp add: pass2_def split_beta lifeTrace_def)
qed

lemma pass3_lifeTrace: "lifeTrace s (pass3 s)"
proof -
  have "lifeTrace s (snd (forEach playerVsEnemy (enemies s) s))"
    by (rule forEach_state [where Q = lifeTrace])
      (auto intro: lifeTrace_trans simp: playerVsEnemy_def damagePlayer_lifeTrace)
  then show ?thesis
    by (simp add: pass3_def split_beta lifeTrace_def)
qed

lemma hitEnemy_lifeTrace: "lifeTrace (snd pt) (snd (snd (hitEnemy e pt)))"
proof -
  have "\<exists>new. callbackLog (snd (snd (hitEnemy e pt))) = callbackLog (snd pt) @ new \<and>
          filter lifeEvent new = []"
    by (simp add: hitEnemy_def Let_def createParticles_eq fire_def)
  then show ?thesis
    by (auto intro: lifeTrace_quiet)
qed

lemma projectileVsEnemies_lifeTrace:
  "lifeTrace (snd et) (snd (snd (projectileVsEnemies p et)))"
proof -
  have "lifeTrace (snd (p, snd et)) (snd (snd (forEach hitEnemy (fst et) (p, snd et))))"
    by (rule forEach_state [where Q = "\<lambda>a b. lifeTrace (snd a) (snd b)"])
      (auto intro: lifeTrace_trans hitEnemy_lifeTrace)
  then show ?thesis
    by (simp add: projectileVsEnemies_def split_beta)
qed

lemma pass1_lifeTrace: "lifeTrace s (pass1 s)"
proof -
  have "lifeTrace (snd (enemies s, s))
          (snd (snd (forEach projectileVsEnemies (projectiles s) (enemies s, s))))"
    by (rule forEach_state [where Q = "\<lambda>a b. lifeTrace (snd a) (snd b)"])
      (auto intro: lifeTrace_trans projectileVsEnemies_lifeTrace)
  then show ?thesis
    by (simp add: pass1_def split_beta lifeTrace_def)
qed

lemma pass4_lifeTrace: "lifeTrace s (pass4 s)"
  by (rule lifeTrace_quiet [where new = "[]"]) simp_all

lemma updatePlayer_callbackLog:
  "callbackLog (updatePlayer deltaTime s) =
     callbackLog s @
       [PowerUpChange (map (\<lambda>kv. (fst kv, snd kv / 1000))
          (p_powerUps (player (updatePlayer deltaTime s))))]"
  by (simp add: updatePlayer_def Let_def fire_def)

lemma updatePlayer_lifeTrace: "lifeTrace s (updatePlayer deltaTime s)"
  by (rule lifeTrace_quiet [OF updatePlayer_callbackLog]) simp_all

lemma updateEnemies_lifeTrace: "lifeTrace s (updateEnemies deltaTime s)"
  by (rule lifeTrace_quiet [where new = "[]"]) simp_all

lemma updateProjectiles_lifeTrace: "lifeTrace s (updateProjectiles deltaTime s)"
  by (rule lifeTrace_quiet [where new = "[]"]) (simp_all add: updateProjectiles_def)

lemma updatePowerUps_lifeTrace: "lifeTrace s (updatePowerUps deltaTime s)"
  by (rule lifeTrace_quiet [where new = "[]"]) (simp_all add: updatePowerUps_def)

lemma updateParticles_lifeTrace: "lifeTrace s (updateParticles deltaTime s)"
  by (rule lifeTrace_quiet [where new = "[]"]) (simp_all add: updateParticles_def)

lemma updateSpawning_lifeTrace: "lifeTrace s (updateSpawning deltaTime s)"
  by (rule lifeTrace_quiet [where new = "[]"])
    (simp_all add: updateSpawning_def spawnEnemy_def spawnPowerUp_def random_def Let_def)

lemma updateGameState_lifeTrace: "lifeTrace s (updateGameState s)"
proof (cases "real_of_int \<lfloor>score s / 1000\<rfloor> + 1 \<noteq> level s")
  case True
  show ?thesis
    by (rule lifeTrace_quiet [where new = "[LevelChange (real_of_int \<lfloor>score s / 1000\<rfloor> + 1)]"])
      (use True in \<open>simp_all add: updateGameState_def Let_def fire_def\<close>)
next
  case False
  show ?thesis
    by (rule lifeTrace_quiet [where new = "[]"])
      (use False in \<open>simp_all add: updateGameState_def Let_def fire_def\<close>)
qed

lemma cleanup_lifeTrace: "lifeTrace s (cleanup s)"
  by (rule lifeTrace_quiet [where new = "[]"]) (simp_all add: cleanup_def)

lemmas lifeTrace_steps =
  lifeTrace_trans [OF _ pass1_lifeTrace] lifeTrace_trans [OF _ pass2_lifeTrace]
  lifeTrace_trans [OF _ pass3_lifeTrace] lifeTrace_trans [OF _ pass4_lifeTrace]
  lifeTrace_trans [OF _ updatePlayer_lifeTrace] lifeTrace_trans [OF _ updateEnemies_lifeTrace]
  lifeTrace_trans [OF _ updateProjectiles_lifeTrace]
  lifeTrace_trans [OF _ updatePowerUps_lifeTrace]
  lifeTrace_trans [OF _ updateParticles_lifeTrace]
  lifeTrace_trans [OF _ updateSpawning_lifeTrace]
  lifeTrace_trans [OF _ updateGameState_lifeTrace] lifeTrace_trans [OF _ cleanup_lifeTrace]

lemma update_lifeTrace: "lifeTrace s (update timestamp s)"
  unfolding update_def Let_def handleCollisions_def
  by (intro lifeTrace_steps) (rule lifeTrace_quiet [where new = "[]"], simp_all)

text \<open>
  C1, as the code has it. The engine keeps no record that game-over was fired. In one
  tick starting with \<open>lives = l\<close>, the lives and game-over callbacks fired are those of
  \<open>hitEvents l k\<close> for the number \<open>k\<close> of unshielded hits of the tick: each hit fires
  \<open>LivesChange\<close> with the decremented value and then \<open>GameOver\<close> when that value is at
  most 0. So game-over is not fired in a tick that ends with \<open>lives > 0\<close>, it is fired
  in the tick in which \<open>lives\<close> goes from above 0 to at most 0, and it is fired again
  by every further unshielded hit.
\<close>

theorem gameOver_on_each_lethal_hit:
  "\<exists>new k. callbackLog (update timestamp s) = callbackLog s @ new \<and>
     lives (update timestamp s) = lives s - real k \<and>
     filter lifeEvent new = hitEvents (lives s) k \<and>
     (0 < lives (update timestamp s) \<longrightarrow> GameOver \<notin> set new) \<and>
     (0 < lives s \<and> lives (update timestamp s) \<le> 0 \<longrightarrow> GameOver \<in> set new)"
proof -
  from update_lifeTrace [of s timestamp] obtain new k where
    t: "callbackLog (update timestamp s) = callbackLog s @ new"
       "lives (update timestamp s) = lives s - real k"
       "filter lifeEvent new = hitEvents (lives s) k"
    unfolding lifeTrace_def by blast
  have a: "GameOver \<notin> set new" if "0 < lives (update timestamp s)"
  proof -
    from that t(2) have "GameOver \<notin> set (hitEvents (lives s) k)"
      by (simp add: hitEvents_no_gameOver)
    with t(3) [symmetric] show ?thesis by simp
  qed
  have b: "GameOver \<in> set new" if "0 < lives s" "lives (update timestamp s) \<le> 0"
  proof -
    from that t(2) have "GameOver \<in> set (hitEvents (lives s) k)"
      by (simp add: hitEvents_gameOver)
    with t(3) [symmetric] show ?thesis by simp
  qed
  from t a b show ?thesis by blast
qed

subsection \<open>Score\<close>

lemma destroyed_same [simp]: "\<not> destroyed e e"
  by (auto simp: destroyed_def)

lemma tally_Nil [simp]: "tally c [] es' = 0" "tally c es [] = 0"
  by (simp_all add: tally_def)

lemma tally_Cons [simp]:
  "tally c (e # es) (e' # es') = (if destroyed e e' then c e else 0) + tally c es es'"
  by (simp add: tally_def)

lemma evolves_refl: "enemyOk e \<Longrightarrow> evolves e e"
  by (simp add: evolves_def)

lemma evolves_trans: "evolves e e1 \<Longrightarrow> evolves e1 e2 \<Longrightarrow> evolves e e2"
  by (auto simp: evolves_def)

lemma evolves_telescope:
  assumes "evolves e e1" and "evolves e1 e2" and "c e1 = c e"
  shows "(if destroyed e e1 then c e else (0::'a::comm_monoid_add)) +
         (if destroyed e1 e2 then c e1 else 0) = (if destroyed e e2 then c e else 0)"
proof (cases "active e")
  case False
  with assms have "e1 = e" "e2 = e" by (auto simp: evolves_def)
  then show ?thesis by simp
next
  case True
  with assms have h: "0 < e_health e" by (simp add: evolves_def enemyOk_def)
  show ?thesis
  proof (cases "e_health e1 \<le> 0")
    case True
    with assms have "\<not> active e1" by (auto simp: evolves_def enemyOk_def)
    with assms have "e2 = e1" by (simp add: evolves_def)
    with True h show ?thesis by (simp add: destroyed_def)
  next
    case False
    with h assms(3) show ?thesis by (auto simp: destroyed_def)
  qed
qed

lemma tally_telescope:
  assumes "list_all2 evolves es es1" and "list_all2 evolves es1 es2"
    and same: "\<And>e e'. evolves e e' \<Longrightarrow> c e' = c e"
  shows "tally c es es1 + tally c es1 es2 = tally c es es2"
  using assms(1,2)
proof (induction es es1 arbitrary: es2 rule: list_all2_induct)
  case Nil
  then show ?case by simp
next
  case (Cons e es e1 es1)
  from Cons.prems obtain e2 es2' where eq: "es2 = e2 # es2'" and
    h: "evolves e1 e2" "list_all2 evolves es1 es2'"
    by (auto simp: list_all2_Cons1)
  let ?a = "if destroyed e e1 then c e else 0"
  let ?b = "if destroyed e1 e2 then c e1 else 0"
  have a: "?a + ?b = (if destroyed e e2 then c e else 0)"
    by (rule evolves_telescope [OF Cons.hyps(1) h(1) same [OF Cons.hyps(1)]])
  have t: "tally c es es1 + tally c es1 es2' = tally c es es2'" by (rule Cons.IH [OF h(2)])
  have "(?a + tally c es es1) + (?b + tally c es1 es2') =
        (?a + ?b) + (tally c es es1 + tally c es1 es2')"
    by (simp only: ac_simps)
  with a t eq show ?case by simp
qed

lemma list_all2_evolves_refl: "list_all enemyOk es \<Longrightarrow> list_all2 evolves es es"
  by (induction es) (simp_all add: evolves_refl)

lemma list_all2_evolves_trans:
  "list_all2 evolves es es1 \<Longrightarrow> list_all2 evolves es1 es2 \<Longrightarrow> list_all2 evolves es es2"
  by (rule list_all2_trans [of evolves evolves evolves]) (auto intro: evolves_trans)

lemma list_all2_evolves_ok: "list_all2 evolves es es1 \<Longrightarrow> list_all enemyOk es1"
  by (induction es es1 rule: list_all2_induct) (simp_all add: evolves_def)

lemma scoreValues_append: "scoreValues (xs @ ys) = scoreValues xs @ scoreValues ys"
  by (induction xs rule: scoreValues.induct) simp_all

lemma scored_refl [simp]: "scored 0 t t"
  unfolding scored_def by (rule exI [of _ "[]"]) simp

lemma scored_trans:
  assumes "scored n t u" and "scored m u v"
  shows "scored (n + m) t v"
proof -
  let ?P = "\<lambda>a b::real. b - a \<in> {100, 150, 200}"
  from assms(1) obtain n1 where a: "callbackLog u = callbackLog t @ n1"
    "length (scoreValues n1) = n" "last (score t # scoreValues n1) = score u"
    "successively ?P (score t # scoreValues n1)"
    unfolding scored_def by blast
  from assms(2) obtain n2 where b: "callbackLog v = callbackLog u @ n2"
    "length (scoreValues n2) = m" "last (score u # scoreValues n2) = score v"
    "successively ?P (score u # scoreValues n2)"
    unfolding scored_def by blast
  have l: "last (score t # scoreValues (n1 @ n2)) = score v"
    using a(3) b(3) by (cases "scoreValues n2 = []") (simp_all add: scoreValues_append)
  have "successively ?P ((score t # scoreValues n1) @ scoreValues n2)"
    unfolding successively_append_iff using a(3,4) b(4)
    by (cases "scoreValues n2") simp_all
  then have s: "successively ?P (score t # scoreValues (n1 @ n2))"
    by (simp add: scoreValues_append)
  from a b l s show ?thesis
    unfolding scored_def by (intro exI [of _ "n1 @ n2"]) (simp add: scoreValues_append)
qed

lemma scored_quiet:
  assumes "callbackLog t' = callbackLog t @ new" and "scoreValues new = []"
    and "score t' = score t"
  shows "scored 0 t t'"
  unfolding scored_def using assms by (intro exI [of _ new]) simp

lemma tally_same [simp]: "tally c es es = 0"
  by (induction es) simp_all

lemma pointValue_cases: "pointValue k \<in> {100, 150, 200}"
  by (cases k) simp_all

lemma hitEnemy_effect:
  assumes "hitEnemy e (p, t) = (e', (p', t'))" and "enemyOk e"
  shows "evolves e e' \<and>
         score t' = score t + (if destroyed e e' then pv e else 0) \<and>
         scored (if destroyed e e' then 1 else 0) t t'"
proof (cases "active e \<and> checkCollision p e")
  case False
  with assms have "e' = e" "t' = t" by (auto simp: hitEnemy_def split: if_splits)
  with assms(2) show ?thesis by (simp add: evolves_refl)
next
  case hit: True
  with assms(2) have pos: "0 < e_health e" by (simp add: enemyOk_def)
  show ?thesis
  proof (cases "e_health e - damage p \<le> 0")
    case True
    with hit assms(1) have e': "e' = e\<lparr>e_health := e_health e - damage p, active := False\<rparr>"
      and sc: "score t' = score t + points e"
      and lg: "callbackLog t' = callbackLog t @ [ScoreChange (score t + points e)]"
      by (auto simp: hitEnemy_def Let_def createParticles_eq fire_def)
    from e' True pos have d: "destroyed e e'" by (simp add: destroyed_def)
    from assms(2) have pts: "points e = pv e" by (simp add: enemyOk_def)
    have "evolves e e'" using assms(2) e' hit by (simp add: evolves_def enemyOk_def)
    moreover have "scored 1 t t'"
      unfolding scored_def using lg sc pts pointValue_cases [of "e_type e"]
      by (intro exI [of _ "[ScoreChange (score t + points e)]"]) simp
    ultimately show ?thesis using d sc pts by simp
  next
    case False
    with hit assms(1) have e': "e' = e\<lparr>e_health := e_health e - damage p\<rparr>"
      and sc: "score t' = score t" and lg: "callbackLog t' = callbackLog t"
      by (auto simp: hitEnemy_def Let_def createParticles_eq fire_def)
    from e' False have d: "\<not> destroyed e e'" by (simp add: destroyed_def)
    have "evolves e e'" using assms(2) e' hit False by (simp add: evolves_def enemyOk_def)
    moreover have "scored 0 t t'" by (rule scored_quiet [where new = "[]"]) (simp_all add: lg sc)
    ultimately show ?thesis using d sc by simp
  qed
qed

lemma hitEnemies_effect:
  assumes "forEach hitEnemy es (p, t) = (es', (p', t'))" and "list_all enemyOk es"
  shows "list_all2 evolves es es' \<and> score t' = score t + tally pv es es' \<and>
         scored (tally one es es') t t'"
  using assms
proof (induction es arbitrary: p t es' p' t')
  case Nil
  then show ?case by simp
next
  case (Cons e es)
  obtain e1 p1 t1 where b: "hitEnemy e (p, t) = (e1, (p1, t1))"
    by (cases "hitEnemy e (p, t)") auto
  obtain es1 p2 t2 where r: "forEach hitEnemy es (p1, t1) = (es1, (p2, t2))"
    by (cases "forEach hitEnemy es (p1, t1)") auto
  from Cons.prems(1) b r have eq: "es' = e1 # es1" "t' = t2" by simp_all
  from Cons.prems(2) have ok: "enemyOk e" "list_all enemyOk es" by simp_all
  note h = hitEnemy_effect [OF b ok(1)]
  note ih = Cons.IH [OF r ok(2)]
  have "scored ((if destroyed e e1 then 1 else 0) + tally one es es1) t t2"
    using h ih by (blast intro: scored_trans)
  with h ih eq show ?case by (cases "destroyed e e1") simp_all
qed

lemma projectileVsEnemies_effect:
  assumes "projectileVsEnemies p (es, t) = (p', (es', t'))" and "list_all enemyOk es"
  shows "list_all2 evolves es es' \<and> score t' = score t + tally pv es es' \<and>
         scored (tally one es es') t t'"
proof (cases "\<not> active p \<or> owner p \<noteq> OwnerPlayer")
  case True
  with assms(1) have "es' = es" "t' = t" by (auto simp: projectileVsEnemies_def)
  with assms(2) show ?thesis by (simp add: list_all2_evolves_refl)
next
  case False
  obtain es1 p1 t1 where f: "forEach hitEnemy es (p, t) = (es1, (p1, t1))"
    by (cases "forEach hitEnemy es (p, t)") auto
  with assms(1) False have "es' = es1" "t' = t1" by (auto simp: projectileVsEnemies_def)
  with hitEnemies_effect [OF f assms(2)] show ?thesis by simp
qed

lemma evolves_pv: "evolves e e' \<Longrightarrow> pv e' = pv e"
  by (simp add: evolves_def)

lemma projectilesVsEnemies_effect:
  assumes "forEach projectileVsEnemies ps (es, t) = (ps', (es', t'))" and "list_all enemyOk es"
  shows "list_all2 evolves es es' \<and> score t' = score t + tally pv es es' \<and>
         scored (tally one es es') t t'"
  using assms
proof (induction ps arbitrary: es t ps' es' t')
  case Nil
  then show ?case by (simp add: list_all2_evolves_refl)
next
  case (Cons p ps)
  obtain p1 es1 t1 where b: "projectileVsEnemies p (es, t) = (p1, (es1, t1))"
    by (cases "projectileVsEnemies p (es, t)") auto
  obtain ps1 es2 t2 where r: "forEach projectileVsEnemies ps (es1, t1) = (ps1, (es2, t2))"
    by (cases "forEach projectileVsEnemies ps (es1, t1)") auto
  from Cons.prems(1) b r have eq: "es' = es2" "t' = t2" by simp_all
  note h = projectileVsEnemies_effect [OF b Cons.prems(2)]
  from h have ok1: "list_all enemyOk es1" by (blast intro: list_all2_evolves_ok)
  note ih = Cons.IH [OF r ok1]
  have e: "list_all2 evolves es es2" using h ih by (blast intro: list_all2_evolves_trans)
  have t1: "tally pv es es1 + tally pv es1 es2 = tally pv es es2"
    using h ih by (intro tally_telescope) (simp_all add: evolves_pv)
  have t2: "tally one es es1 + tally one es1 es2 = tally one es es2"
    using h ih by (intro tally_telescope) simp_all
  have "scored (tally one es es1 + tally one es1 es2) t t2"
    using h ih by (blast intro: scored_trans)
  with t2 have s: "scored (tally one es es2) t t2" by simp
  have "score t2 = score t + (tally pv es es1 + tally pv es1 es2)" using h ih by simp
  with t1 have "score t2 = score t + tally pv es es2" by simp
  with e s eq show ?case by simp
qed

lemma scored_cong:
  "scored n t t' \<Longrightarrow> callbackLog u = callbackLog t \<Longrightarrow> score u = score t \<Longrightarrow>
   callbackLog u' = callbackLog t' \<Longrightarrow> score u' = score t' \<Longrightarrow> scored n u u'"
  by (simp add: scored_def)

lemma pass1_effect:
  assumes "list_all enemyOk (enemies s)"
  shows "list_all2 evolves (enemies s) (enemies (pass1 s)) \<and>
         score (pass1 s) = score s + tally pv (enemies s) (enemies (pass1 s)) \<and>
         scored (tally one (enemies s) (enemies (pass1 s))) s (pass1 s)"
proof -
  obtain ps es t where f:
    "forEach projectileVsEnemies (projectiles s) (enemies s, s) = (ps, (es, t))"
    by (cases "forEach projectileVsEnemies (projectiles s) (enemies s, s)") auto
  then have p: "pass1 s = t\<lparr>projectiles := ps, enemies := es\<rparr>" by (simp add: pass1_def)
  note h = projectilesVsEnemies_effect [OF f assms]
  have "scored (tally one (enemies s) es) s (pass1 s)"
    by (rule scored_cong [where t = s and t' = t]) (use h p in simp_all)
  with h p show ?thesis by simp
qed

text \<open>Steps that fire no score event and leave the score alone.\<close>

lemma scored0_trans: "scored 0 t u \<Longrightarrow> scored 0 u v \<Longrightarrow> scored 0 t v"
  using scored_trans [of 0 t u 0 v] by simp

lemma damagePlayer_scored: "scored 0 t (damagePlayer col n t)"
proof (cases "mapHas shield (p_powerUps (player t))")
  case True
  then show ?thesis by (simp add: damagePlayer_def)
next
  case False
  show ?thesis
    by (rule scored_quiet
        [where new = "LivesChange (lives t - 1) # (if lives t - 1 \<le> 0 then [GameOver] else [])"])
      (use False in \<open>simp_all add: damagePlayer_def Let_def createParticles_eq fire_def\<close>)
qed

lemma pass2_scored: "scored 0 s (pass2 s)"
proof -
  have "scored 0 s (snd (forEach projectileVsPlayer (projectiles s) s))"
    by (rule forEach_state [where Q = "scored 0"])
      (auto intro: scored0_trans simp: projectileVsPlayer_def damagePlayer_scored)
  then show ?thesis
    by (simp add: pass2_def split_beta scored_def)
qed

lemma pass3_scored: "scored 0 s (pass3 s)"
proof -
  have "scored 0 s (snd (forEach playerVsEnemy (enemies s) s))"
    by (rule forEach_state [where Q = "scored 0"])
      (auto intro: scored0_trans simp: playerVsEnemy_def damagePlayer_scored)
  then show ?thesis
    by (simp add: pass3_def split_beta scored_def)
qed

lemma pass4_scored: "scored 0 s (pass4 s)"
  by (rule scored_quiet [where new = "[]"]) simp_all

lemma updatePlayer_scored: "scored 0 s (updatePlayer deltaTime s)"
  by (rule scored_quiet [OF updatePlayer_callbackLog]) simp_all

lemma updateEnemies_scored: "scored 0 s (updateEnemies deltaTime s)"
  by (rule scored_quiet [where new = "[]"]) simp_all

lemma updateProjectiles_scored: "scored 0 s (updateProjectiles deltaTime s)"
  by (rule scored_quiet [where new = "[]"]) (simp_all add: updateProjectiles_def)

lemma updatePowerUps_scored: "scored 0 s (updatePowerUps deltaTime s)"
  by (rule scored_quiet [where new = "[]"]) (simp_all add: updatePowerUps_def)

lemma updateParticles_scored: "scored 0 s (updateParticles deltaTime s)"
  by (rule scored_quiet [where new = "[]"]) (simp_all add: updateParticles_def)

lemma updateSpawning_scored: "scored 0 s (updateSpawning deltaTime s)"
  by (rule scored_quiet [where new = "[]"])
    (simp_all add: updateSpawning_def spawnEnemy_def spawnPowerUp_def random_def Let_def)

lemma updateGameState_scored: "scored 0 s (updateGameState s)"
proof (cases "real_of_int \<lfloor>score s / 1000\<rfloor> + 1 \<noteq> level s")
  case True
  show ?thesis
    by (rule scored_quiet [where new = "[LevelChange (real_of_int \<lfloor>score s / 1000\<rfloor> + 1)]"])
      (use True in \<open>simp_all add: updateGameState_def Let_def fire_def\<close>)
next
  case False
  show ?thesis
    by (rule scored_quiet [where new = "[]"])
      (use False in \<open>simp_all add: updateGameState_def Let_def fire_def\<close>)
qed

lemma cleanup_scored: "scored 0 s (cleanup s)"
  by (rule scored_quiet [where new = "[]"]) (simp_all add: cleanup_def)

lemmas scored_steps =
  scored0_trans [OF _ pass2_scored] scored0_trans [OF _ pass3_scored]
  scored0_trans [OF _ pass4_scored] scored0_trans [OF _ updatePlayer_scored]
  scored0_trans [OF _ updateEnemies_scored] scored0_trans [OF _ updateProjectiles_scored]
  scored0_trans [OF _ updatePowerUps_scored] scored0_trans [OF _ updateParticles_scored]
  scored0_trans [OF _ updateSpawning_scored] scored0_trans [OF _ updateGameState_scored]
  scored0_trans [OF _ cleanup_scored]

lemma beforeCollisions_scored: "scored 0 s (beforeCollisions timestamp s)"
  unfolding beforeCollisions_def Let_def
  by (intro scored_steps) (rule scored_quiet [where new = "[]"], simp_all)

lemma afterPass1_scored:
  "scored 0 (pass1 m) (cleanup (updateGameState (pass4 (pass3 (pass2 (pass1 m))))))"
  by (intro scored_steps) simp

lemma scored_score: "scored 0 t t' \<Longrightarrow> score t' = score t"
  by (auto simp: scored_def)

lemma sameBody_ok: "list_all2 sameBody es es' \<Longrightarrow> list_all enemyOk es \<Longrightarrow> list_all enemyOk es'"
  by (induction es es' rule: list_all2_induct) (auto simp: sameBody_def enemyOk_def)

lemma sameBody_evolves:
  "list_all2 (\<lambda>e e'. e' = e \<or> e' = e\<lparr>active := False\<rparr>) es es' \<Longrightarrow> list_all enemyOk es \<Longrightarrow>
   list_all2 evolves es es' \<and> tally c es es' = 0"
  by (induction es es' rule: list_all2_induct)
    (auto simp: evolves_def enemyOk_def destroyed_def)

lemma enemyStep_sameBody: "sameBody e (fst (enemyStep deltaTime e t))"
  by (simp add: enemyStep_def sameBody_def Let_def split_beta)

lemma updateEnemies_sameBody:
  "list_all2 sameBody (enemies s) (enemies (updateEnemies deltaTime s))"
proof -
  obtain es s1 where f: "forEach (enemyStep deltaTime) (enemies s) s = (es, s1)"
    by (cases "forEach (enemyStep deltaTime) (enemies s) s")
  have "list_all2 sameBody (enemies s) es \<and> True"
  proof (rule forEach_rule [where I = "\<lambda>_. True", OF f])
    fix x t x' t'
    assume "enemyStep deltaTime x t = (x', t')"
    with enemyStep_sameBody [of x deltaTime t] show "sameBody x x' \<and> True" by simp
  qed simp
  with f show ?thesis by (simp add: updateEnemies_def)
qed

lemma spawnEnemy_ok:
  "list_all enemyOk (enemies s) \<Longrightarrow> list_all enemyOk (enemies (spawnEnemy s))"
  by (cases "pickEnemyType (randomSource s (randomCalls s))")
    (simp_all add: spawnEnemy_def random_def Let_def enemyOk_def)

lemma updateSpawning_ok:
  assumes "list_all enemyOk (enemies s)"
  shows "list_all enemyOk (enemies (updateSpawning deltaTime s))"
proof -
  let ?s1 = "s\<lparr>enemySpawnTimer := enemySpawnTimer s - deltaTime\<rparr>"
  from assms have "list_all enemyOk (enemies ?s1)" by simp
  then have "list_all enemyOk (enemies (spawnEnemy ?s1))" by (rule spawnEnemy_ok)
  with assms show ?thesis
    by (simp add: updateSpawning_def Let_def spawnPowerUp_def random_def)
qed

lemma beforeCollisions_ok:
  assumes "list_all enemyOk (enemies s)"
  shows "list_all enemyOk (enemies (beforeCollisions timestamp s))"
proof -
  let ?dt = "timestamp - lastTime s"
  let ?s1 = "s\<lparr>lastTime := timestamp, frameCount := Suc (frameCount s)\<rparr>"
  have "list_all enemyOk (enemies (updatePlayer ?dt ?s1))" using assms by simp
  then have "list_all enemyOk (enemies (updateEnemies ?dt (updatePlayer ?dt ?s1)))"
    by (rule sameBody_ok [OF updateEnemies_sameBody])
  then show ?thesis
    unfolding beforeCollisions_def Let_def
    by (intro updateSpawning_ok)
      (simp add: updateParticles_def updatePowerUps_def updateProjectiles_def)
qed

lemma playerVsEnemy_enemy:
  "fst (playerVsEnemy e t) = e \<or> fst (playerVsEnemy e t) = e\<lparr>active := False\<rparr>"
  by (simp add: playerVsEnemy_def)

lemma pass3_enemies:
  "list_all2 (\<lambda>e e'. e' = e \<or> e' = e\<lparr>active := False\<rparr>) (enemies s) (enemies (pass3 s))"
proof -
  obtain es s1 where f: "forEach playerVsEnemy (enemies s) s = (es, s1)"
    by (cases "forEach playerVsEnemy (enemies s) s")
  have "list_all2 (\<lambda>e e'. e' = e \<or> e' = e\<lparr>active := False\<rparr>) (enemies s) es \<and> True"
  proof (rule forEach_rule [where I = "\<lambda>_. True", OF f])
    fix x t x' t'
    assume "playerVsEnemy x t = (x', t')"
    with playerVsEnemy_enemy [of x t]
    show "(x' = x \<or> x' = x\<lparr>active := False\<rparr>) \<and> True" by simp
  qed simp
  with f show ?thesis by (simp add: pass3_def)
qed

lemma handleCollisions_effect:
  assumes "list_all enemyOk (enemies s)"
  shows "list_all2 evolves (enemies s) (enemies (handleCollisions s)) \<and>
         score (pass1 s) = score s + tally pv (enemies s) (enemies (handleCollisions s)) \<and>
         scored (tally one (enemies s) (enemies (handleCollisions s))) s (pass1 s)"
proof -
  note p1 = pass1_effect [OF assms]
  from p1 have "list_all enemyOk (enemies (pass1 s))"
    by (blast intro: list_all2_evolves_ok)
  then have ok1: "list_all enemyOk (enemies (pass2 (pass1 s)))" by simp
  have e3: "enemies (handleCollisions s) = enemies (pass3 (pass2 (pass1 s)))"
    by (simp add: handleCollisions_def)
  from pass3_enemies [of "pass2 (pass1 s)"]
  have r: "list_all2 (\<lambda>e e'. e' = e \<or> e' = e\<lparr>active := False\<rparr>)
             (enemies (pass1 s)) (enemies (handleCollisions s))"
    by (simp add: e3)
  from ok1 have ok1': "list_all enemyOk (enemies (pass1 s))" by simp
  note q = sameBody_evolves [OF r ok1']
  from p1 q [of pv] have ev: "list_all2 evolves (enemies s) (enemies (handleCollisions s))"
    by (blast intro: list_all2_evolves_trans)
  have t1: "tally pv (enemies s) (enemies (pass1 s)) +
            tally pv (enemies (pass1 s)) (enemies (handleCollisions s)) =
            tally pv (enemies s) (enemies (handleCollisions s))"
    using p1 q [of pv] by (intro tally_telescope) (simp_all add: evolves_pv)
  have t2: "tally one (enemies s) (enemies (pass1 s)) +
            tally one (enemies (pass1 s)) (enemies (handleCollisions s)) =
            tally one (enemies s) (enemies (handleCollisions s))"
    using p1 q [of pv] by (intro tally_telescope) simp_all
  from q [of pv] t1 have a: "tally pv (enemies s) (enemies (handleCollisions s)) =
      tally pv (enemies s) (enemies (pass1 s))" by simp
  from q [of one] t2 have b: "tally one (enemies s) (enemies (handleCollisions s)) =
      tally one (enemies s) (enemies (pass1 s))" by simp
  from p1 ev a b show ?thesis by simp
qed

lemma handleCollisions_ok:
  "list_all enemyOk (enemies s) \<Longrightarrow> list_all enemyOk (enemies (handleCollisions s))"
  using handleCollisions_effect [of s] by (blast intro: list_all2_evolves_ok)

lemma update_ok:
  assumes "list_all enemyOk (enemies s)"
  shows "list_all enemyOk (enemies (update timestamp s))"
proof -
  have "list_all enemyOk (enemies (handleCollisions (beforeCollisions timestamp s)))"
    by (intro handleCollisions_ok beforeCollisions_ok assms)
  then show ?thesis
    by (simp add: update_beforeCollisions cleanup_def updateGameState_def Let_def fire_def
        list_all_iff)
qed

lemma reachable_ok: "reachable s \<Longrightarrow> list_all enemyOk (enemies s)"
proof (induction rule: reachable.induct)
  case (start w h rnd)
  show ?case by (simp add: constructor_def)
next
  case (tick s timestamp)
  from tick.IH show ?case by (rule update_ok)
next
  case (key s a pressed)
  then show ?case by (cases a) simp_all
next
  case (restart s)
  show ?case by (simp add: reset_def fire_def)
next
  case (frame s)
  then show ?case by (simp add: render_def)
qed

lemma tally_filter:
  "tally c es es' =
     sum_list (map (\<lambda>(e, e'). c e) (filter (\<lambda>(e, e'). destroyed e e') (zip es es')))"
  by (simp add: tally_def sum_list_map_filter' split_def)

lemma count_filter: "(\<Sum>x\<leftarrow>xs. if P x then Suc 0 else 0) = length (filter P xs)"
  by (induction xs) simp_all

lemma tally_length:
  "tally one es es' = length (filter (\<lambda>(e, e'). destroyed e e') (zip es es'))"
  by (simp add: tally_def count_filter split_def)

lemma pointValue_nonneg: "0 \<le> pointValue k"
  by (cases k) simp_all

lemma tally_nonneg: "0 \<le> tally pv es es'"
  unfolding tally_def by (rule sum_list_nonneg) (auto simp: pointValue_nonneg)

text \<open>
  C5. In a state whose enemies have the point value of their type (heavy 200, fast 150,
  basic 100) and positive health while active (\<open>enemyOk\<close>, which \<open>reachable_ok\<close> shows
  of every state the engine reaches from its constructor), one tick adds to the score
  exactly the point values of the enemies whose health goes from above 0 to at most 0
  in collision resolution, so the score does not decrease; the score callback is
  called once for each of them, each time with the score so far plus one point value,
  and the last call carries the score after the tick.
\<close>

theorem score_counts_destroyed_enemies:
  assumes "list_all enemyOk (enemies s)"
  shows "let m = beforeCollisions timestamp s;
             kills = filter (\<lambda>(e, e'). 0 < e_health e \<and> e_health e' \<le> 0)
                       (zip (enemies m) (enemies (handleCollisions m)))
         in update timestamp s = cleanup (updateGameState (handleCollisions m)) \<and>
            list_all (\<lambda>e. points e = pointValue (e_type e)) (enemies m) \<and>
            score (update timestamp s) = score s + (\<Sum>(e, e')\<leftarrow>kills. pointValue (e_type e)) \<and>
            score s \<le> score (update timestamp s) \<and>
            (\<exists>new. callbackLog (update timestamp s) = callbackLog s @ new \<and>
               length (scoreValues new) = length kills \<and>
               last (score s # scoreValues new) = score (update timestamp s) \<and>
               successively (\<lambda>a b. b - a \<in> {100, 150, 200}) (score s # scoreValues new))"
proof -
  define m where "m = beforeCollisions timestamp s"
  define kills where "kills = filter (\<lambda>(e, e'). 0 < e_health e \<and> e_health e' \<le> 0)
                       (zip (enemies m) (enemies (handleCollisions m)))"
  have k: "kills = filter (\<lambda>(e, e'). destroyed e e') (zip (enemies m) (enemies (handleCollisions m)))"
    by (simp add: kills_def destroyed_def)
  have kp: "tally pv (enemies m) (enemies (handleCollisions m)) =
      (\<Sum>(e, e')\<leftarrow>kills. pointValue (e_type e))"
    by (simp only: k tally_filter)
  have kn: "tally one (enemies m) (enemies (handleCollisions m)) = length kills"
    by (simp only: k tally_length)
  have ok: "list_all enemyOk (enemies m)"
    unfolding m_def by (intro beforeCollisions_ok assms)
  note h = handleCollisions_effect [OF ok]
  have u: "update timestamp s = cleanup (updateGameState (handleCollisions m))"
    by (simp add: m_def update_beforeCollisions)
  have a: "scored 0 s m" unfolding m_def by (rule beforeCollisions_scored)
  have b: "scored (length kills) m (pass1 m)" using h by (simp only: kn)
  have c: "scored 0 (pass1 m) (update timestamp s)"
    unfolding u handleCollisions_def by (rule afterPass1_scored)
  from scored_trans [OF scored_trans [OF a b] c]
  have sc: "scored (length kills) s (update timestamp s)" by simp
  have "score (update timestamp s) = score (pass1 m)" by (rule scored_score [OF c])
  also have "\<dots> = score m + (\<Sum>(e, e')\<leftarrow>kills. pointValue (e_type e))"
    using h by (simp only: kp)
  also have "score m = score s" by (rule scored_score [OF a])
  finally have s: "score (update timestamp s) =
      score s + (\<Sum>(e, e')\<leftarrow>kills. pointValue (e_type e))" .
  have p: "list_all (\<lambda>e. points e = pointValue (e_type e)) (enemies m)"
    using ok by (simp add: list_all_iff enemyOk_def)
  have "0 \<le> (\<Sum>(e, e')\<leftarrow>kills. pointValue (e_type e))"
    using tally_nonneg [of "enemies m" "enemies (handleCollisions m)"] by (simp only: kp)
  with s have mono: "score s \<le> score (update timestamp s)" by simp
  from sc have ev: "\<exists>new. callbackLog (update timestamp s) = callbackLog s @ new \<and>
               length (scoreValues new) = length kills \<and>
               last (score s # scoreValues new) = score (update timestamp s) \<and>
               successively (\<lambda>a b. b - a \<in> {100, 150, 200}) (score s # scoreValues new)"
    unfolding scored_def .
  show ?thesis
    unfolding Let_def m_def [symmetric] kills_def [symmetric]
    using u p s mono ev by blast
qed

subsection \<open>A tick on the last life\<close>

lemma update_staged:
  assumes "updatePlayer (timestamp - lastTime s)
             (s\<lparr>lastTime := timestamp, frameCount := Suc (frameCount s)\<rparr>) = s2"
    and "updateEnemies (timestamp - lastTime s) s2 = s3"
    and "updateProjectiles (timestamp - lastTime s) s3 = s4"
    and "updatePowerUps (timestamp - lastTime s) s4 = s5"
    and "updateParticles (timestamp - lastTime s) s5 = s6"
    and "updateSpawning (timestamp - lastTime s) s6 = s7"
  shows "beforeCollisions timestamp s = s7"
  using assms by (simp add: beforeCollisions_def Let_def)

lemmas lastLife_defs = lastLifeMid_def lastLife_def enemyShotAt_def example_defs

lemma lastLife_beforeCollisions: "beforeCollisions 16 lastLife = lastLifeMid"
proof (rule update_staged)
  let ?s2 = "lastLife\<lparr>lastTime := 16, frameCount := 1, callbackLog := [PowerUpChange []]\<rparr>"
  let ?s4 = "?s2\<lparr>projectiles := [enemyShotAt 405 548.84, enemyShotAt 410 548.84]\<rparr>"
  show "updatePlayer (16 - lastTime lastLife)
          (lastLife\<lparr>lastTime := 16, frameCount := Suc (frameCount lastLife)\<rparr>) = ?s2"
    by (simp add: lastLife_defs updatePlayer_def tickPowerUps_def fire_def)
  show "updateEnemies (16 - lastTime lastLife) ?s2 = ?s2"
    by (simp add: lastLife_defs updateEnemies_def)
  show "updateProjectiles (16 - lastTime lastLife) ?s2 = ?s4"
    by (simp add: lastLife_defs updateProjectiles_def projectileStep_def)
  show "updatePowerUps (16 - lastTime lastLife) ?s4 = ?s4"
    by (simp add: lastLife_defs updatePowerUps_def)
  show "updateParticles (16 - lastTime lastLife) ?s4 = ?s4"
    by (simp add: lastLife_defs updateParticles_def)
  show "updateSpawning (16 - lastTime lastLife) ?s4 = lastLifeMid"
    by (simp add: lastLife_defs updateSpawning_def)
qed

lemma lastLife_update:
  "callbackLog (update 16 lastLife) =
     [PowerUpChange [], LivesChange 0, GameOver, LivesChange (- 1), GameOver]"
  "lives (update 16 lastLife) = - 1"
  unfolding update_beforeCollisions lastLife_beforeCollisions
  by (simp_all add: cleanup_def updateGameState_def lastLife_defs collision_defs)

subsection \<open>Power-up pickup\<close>

lemma checkCollision_powerUps [simp]:
  "checkCollision (p\<lparr>p_powerUps := m\<rparr>) x = checkCollision p x"
  by (simp add: checkCollision_def)

lemma picked_powerUps [simp]: "picked (p\<lparr>p_powerUps := m\<rparr>) pu = picked p pu"
  by (simp add: picked_def)

lemma playerVsPowerUp_eq:
  "playerVsPowerUp pu t =
     (if picked (player t) pu
      then (pu\<lparr>active := False\<rparr>,
            createParticles (position pu) ''#6c5ce7'' 8
              (t\<lparr>player := (player t)\<lparr>p_powerUps := pickUp pu (p_powerUps (player t))\<rparr>\<rparr>))
      else (pu, t))"
  by (simp add: playerVsPowerUp_def picked_def pickUp_def Let_def)

lemma powerUps_loop:
  assumes "forEach playerVsPowerUp pus t = (pus', t')"
  shows "pus' = map (\<lambda>pu. if picked (player t) pu then pu\<lparr>active := False\<rparr> else pu) pus \<and>
         player t' = (player t)
           \<lparr>p_powerUps := fold pickUp (filter (picked (player t)) pus) (p_powerUps (player t))\<rparr>"
  using assms
proof (induction pus arbitrary: t pus' t')
  case Nil
  then show ?case by simp
next
  case (Cons pu pus)
  obtain pu1 t1 where b: "playerVsPowerUp pu t = (pu1, t1)" by (cases "playerVsPowerUp pu t")
  obtain pus1 t2 where r: "forEach playerVsPowerUp pus t1 = (pus1, t2)"
    by (cases "forEach playerVsPowerUp pus t1")
  from Cons.prems b r have eq: "pus' = pu1 # pus1" "t' = t2" by simp_all
  note ih = Cons.IH [OF r]
  show ?case
  proof (cases "picked (player t) pu")
    case True
    with b have "pu1 = pu\<lparr>active := False\<rparr>"
      and "player t1 = (player t)\<lparr>p_powerUps := pickUp pu (p_powerUps (player t))\<rparr>"
      by (auto simp: playerVsPowerUp_eq createParticles_eq)
    with ih eq True show ?thesis by simp
  next
    case False
    with b have "pu1 = pu" "t1 = t" by (auto simp: playerVsPowerUp_eq)
    with ih eq False show ?thesis by simp
  qed
qed

lemma pass4_effect:
  "powerUps (pass4 s) =
     map (\<lambda>pu. if picked (player s) pu then pu\<lparr>active := False\<rparr> else pu) (powerUps s) \<and>
   player (pass4 s) = (player s)
     \<lparr>p_powerUps := fold pickUp (filter (picked (player s)) (powerUps s)) (p_powerUps (player s))\<rparr>"
proof -
  obtain pus t where f: "forEach playerVsPowerUp (powerUps s) s = (pus, t)"
    by (cases "forEach playerVsPowerUp (powerUps s) s")
  with powerUps_loop [OF f] show ?thesis by (simp add: pass4_def)
qed

lemma handleCollisions_pickup:
  "powerUps (handleCollisions s) =
     map (\<lambda>pu. if picked (player s) pu then pu\<lparr>active := False\<rparr> else pu) (powerUps s) \<and>
   player (handleCollisions s) = (player s)
     \<lparr>p_powerUps := fold pickUp (filter (picked (player s)) (powerUps s)) (p_powerUps (player s))\<rparr>"
  using pass4_effect [of "pass3 (pass2 (pass1 s))"] by (simp add: handleCollisions_def)

lemma mapGet_mapSet: "mapGet (mapSet k v m) k' = (if k' = k then Some v else mapGet m k')"
  by (induction m) (auto simp: mapGet_def)

lemma mapGet_pickUp:
  "mapGet (pickUp pu m) k = (if k = pu_type pu then Some (duration pu) else mapGet m k)"
  by (simp add: pickUp_def mapGet_mapSet)

lemma mapGet_fold_pickUp:
  "mapGet (fold pickUp pus m) k =
     (case filter (\<lambda>pu. pu_type pu = k) pus of
        [] \<Rightarrow> mapGet m k
      | x # xs \<Rightarrow> Some (duration (last (x # xs))))"
proof (induction pus arbitrary: m)
  case Nil
  show ?case by simp
next
  case (Cons pu pus)
  show ?case
    by (auto simp: Cons.IH mapGet_pickUp split: list.splits)
qed

subsection \<open>Damage passes and the shield\<close>

lemma sameBox_refl [simp]: "sameBox e e"
  by (simp add: sameBox_def)

lemma sameBox_trans: "sameBox e e1 \<Longrightarrow> sameBox e1 e2 \<Longrightarrow> sameBox e e2"
  by (auto simp: sameBox_def)

lemma list_all2_sameBox_trans:
  "list_all2 sameBox es es1 \<Longrightarrow> list_all2 sameBox es1 es2 \<Longrightarrow> list_all2 sameBox es es2"
  by (rule list_all2_trans [of sameBox sameBox sameBox]) (auto intro: sameBox_trans)

lemma hitEnemy_sameBox: "sameBox e (fst (hitEnemy e pt))"
  by (simp add: hitEnemy_def sameBox_def Let_def)

lemma projectileVsEnemies_sameBox:
  "list_all2 sameBox (fst et) (fst (snd (projectileVsEnemies p et)))"
proof (cases "\<not> active p \<or> owner p \<noteq> OwnerPlayer")
  case True
  then show ?thesis by (simp add: projectileVsEnemies_def list_all2_refl)
next
  case False
  obtain es1 pt1 where f: "forEach hitEnemy (fst et) (p, snd et) = (es1, pt1)"
    by (cases "forEach hitEnemy (fst et) (p, snd et)")
  have "list_all2 sameBox (fst et) es1 \<and> True"
  proof (rule forEach_rule [where I = "\<lambda>_. True", OF f])
    fix x t x' t'
    assume "hitEnemy x t = (x', t')"
    with hitEnemy_sameBox [of x t] show "sameBox x x' \<and> True" by simp
  qed simp
  with False f show ?thesis by (simp add: projectileVsEnemies_def split_beta)
qed

lemma projectileVsEnemies_owner:
  "owner p = OwnerEnemy \<Longrightarrow> fst (projectileVsEnemies p et) = p"
  by (simp add: projectileVsEnemies_def)

lemma pass1_boxes:
  "list_all2 sameBox (enemies s) (enemies (pass1 s)) \<and>
   list_all2 (\<lambda>p p'. owner p = OwnerEnemy \<longrightarrow> p' = p) (projectiles s) (projectiles (pass1 s))"
proof -
  obtain ps es t where f:
    "forEach projectileVsEnemies (projectiles s) (enemies s, s) = (ps, (es, t))"
    by (cases "forEach projectileVsEnemies (projectiles s) (enemies s, s)") auto
  let ?I = "\<lambda>et. list_all2 sameBox (enemies s) (fst et)"
  have "list_all2 (\<lambda>p p'. owner p = OwnerEnemy \<longrightarrow> p' = p) (projectiles s) ps \<and> ?I (es, t)"
  proof (rule forEach_rule [where I = ?I, OF f])
    show "?I (enemies s, s)" by (simp add: list_all2_refl)
  next
    fix x et x' et'
    assume i: "?I et" and b: "projectileVsEnemies x et = (x', et')"
    from projectileVsEnemies_sameBox [of et x] b
    have "list_all2 sameBox (fst et) (fst et')" by simp
    with i have "?I et'" by (rule list_all2_sameBox_trans)
    moreover from projectileVsEnemies_owner [of x et] b
    have "owner x = OwnerEnemy \<longrightarrow> x' = x" by simp
    ultimately show "(owner x = OwnerEnemy \<longrightarrow> x' = x) \<and> ?I et'" by simp
  qed
  with f show ?thesis by (simp add: pass1_def)
qed

lemma damagePlayer_shield:
  "mapHas shield (p_powerUps (player t)) \<Longrightarrow> damagePlayer col n t = t"
  by (simp add: damagePlayer_def)

lemma pass2_consumed:
  "list_all2 (consumed (player s)) (projectiles s) (projectiles (pass2 s)) \<and>
   (mapHas shield (p_powerUps (player s)) \<longrightarrow> lives (pass2 s) = lives s)"
proof -
  obtain ps t where f: "forEach projectileVsPlayer (projectiles s) s = (ps, t)"
    by (cases "forEach projectileVsPlayer (projectiles s) s")
  let ?I = "\<lambda>t. player t = player s \<and>
                 (mapHas shield (p_powerUps (player s)) \<longrightarrow> lives t = lives s)"
  have "list_all2 (consumed (player s)) (projectiles s) ps \<and> ?I t"
  proof (rule forEach_rule [where I = ?I, OF f])
    show "?I s" by simp
  next
    fix x u x' u'
    assume i: "?I u" and b: "projectileVsPlayer x u = (x', u')"
    then show "consumed (player s) x x' \<and> ?I u'"
      by (auto simp: projectileVsPlayer_def consumed_def damagePlayer_shield split: if_splits)
  qed
  with f show ?thesis by (simp add: pass2_def)
qed

lemma pass3_rammed:
  "list_all2 (rammed (player s)) (enemies s) (enemies (pass3 s)) \<and>
   (mapHas shield (p_powerUps (player s)) \<longrightarrow> lives (pass3 s) = lives s)"
proof -
  obtain es t where f: "forEach playerVsEnemy (enemies s) s = (es, t)"
    by (cases "forEach playerVsEnemy (enemies s) s")
  let ?I = "\<lambda>t. player t = player s \<and>
                 (mapHas shield (p_powerUps (player s)) \<longrightarrow> lives t = lives s)"
  have "list_all2 (rammed (player s)) (enemies s) es \<and> ?I t"
  proof (rule forEach_rule [where I = ?I, OF f])
    show "?I s" by simp
  next
    fix x u x' u'
    assume i: "?I u" and b: "playerVsEnemy x u = (x', u')"
    then show "rammed (player s) x x' \<and> ?I u'"
      by (auto simp: playerVsEnemy_def rammed_def damagePlayer_shield split: if_splits)
  qed
  with f show ?thesis by (simp add: pass3_def)
qed

lemma handleCollisions_contacts:
  "list_all2 (consumed (player s)) (projectiles s) (projectiles (handleCollisions s)) \<and>
   list_all2 (rammed (player s)) (enemies s) (enemies (handleCollisions s)) \<and>
   (mapHas shield (p_powerUps (player s)) \<longrightarrow> lives (handleCollisions s) = lives s)"
proof -
  let ?s1 = "pass1 s" and ?s2 = "pass2 (pass1 s)"
  note b = pass1_boxes [of s]
  note c = pass2_consumed [of ?s1]
  note r = pass3_rammed [of ?s2]
  have ps: "projectiles (handleCollisions s) = projectiles ?s2"
    and es: "enemies (handleCollisions s) = enemies (pass3 ?s2)"
    and lv: "lives (handleCollisions s) = lives (pass3 ?s2)"
    by (simp_all add: handleCollisions_def)
  have "list_all2 (consumed (player s)) (projectiles s) (projectiles ?s2)"
  proof (rule list_all2_trans [where ?P1.0 = "\<lambda>p p'. owner p = OwnerEnemy \<longrightarrow> p' = p"
        and ?P2.0 = "consumed (player s)"])
    show "list_all2 (\<lambda>p p'. owner p = OwnerEnemy \<longrightarrow> p' = p) (projectiles s) (projectiles ?s1)"
      using b by simp
    show "list_all2 (consumed (player s)) (projectiles ?s1) (projectiles ?s2)"
      using c by simp
  next
    fix a b c
    assume "owner a = OwnerEnemy \<longrightarrow> b = a" "consumed (player s) b c"
    then show "consumed (player s) a c"
      by (cases "owner a") (auto simp: consumed_def)
  qed
  moreover have "list_all2 (rammed (player s)) (enemies s) (enemies (pass3 ?s2))"
  proof (rule list_all2_trans [where ?P1.0 = sameBox and ?P2.0 = "rammed (player s)"])
    show "list_all2 sameBox (enemies s) (enemies ?s2)" using b by simp
    show "list_all2 (rammed (player s)) (enemies ?s2) (enemies (pass3 ?s2))" using r by simp
  next
    fix a b c
    assume "sameBox a b" "rammed (player s) b c"
    then show "rammed (player s) a c"
      by (auto simp: sameBox_def rammed_def checkCollision_def)
  qed
  moreover have "mapHas shield (p_powerUps (player s)) \<longrightarrow> lives (pass3 ?s2) = lives s"
    using c r by simp
  ultimately show ?thesis by (simp add: ps es lv)
qed

lemma handleCollisions_lifeTrace: "lifeTrace s (handleCollisions s)"
  unfolding handleCollisions_def by (intro lifeTrace_steps) simp

lemma beforeCollisions_lives [simp]: "lives (beforeCollisions timestamp s) = lives s"
  by (simp add: beforeCollisions_def Let_def updateSpawning_def spawnEnemy_def spawnPowerUp_def
      random_def updateParticles_def updatePowerUps_def updateProjectiles_def)

lemma afterCollisions_lives [simp]: "lives (cleanup (updateGameState t)) = lives t"
  by (simp add: cleanup_def updateGameState_def Let_def fire_def)

text \<open>
  C4. While \<open>shield\<close> is a key of the player's power-up map at collision resolution,
  \<open>handleCollisions\<close> leaves \<open>lives\<close> unchanged and fires neither the lives nor the
  game-over callback; every active enemy projectile that overlaps the player is inactive
  afterwards, and so is every active enemy that overlaps the player. Since no other
  phase of \<open>update\<close> touches \<open>lives\<close>, the tick as a whole leaves \<open>lives\<close> unchanged
  when the shield is still in the map after the player phase.
\<close>

theorem shield_blocks_all_damage:
  assumes "mapHas shield (p_powerUps (player s))"
  shows "lives (handleCollisions s) = lives s \<and>
         (\<exists>new. callbackLog (handleCollisions s) = callbackLog s @ new \<and>
                filter lifeEvent new = []) \<and>
         length (projectiles (handleCollisions s)) = length (projectiles s) \<and>
         length (enemies (handleCollisions s)) = length (enemies s) \<and>
         (\<forall>i<length (projectiles s).
            active (projectiles s ! i) \<and> owner (projectiles s ! i) = OwnerEnemy \<and>
            checkCollision (projectiles s ! i) (player s) \<longrightarrow>
            \<not> active (projectiles (handleCollisions s) ! i)) \<and>
         (\<forall>i<length (enemies s).
            active (enemies s ! i) \<and> checkCollision (player s) (enemies s ! i) \<longrightarrow>
            \<not> active (enemies (handleCollisions s) ! i)) \<and>
         (s = beforeCollisions timestamp s0 \<longrightarrow> lives (update timestamp s0) = lives s0)"
proof -
  note c = handleCollisions_contacts [of s]
  from c assms have lv: "lives (handleCollisions s) = lives s" by simp
  from handleCollisions_lifeTrace [of s] obtain new k where
    t: "callbackLog (handleCollisions s) = callbackLog s @ new"
       "lives (handleCollisions s) = lives s - real k"
       "filter lifeEvent new = hitEvents (lives s) k"
    unfolding lifeTrace_def by blast
  from t(2) lv have "k = 0" by simp
  with t have ev: "\<exists>new. callbackLog (handleCollisions s) = callbackLog s @ new \<and>
                filter lifeEvent new = []" by auto
  from c have ps: "list_all2 (consumed (player s)) (projectiles s) (projectiles (handleCollisions s))"
    and es: "list_all2 (rammed (player s)) (enemies s) (enemies (handleCollisions s))"
    by simp_all
  have up: "lives (update timestamp s0) = lives s0" if "s = beforeCollisions timestamp s0"
    using that lv by (simp add: update_beforeCollisions)
  from ps have p: "\<forall>i<length (projectiles s).
            active (projectiles s ! i) \<and> owner (projectiles s ! i) = OwnerEnemy \<and>
            checkCollision (projectiles s ! i) (player s) \<longrightarrow>
            \<not> active (projectiles (handleCollisions s) ! i)"
    by (auto simp: list_all2_conv_all_nth consumed_def)
  from es have e: "\<forall>i<length (enemies s).
            active (enemies s ! i) \<and> checkCollision (player s) (enemies s ! i) \<longrightarrow>
            \<not> active (enemies (handleCollisions s) ! i)"
    by (auto simp: list_all2_conv_all_nth rammed_def)
  from ps es have l: "length (projectiles (handleCollisions s)) = length (projectiles s)"
    "length (enemies (handleCollisions s)) = length (enemies s)"
    by (simp_all add: list_all2_lengthD)
  from lv ev l p e up show ?thesis by blast
qed

lemmas shielded_defs = shieldedMid_def shielded_def enemyShotAt_def example_defs

lemma shielded_beforeCollisions: "beforeCollisions 16 shielded = shieldedMid"
proof (rule update_staged)
  let ?s2 = "shielded\<lparr>lastTime := 16, frameCount := 1,
              callbackLog := [PowerUpChange [(shield, 4.984)]],
              player := (player quiet)\<lparr>p_powerUps := [(shield, 4984)]\<rparr>\<rparr>"
  let ?s3 = "?s2\<lparr>enemies := [(enemyAt 390 531.28)\<lparr>e_shootCooldown := 984\<rparr>]\<rparr>"
  let ?s4 = "?s3\<lparr>projectiles := [enemyShotAt 405 548.84]\<rparr>"
  show "updatePlayer (16 - lastTime shielded)
          (shielded\<lparr>lastTime := 16, frameCount := Suc (frameCount shielded)\<rparr>) = ?s2"
    by (simp add: shielded_defs updatePlayer_def tickPowerUps_def tickPowerUp_def fire_def)
  show "updateEnemies (16 - lastTime shielded) ?s2 = ?s3"
    by (simp add: shielded_defs updateEnemies_def enemyStep_def Let_def)
  show "updateProjectiles (16 - lastTime shielded) ?s3 = ?s4"
    by (simp add: shielded_defs updateProjectiles_def projectileStep_def)
  show "updatePowerUps (16 - lastTime shielded) ?s4 = ?s4"
    by (simp add: shielded_defs updatePowerUps_def)
  show "updateParticles (16 - lastTime shielded) ?s4 = ?s4"
    by (simp add: shielded_defs updateParticles_def)
  show "updateSpawning (16 - lastTime shielded) ?s4 = shieldedMid"
    by (simp add: shielded_defs updateSpawning_def)
qed

theorem shield_blocks_all_damage_witness:
  "shieldedMid = beforeCollisions 16 shielded \<and>
   mapHas shield (p_powerUps (player shieldedMid)) \<and>
   active (projectiles shieldedMid ! 0) \<and> owner (projectiles shieldedMid ! 0) = OwnerEnemy \<and>
   checkCollision (projectiles shieldedMid ! 0) (player shieldedMid) \<and>
   active (enemies shieldedMid ! 0) \<and>
   checkCollision (player shieldedMid) (enemies shieldedMid ! 0) \<and>
   lives shielded = 1 \<and>
   lives (handleCollisions shieldedMid) = 1 \<and>
   \<not> active (projectiles (handleCollisions shieldedMid) ! 0) \<and>
   \<not> active (enemies (handleCollisions shieldedMid) ! 0) \<and>
   lives (update 16 shielded) = 1"
proof -
  have f: "mapHas shield (p_powerUps (player shieldedMid))"
    "length (projectiles shieldedMid) = 1" "length (enemies shieldedMid) = 1"
    "active (projectiles shieldedMid ! 0)" "owner (projectiles shieldedMid ! 0) = OwnerEnemy"
    "checkCollision (projectiles shieldedMid ! 0) (player shieldedMid)"
    "active (enemies shieldedMid ! 0)"
    "checkCollision (player shieldedMid) (enemies shieldedMid ! 0)"
    "lives shieldedMid = 1" "lives shielded = 1"
    by (simp_all add: shielded_defs mapHas_def checkCollision_def)
  have m: "shieldedMid = beforeCollisions 16 shielded"
    by (simp add: shielded_beforeCollisions)
  from shield_blocks_all_damage [OF f(1), of 16 shielded] f m show ?thesis by simp
qed

subsection \<open>Zero and negative time steps\<close>

lemma list_all2_map_eq: "list_all2 (\<lambda>x y. f y = f x) xs ys \<Longrightarrow> map f ys = map f xs"
  by (induction xs ys rule: list_all2_induct) simp_all

lemma list_all2_right: "list_all2 (\<lambda>x y. P y) xs ys \<Longrightarrow> list_all P ys"
  by (induction xs ys rule: list_all2_induct) simp_all

lemma enemyStep_zero: "position (fst (enemyStep 0 e t)) = position e"
  by (simp add: enemyStep_def Let_def split_beta)

lemma updateEnemies_zero: "map position (enemies (updateEnemies 0 s)) = map position (enemies s)"
proof -
  obtain es s1 where f: "forEach (enemyStep 0) (enemies s) s = (es, s1)"
    by (cases "forEach (enemyStep 0) (enemies s) s")
  have "list_all2 (\<lambda>e e'. position e' = position e) (enemies s) es \<and> True"
  proof (rule forEach_rule [where I = "\<lambda>_. True", OF f])
    fix x t x' t'
    assume "enemyStep 0 x t = (x', t')"
    with enemyStep_zero [of x t] show "position x' = position x \<and> True" by simp
  qed simp
  with f show ?thesis by (simp add: updateEnemies_def list_all2_map_eq)
qed

lemma enemyStep_coolOk:
  "0 \<le> randomSource t (Suc (randomCalls t)) \<Longrightarrow> coolOk (fst (enemyStep deltaTime e t))"
  by (simp add: enemyStep_def coolOk_def Let_def split_beta random_def createEnemyProjectile_def)

lemma updateEnemies_coolOk:
  assumes "\<forall>n. 0 \<le> randomSource s n"
  shows "list_all coolOk (enemies (updateEnemies deltaTime s))"
proof -
  obtain es s1 where f: "forEach (enemyStep deltaTime) (enemies s) s = (es, s1)"
    by (cases "forEach (enemyStep deltaTime) (enemies s) s")
  let ?I = "\<lambda>t. randomSource t = randomSource s"
  have "list_all2 (\<lambda>e. coolOk) (enemies s) es \<and> ?I s1"
  proof (rule forEach_rule [where I = ?I, OF f])
    show "?I s" by simp
  next
    fix x t x' t'
    assume i: "?I t" and b: "enemyStep deltaTime x t = (x', t')"
    from i assms have "0 \<le> randomSource t (Suc (randomCalls t))" by simp
    from enemyStep_coolOk [OF this, of deltaTime x] b have "coolOk x'" by simp
    moreover from enemyStep_fields(12) [of deltaTime x t] b i have "?I t'" by simp
    ultimately show "coolOk x' \<and> ?I t'" by simp
  qed
  then have "list_all coolOk es" by (blast intro: list_all2_right)
  with f show ?thesis by (simp add: updateEnemies_def)
qed

lemma updateSpawning_coolOk:
  assumes "\<forall>n. 0 \<le> randomSource s n" and "list_all coolOk (enemies s)"
  shows "list_all coolOk (enemies (updateSpawning deltaTime s))"
  using assms
  by (simp add: updateSpawning_def spawnEnemy_def spawnPowerUp_def random_def Let_def coolOk_def)

lemma rammed_coolOk:
  "list_all2 (rammed pl) es es' \<Longrightarrow> list_all coolOk es \<Longrightarrow> list_all coolOk es'"
  by (induction es es' rule: list_all2_induct) (auto simp: rammed_def coolOk_def)

lemma update_coolOk:
  assumes "\<forall>n. 0 \<le> randomSource s n"
  shows "list_all (\<lambda>e. 0 \<le> e_shootCooldown e) (enemies (update timestamp s))"
proof -
  let ?dt = "timestamp - lastTime s"
  let ?s1 = "s\<lparr>lastTime := timestamp, frameCount := Suc (frameCount s)\<rparr>"
  let ?s2 = "updatePlayer ?dt ?s1"
  let ?s3 = "updateEnemies ?dt ?s2"
  let ?s6 = "updateParticles ?dt (updatePowerUps ?dt (updateProjectiles ?dt ?s3))"
  let ?m = "beforeCollisions timestamp s"
  have r2: "\<forall>n. 0 \<le> randomSource ?s2 n" using assms by simp
  then have "list_all coolOk (enemies ?s3)" by (rule updateEnemies_coolOk)
  then have c6: "list_all coolOk (enemies ?s6)"
    by (simp add: updateParticles_def updatePowerUps_def updateProjectiles_def)
  have r6: "\<forall>n. 0 \<le> randomSource ?s6 n"
    using assms by (simp add: updateParticles_def updatePowerUps_def updateProjectiles_def)
  have m: "?m = updateSpawning ?dt ?s6" by (simp add: beforeCollisions_def Let_def)
  have "list_all coolOk (enemies ?m)"
    unfolding m by (rule updateSpawning_coolOk [OF r6 c6])
  with handleCollisions_contacts [of ?m]
  have "list_all coolOk (enemies (handleCollisions ?m))" by (blast intro: rammed_coolOk)
  then show ?thesis
    by (auto simp: update_beforeCollisions cleanup_def updateGameState_def Let_def fire_def
        list_all_iff coolOk_def)
qed

lemma updatePlayer_cooldown: "0 \<le> p_shootCooldown (player (updatePlayer deltaTime s))"
  by (simp add: updatePlayer_def Let_def fire_def)

lemma update_player_cooldown: "0 \<le> p_shootCooldown (player (update timestamp s))"
proof -
  let ?dt = "timestamp - lastTime s"
  let ?s2 = "updatePlayer ?dt (s\<lparr>lastTime := timestamp, frameCount := Suc (frameCount s)\<rparr>)"
  have "player (beforeCollisions timestamp s) = player ?s2"
    by (simp add: beforeCollisions_def Let_def updateSpawning_def spawnEnemy_def
        spawnPowerUp_def random_def updateParticles_def updatePowerUps_def
        updateProjectiles_def)
  then have "p_shootCooldown (player (update timestamp s)) = p_shootCooldown (player ?s2)"
    using handleCollisions_pickup [of "beforeCollisions timestamp s"]
    by (simp add: update_beforeCollisions cleanup_def updateGameState_def Let_def fire_def)
  with updatePlayer_cooldown [of ?dt] show ?thesis by simp
qed

lemma update_player_position:
  "position (player (update timestamp s)) =
     position (player (updatePlayer (timestamp - lastTime s)
       (s\<lparr>lastTime := timestamp, frameCount := Suc (frameCount s)\<rparr>)))"
proof -
  let ?dt = "timestamp - lastTime s"
  let ?s2 = "updatePlayer ?dt (s\<lparr>lastTime := timestamp, frameCount := Suc (frameCount s)\<rparr>)"
  have "player (beforeCollisions timestamp s) = player ?s2"
    by (simp add: beforeCollisions_def Let_def updateSpawning_def spawnEnemy_def
        spawnPowerUp_def random_def updateParticles_def updatePowerUps_def
        updateProjectiles_def)
  then show ?thesis
    using handleCollisions_pickup [of "beforeCollisions timestamp s"]
    by (simp add: update_beforeCollisions cleanup_def updateGameState_def Let_def fire_def)
qed

lemma projectileStep_zero: "position (projectileStep 0 w h p) = position p"
  by (simp add: projectileStep_def Let_def)

lemma particleStep_zero: "position (particleStep 0 p) = position p"
  by (simp add: particleStep_def Let_def)

lemma updatePlayer_zero:
  "position (player (updatePlayer 0 s)) =
     (position (player s))
       \<lparr>vec_x := max (vec_x (obj_size (player s)) / 2)
                  (min (canvasWidth s - vec_x (obj_size (player s)) / 2)
                     (vec_x (position (player s))))\<rparr>"
  by (simp add: updatePlayer_def Let_def fire_def)

lemma updatePlayer_fires:
  assumes "in_shoot (input s)" and "p_shootCooldown (player s) \<le> deltaTime"
  shows "length (projectiles s) < length (projectiles (updatePlayer deltaTime s))"
  using assms
  by (simp add: updatePlayer_def Let_def fire_def createPlayerProjectile_def)

lemmas backwards_defs = backwardsMid_def backwards_def example_defs

subsection \<open>Examples run through a whole tick\<close>

lemma backwards_beforeCollisions: "beforeCollisions 1000 backwards = backwardsMid"
proof (rule update_staged)
  let ?s2 = "backwards\<lparr>lastTime := 1000, frameCount := 1, callbackLog := [PowerUpChange []],
               player := (player quiet)\<lparr>p_shootCooldown := 1000\<rparr>\<rparr>"
  let ?s3 = "?s2\<lparr>enemies := [(enemyAt 100 100)\<lparr>position := \<lparr>vec_x = 100, vec_y = 20\<rparr>,
                                            e_shootCooldown := 2000\<rparr>]\<rparr>"
  show "updatePlayer (1000 - lastTime backwards)
          (backwards\<lparr>lastTime := 1000, frameCount := Suc (frameCount backwards)\<rparr>) = ?s2"
    by (simp add: backwards_defs updatePlayer_def tickPowerUps_def fire_def)
  show "updateEnemies (1000 - lastTime backwards) ?s2 = ?s3"
    by (simp add: backwards_defs updateEnemies_def enemyStep_def Let_def)
  show "updateProjectiles (1000 - lastTime backwards) ?s3 = ?s3"
    by (simp add: backwards_defs updateProjectiles_def)
  show "updatePowerUps (1000 - lastTime backwards) ?s3 = ?s3"
    by (simp add: backwards_defs updatePowerUps_def)
  show "updateParticles (1000 - lastTime backwards) ?s3 = ?s3"
    by (simp add: backwards_defs updateParticles_def)
  show "updateSpawning (1000 - lastTime backwards) ?s3 = backwardsMid"
    by (simp add: backwards_defs updateSpawning_def)
qed

lemma backwards_update:
  "map position (enemies (update 1000 backwards)) = [\<lparr>vec_x = 100, vec_y = 20\<rparr>]"
  unfolding update_beforeCollisions backwards_beforeCollisions
  by (simp add: cleanup_def updateGameState_def backwards_defs collision_defs)

lemma bobbing_moves:
  "vec_y (position (powerUps (updatePowerUps 0 bobbing) ! 0)) \<noteq>
   vec_y (position (powerUps bobbing ! 0))"
proof -
  have "(0::real) < 1 / 10" "(1::real) / 10 < pi" using pi_ge_two by simp_all
  then have "0 < sin ((1::real) / 10)" by (rule sin_gt_zero)
  then show ?thesis
    by (simp add: bobbing_def example_defs powerUpAt_def updatePowerUps_def powerUpStep_def)
qed

lemmas oneHitLeft_defs = oneHitLeftMid_def oneHitLeft_def example_defs

lemma oneHitLeft_beforeCollisions: "beforeCollisions 16 oneHitLeft = oneHitLeftMid"
proof (rule update_staged)
  let ?s2 = "oneHitLeft\<lparr>lastTime := 16, frameCount := 1, callbackLog := [PowerUpChange []]\<rparr>"
  let ?s3 = "?s2\<lparr>enemies :=
                   [(enemyAt 100 101.28)\<lparr>e_health := 25, e_shootCooldown := 984\<rparr>]\<rparr>"
  let ?s4 = "?s3\<lparr>projectiles := [shotAt 105 103.6]\<rparr>"
  show "updatePlayer (16 - lastTime oneHitLeft)
          (oneHitLeft\<lparr>lastTime := 16, frameCount := Suc (frameCount oneHitLeft)\<rparr>) = ?s2"
    by (simp add: oneHitLeft_defs updatePlayer_def tickPowerUps_def fire_def)
  show "updateEnemies (16 - lastTime oneHitLeft) ?s2 = ?s3"
    by (simp add: oneHitLeft_defs updateEnemies_def enemyStep_def Let_def)
  show "updateProjectiles (16 - lastTime oneHitLeft) ?s3 = ?s4"
    by (simp add: oneHitLeft_defs updateProjectiles_def projectileStep_def)
  show "updatePowerUps (16 - lastTime oneHitLeft) ?s4 = ?s4"
    by (simp add: oneHitLeft_defs updatePowerUps_def)
  show "updateParticles (16 - lastTime oneHitLeft) ?s4 = ?s4"
    by (simp add: oneHitLeft_defs updateParticles_def)
  show "updateSpawning (16 - lastTime oneHitLeft) ?s4 = oneHitLeftMid"
    by (simp add: oneHitLeft_defs updateSpawning_def)
qed

lemma oneHitLeft_update:
  "score (update 16 oneHitLeft) = 100"
  "callbackLog (update 16 oneHitLeft) = [PowerUpChange [], ScoreChange 100]"
  "enemies (update 16 oneHitLeft) = []"
  "lives (update 16 oneHitLeft) = 3"
  unfolding update_beforeCollisions oneHitLeft_beforeCollisions
  by (simp_all add: cleanup_def updateGameState_def oneHitLeft_defs collision_defs)

text \<open>
  C1 as stated fails: with one life left and two enemy projectiles on an unshielded
  player, one tick fires game-over twice.
\<close>

theorem gameOver_fires_twice_in_one_tick:
  "callbackLog lastLife = [] \<and> lives lastLife = 1 \<and>
   callbackLog (update 16 lastLife) =
     [PowerUpChange [], LivesChange 0, GameOver, LivesChange (- 1), GameOver] \<and>
   count_list (callbackLog (update 16 lastLife)) GameOver = 2"
  by (simp add: lastLife_update) (simp add: lastLife_defs)

theorem gameOver_on_each_lethal_hit_witness:
  "0 < lives lastLife \<and> lives (update 16 lastLife) \<le> 0 \<and>
   (\<exists>new k. callbackLog (update 16 lastLife) = callbackLog lastLife @ new \<and>
      lives (update 16 lastLife) = lives lastLife - real k \<and>
      filter lifeEvent new = hitEvents (lives lastLife) k \<and> GameOver \<in> set new) \<and>
   0 < lives (update 16 oneHitLeft) \<and>
   (\<exists>new k. callbackLog (update 16 oneHitLeft) = callbackLog oneHitLeft @ new \<and>
      lives (update 16 oneHitLeft) = lives oneHitLeft - real k \<and>
      filter lifeEvent new = hitEvents (lives oneHitLeft) k \<and> GameOver \<notin> set new)"
proof -
  have a: "0 < lives lastLife" by (simp add: lastLife_defs)
  have b: "lives (update 16 lastLife) \<le> 0" by (simp add: lastLife_update)
  have c: "0 < lives (update 16 oneHitLeft)" by (simp add: oneHitLeft_update)
  from gameOver_on_each_lethal_hit [of 16 lastLife] a b
  have "\<exists>new k. callbackLog (update 16 lastLife) = callbackLog lastLife @ new \<and>
      lives (update 16 lastLife) = lives lastLife - real k \<and>
      filter lifeEvent new = hitEvents (lives lastLife) k \<and> GameOver \<in> set new"
    by blast
  moreover from gameOver_on_each_lethal_hit [of 16 oneHitLeft] c
  have "\<exists>new k. callbackLog (update 16 oneHitLeft) = callbackLog oneHitLeft @ new \<and>
      lives (update 16 oneHitLeft) = lives oneHitLeft - real k \<and>
      filter lifeEvent new = hitEvents (lives oneHitLeft) k \<and> GameOver \<notin> set new"
    by blast
  ultimately show ?thesis using a b c by blast
qed

theorem score_counts_destroyed_enemies_witness:
  "list_all enemyOk (enemies oneHitLeft) \<and> score oneHitLeft = 0 \<and>
   score (update 16 oneHitLeft) = 100 \<and>
   callbackLog (update 16 oneHitLeft) = [PowerUpChange [], ScoreChange 100] \<and>
   score oneHitLeft \<le> score (update 16 oneHitLeft)"
proof -
  have ok: "list_all enemyOk (enemies oneHitLeft)"
    by (simp add: oneHitLeft_defs enemyOk_def)
  have z: "score oneHitLeft = 0" by (simp add: oneHitLeft_defs)
  from score_counts_destroyed_enemies [OF ok, of 16]
  have "score oneHitLeft \<le> score (update 16 oneHitLeft)"
    unfolding Let_def by blast
  with ok z show ?thesis by (simp add: oneHitLeft_update)
qed

theorem deactivation_is_terminal_witness:
  "\<not> active (enemies wreck ! 0) \<and> \<not> active (enemies (beforeCleanup 0 wreck) ! 0) \<and>
   \<not> active (projectiles wreck ! 0) \<and> \<not> active (projectiles (beforeCleanup 0 wreck) ! 0) \<and>
   \<not> active (powerUps wreck ! 0) \<and> \<not> active (powerUps (beforeCleanup 0 wreck) ! 0) \<and>
   \<not> active (particles wreck ! 0) \<and> \<not> active (particles (beforeCleanup 0 wreck) ! 0) \<and>
   list_all active (enemies (update 0 wreck)) \<and>
   list_all active (projectiles (update 0 wreck)) \<and>
   list_all active (powerUps (update 0 wreck)) \<and>
   list_all active (particles (update 0 wreck))"
proof -
  have f: "length (enemies wreck) = 1" "\<not> active (enemies wreck ! 0)"
    "length (projectiles wreck) = 1" "\<not> active (projectiles wreck ! 0)"
    "length (powerUps wreck) = 1" "\<not> active (powerUps wreck ! 0)"
    "length (particles wreck) = 1" "\<not> active (particles wreck ! 0)"
    by (simp_all add: wreck_def example_defs powerUpAt_def)
  note t = deactivation_is_terminal [of 0 wreck]
  then have "stays (enemies wreck) (enemies (beforeCleanup 0 wreck))"
    "stays (projectiles wreck) (projectiles (beforeCleanup 0 wreck))"
    "stays (powerUps wreck) (powerUps (beforeCleanup 0 wreck))"
    "stays (particles wreck) (particles (beforeCleanup 0 wreck))"
    by (simp_all add: entitiesStay_def)
  with f have "\<not> active (enemies (beforeCleanup 0 wreck) ! 0)"
    "\<not> active (projectiles (beforeCleanup 0 wreck) ! 0)"
    "\<not> active (powerUps (beforeCleanup 0 wreck) ! 0)"
    "\<not> active (particles (beforeCleanup 0 wreck) ! 0)"
    by (auto simp: stays_def)
  with f t show ?thesis by blast
qed

text \<open>
  C3 as stated fails for a negative \<open>deltaTime\<close> and, for power-ups, at zero: the
  engine has no guard on \<open>deltaTime\<close>. One tick whose timestamp is 1000 behind the last
  one (\<open>deltaTime = -1000\<close>) moves an enemy with downward velocity 80 from \<open>y = 100\<close>
  up to \<open>y = 20\<close>, and at \<open>deltaTime = 0\<close> an active power-up still bobs by
  \<open>sin (frameCount * 0.1) * 0.5\<close>.
\<close>

theorem negative_delta_moves_enemies:
  "lastTime backwards = 2000 \<and>
   map position (enemies backwards) = [\<lparr>vec_x = 100, vec_y = 100\<rparr>] \<and>
   map position (enemies (update 1000 backwards)) = [\<lparr>vec_x = 100, vec_y = 20\<rparr>] \<and>
   vec_y (position (powerUps (updatePowerUps 0 bobbing) ! 0)) \<noteq>
     vec_y (position (powerUps bobbing ! 0))"
  by (simp add: backwards_update bobbing_moves) (simp add: backwards_defs)

text \<open>
  C3, as the code has it. \<open>update\<close> is a total function: no operation of the engine can
  throw. At \<open>deltaTime = 0\<close> the integration steps leave the positions of enemies,
  projectiles and particles as they are and the player's only clamped to the screen,
  also over the whole tick (power-ups bob by frame count); nothing is promised for a
  negative \<open>deltaTime\<close>, which the engine integrates like any other. For every \<open>deltaTime\<close> the
  player phase still calls the power-up callback and fires when \<open>shoot\<close> is held and the
  cooldown has run out, and after every tick the player's shoot cooldown is at least 0,
  as is every enemy's when \<open>Math.random\<close> returns no negative number.
\<close>

theorem zero_delta_keeps_positions_cooldowns_floor:
  "map position (enemies (updateEnemies 0 s)) = map position (enemies s) \<and>
   map position (projectiles (updateProjectiles 0 s)) = map position (projectiles s) \<and>
   map position (particles (updateParticles 0 s)) = map position (particles s) \<and>
   position (player (updatePlayer 0 s)) =
     (position (player s))
       \<lparr>vec_x := max (vec_x (obj_size (player s)) / 2)
                  (min (canvasWidth s - vec_x (obj_size (player s)) / 2)
                     (vec_x (position (player s))))\<rparr> \<and>
   position (player (update (lastTime s) s)) =
     (position (player s))
       \<lparr>vec_x := max (vec_x (obj_size (player s)) / 2)
                  (min (canvasWidth s - vec_x (obj_size (player s)) / 2)
                     (vec_x (position (player s))))\<rparr> \<and>
   callbackLog (updatePlayer deltaTime s) =
     callbackLog s @
       [PowerUpChange (map (\<lambda>kv. (fst kv, snd kv / 1000))
          (p_powerUps (player (updatePlayer deltaTime s))))] \<and>
   (in_shoot (input s) \<and> p_shootCooldown (player s) \<le> deltaTime \<longrightarrow>
      length (projectiles s) < length (projectiles (updatePlayer deltaTime s))) \<and>
   0 \<le> p_shootCooldown (player (update timestamp s)) \<and>
   ((\<forall>n. 0 \<le> randomSource s n) \<longrightarrow>
      list_all (\<lambda>e. 0 \<le> e_shootCooldown e) (enemies (update timestamp s)))"
proof -
  have "position (player (update (lastTime s) s)) =
     (position (player s))
       \<lparr>vec_x := max (vec_x (obj_size (player s)) / 2)
                  (min (canvasWidth s - vec_x (obj_size (player s)) / 2)
                     (vec_x (position (player s))))\<rparr>"
    by (simp add: update_player_position updatePlayer_zero)
  moreover
  have "map position (projectiles (updateProjectiles 0 s)) = map position (projectiles s)"
    by (simp add: updateProjectiles_def projectileStep_zero)
  moreover have "map position (particles (updateParticles 0 s)) = map position (particles s)"
    by (simp add: updateParticles_def particleStep_zero)
  ultimately show ?thesis
    using updateEnemies_zero [of s] updatePlayer_zero [of s]
      updatePlayer_callbackLog [of deltaTime s] updatePlayer_fires [of s deltaTime]
      update_player_cooldown [of timestamp s] update_coolOk [of s timestamp]
    by blast
qed

theorem zero_delta_keeps_positions_cooldowns_floor_witness:
  "in_shoot (input trigger) \<and> p_shootCooldown (player trigger) \<le> 0 \<and>
   (\<forall>n. 0 \<le> randomSource trigger n) \<and>
   length (projectiles trigger) < length (projectiles (updatePlayer 0 trigger)) \<and>
   list_all (\<lambda>e. 0 \<le> e_shootCooldown e) (enemies (update 0 trigger))"
proof -
  have f: "in_shoot (input trigger)" "p_shootCooldown (player trigger) \<le> 0"
    "\<forall>n. 0 \<le> randomSource trigger n"
    by (simp_all add: trigger_def example_defs)
  from zero_delta_keeps_positions_cooldowns_floor [of trigger 0 0] f show ?thesis by blast
qed

section \<open>The countdown of the stored durations\<close>

lemma mapDelete_concat:
  "mapDelete k m = concat (map (\<lambda>kv. if fst kv = k then [] else [kv]) m)"
  by (induction m) (simp_all add: mapDelete_def)

lemma mapSet_map:
  "distinct (map fst m) \<Longrightarrow> k \<in> fst ` set m \<Longrightarrow>
   mapSet k v m = concat (map (\<lambda>kv. if fst kv = k then [(k, v)] else [kv]) m)"
proof (induction m)
  case Nil
  then show ?case by simp
next
  case (Cons a m)
  show ?case
  proof (cases "fst a = k")
    case True
    with Cons.prems have "k \<notin> fst ` set m" by auto
    then have "concat (map (\<lambda>kv. if fst kv = k then [(k, v)] else [kv]) m) = m"
      by (induction m) auto
    with True show ?thesis by simp
  next
    case False
    with Cons show ?thesis by auto
  qed
qed

lemma tickPowerUp_concat:
  assumes "distinct (map fst m)" and "k \<in> fst ` set m"
  shows "tickPowerUp deltaTime (k, t) m =
     concat (map (\<lambda>kv. if fst kv = k
                        then (if t - deltaTime \<le> 0 then [] else [(k, t - deltaTime)])
                        else [kv]) m)"
proof (cases "t - deltaTime \<le> 0")
  case True
  then show ?thesis by (simp add: tickPowerUp_def mapDelete_concat)
next
  case False
  then show ?thesis using mapSet_map [OF assms] by (simp add: tickPowerUp_def)
qed

lemma keys_concat_tick:
  "fst ` set (concat (map (\<lambda>kv. if fst kv = k then (if c then [] else [(k, v)]) else [kv]) m))
     = (if c then fst ` set m - {k} else fst ` set m)"
  by (induction m) auto

lemma map_fst_concat_tick:
  "map fst (concat (map (\<lambda>kv. if fst kv = k then (if c then [] else [(k, v)]) else [kv]) m))
     = (if c then filter (\<lambda>x. x \<noteq> k) (map fst m) else map fst m)"
  by (induction m) auto

lemma fold_tickPowerUp:
  assumes "distinct (map fst xs)" and "distinct (map fst m)" and "fst ` set xs \<subseteq> fst ` set m"
  shows "fold (tickPowerUp deltaTime) xs m = concat (map (tickEntry deltaTime xs) m)"
  using assms
proof (induction xs arbitrary: m)
  case Nil
  show ?case by (simp add: tickEntry_def)
next
  case (Cons x xs)
  obtain k t where x: "x = (k, t)" by (cases x)
  let ?c = "t - deltaTime \<le> 0"
  let ?m1 = "concat (map (\<lambda>kv. if fst kv = k
                        then (if ?c then [] else [(k, t - deltaTime)])
                        else [kv]) m)"
  from Cons.prems x have km: "k \<in> fst ` set m" and kx: "k \<notin> fst ` set xs" by auto
  have m1: "tickPowerUp deltaTime x m = ?m1"
    unfolding x by (rule tickPowerUp_concat [OF Cons.prems(2) km])
  have d1: "distinct (map fst ?m1)"
    using Cons.prems(2) by (simp add: map_fst_concat_tick)
  from Cons.prems(3) x have "fst ` set xs \<subseteq> fst ` set m" by simp
  with kx have "fst ` set xs \<subseteq> fst ` set m - {k}" by blast
  then have s1: "fst ` set xs \<subseteq> fst ` set ?m1"
    unfolding keys_concat_tick by (simp split: if_splits) blast
  from Cons.prems(1) have dx: "distinct (map fst xs)" by simp
  have "fold (tickPowerUp deltaTime) (x # xs) m = fold (tickPowerUp deltaTime) xs ?m1"
    by (simp add: m1)
  also have "\<dots> = concat (map (tickEntry deltaTime xs) ?m1)"
    by (rule Cons.IH [OF dx d1 s1])
  also have "\<dots> = concat (map (tickEntry deltaTime (x # xs)) m)"
  proof -
    from kx have n: "map_of xs k = None" by (simp add: map_of_eq_None_iff)
    show ?thesis
      unfolding x by (induction m) (auto simp: tickEntry_def n)
  qed
  finally show ?case .
qed

lemma tickPowerUps_distinct:
  assumes "distinct (map fst m)"
  shows "tickPowerUps deltaTime m =
     map (\<lambda>kv. (fst kv, snd kv - deltaTime)) (filter (\<lambda>kv. 0 < snd kv - deltaTime) m)"
proof -
  have "tickPowerUps deltaTime m = concat (map (tickEntry deltaTime m) m)"
    unfolding tickPowerUps_def by (rule fold_tickPowerUp [OF assms assms]) simp
  also have "\<dots> = concat (map (\<lambda>kv. if snd kv - deltaTime \<le> 0 then []
                                      else [(fst kv, snd kv - deltaTime)]) m)"
  proof (rule arg_cong [where f = concat], rule map_cong [OF refl])
    fix kv assume "kv \<in> set m"
    with assms have "map_of m (fst kv) = Some (snd kv)" by simp
    then show "tickEntry deltaTime m kv =
        (if snd kv - deltaTime \<le> 0 then [] else [(fst kv, snd kv - deltaTime)])"
      by (simp add: tickEntry_def)
  qed
  also have "\<dots> = map (\<lambda>kv. (fst kv, snd kv - deltaTime))
                      (filter (\<lambda>kv. 0 < snd kv - deltaTime) m)"
    by (induction m) (auto simp: not_le)
  finally show ?thesis .
qed

lemma mapGet_ticked:
  assumes "distinct (map fst m)"
  shows "mapGet (tickPowerUps deltaTime m) k =
     (case mapGet m k of
        None \<Rightarrow> None
      | Some t \<Rightarrow> (if t - deltaTime \<le> 0 then None else Some (t - deltaTime)))"
  unfolding tickPowerUps_distinct [OF assms] mapGet_def
  using assms by (induction m) (auto simp: not_le map_of_eq_None_iff image_iff)

lemma tickPowerUps_keys:
  assumes "distinct (map fst m)"
  shows "distinct (map fst (tickPowerUps deltaTime m))"
  unfolding tickPowerUps_distinct [OF assms]
  using assms by (simp add: o_def distinct_map_filter)

lemma fold_tickPowerUps:
  assumes "distinct (map fst m)"
  shows "distinct (map fst (fold tickPowerUps ds m)) \<and>
         mapGet (fold tickPowerUps ds m) k =
           (case mapGet m k of None \<Rightarrow> None | Some t \<Rightarrow> countdown t ds)"
  using assms
proof (induction ds arbitrary: m)
  case Nil
  then show ?case by (simp split: option.splits)
next
  case (Cons d ds)
  note ih = Cons.IH [OF tickPowerUps_keys [OF Cons.prems, of d]]
  with mapGet_ticked [OF Cons.prems, of d k] show ?case
    by (simp split: option.splits)
qed

lemma countdown_sum:
  "0 < t \<Longrightarrow> \<forall>d\<in>set ds. 0 \<le> d \<Longrightarrow>
   countdown t ds = (if sum_list ds < t then Some (t - sum_list ds) else None)"
proof (induction ds arbitrary: t)
  case Nil
  then show ?case by simp
next
  case (Cons d ds)
  from Cons.prems have nn: "0 \<le> sum_list ds" by (simp add: sum_list_nonneg)
  show ?case
  proof (cases "t - d \<le> 0")
    case True
    with nn show ?thesis by simp
  next
    case False
    then have "0 < t - d" by simp
    from Cons.IH [OF this] Cons.prems(2) False show ?thesis
      by (simp add: algebra_simps)
  qed
qed

lemma mapHas_mapGet: "mapHas k m = (mapGet m k \<noteq> None)"
  by (simp add: mapHas_def mapGet_def map_of_eq_None_iff)

lemma updatePlayer_powerUps:
  "p_powerUps (player (updatePlayer deltaTime s)) = tickPowerUps deltaTime (p_powerUps (player s))"
  by (simp add: updatePlayer_def Let_def fire_def)

lemma update_powerUps:
  "p_powerUps (player (update timestamp s)) =
     fold pickUp
       (filter (picked (player (beforeCollisions timestamp s)))
          (powerUps (beforeCollisions timestamp s)))
       (tickPowerUps (timestamp - lastTime s) (p_powerUps (player s)))"
proof -
  let ?dt = "timestamp - lastTime s"
  let ?s2 = "updatePlayer ?dt (s\<lparr>lastTime := timestamp, frameCount := Suc (frameCount s)\<rparr>)"
  have "player (beforeCollisions timestamp s) = player ?s2"
    by (simp add: beforeCollisions_def Let_def updateSpawning_def spawnEnemy_def
        spawnPowerUp_def random_def updateParticles_def updatePowerUps_def
        updateProjectiles_def)
  then have "p_powerUps (player (beforeCollisions timestamp s)) =
      tickPowerUps ?dt (p_powerUps (player s))"
    by (simp add: updatePlayer_powerUps)
  then show ?thesis
    using handleCollisions_pickup [of "beforeCollisions timestamp s"]
    by (simp add: update_beforeCollisions cleanup_def updateGameState_def Let_def fire_def)
qed

lemma mapSet_keys:
  "map fst (mapSet k v m) = (if k \<in> fst ` set m then map fst m else map fst m @ [k])"
  by (induction m) auto

lemma pickUp_keys: "distinct (map fst m) \<Longrightarrow> distinct (map fst (pickUp pu m))"
  by (simp add: pickUp_def mapSet_keys)

lemma fold_pickUp_keys: "distinct (map fst m) \<Longrightarrow> distinct (map fst (fold pickUp pus m))"
  by (induction pus arbitrary: m) (simp_all add: pickUp_keys)

lemma update_keys:
  "distinct (map fst (p_powerUps (player s))) \<Longrightarrow>
   distinct (map fst (p_powerUps (player (update timestamp s))))"
  unfolding update_powerUps by (intro fold_pickUp_keys tickPowerUps_keys)

lemma reachable_keys: "reachable s \<Longrightarrow> distinct (map fst (p_powerUps (player s)))"
proof (induction rule: reachable.induct)
  case (start w h rnd)
  show ?case by (simp add: constructor_def)
next
  case (tick s timestamp)
  from tick.IH show ?case by (rule update_keys)
next
  case (key s a pressed)
  then show ?case by (cases a) simp_all
next
  case (restart s)
  show ?case by (simp add: reset_def fire_def)
next
  case (frame s)
  then show ?case by (simp add: render_def)
qed

section \<open>The clock and the power-up spawn timer through a tick\<close>

lemma enemyStep_timers [simp]:
  "lastTime (snd (enemyStep dt e t)) = lastTime t"
  "powerUpSpawnTimer (snd (enemyStep dt e t)) = powerUpSpawnTimer t"
  by (simp_all add: enemyStep_def Let_def random_def createEnemyProjectile_def split_beta)

lemma updateEnemies_timers [simp]:
  "lastTime (updateEnemies dt s) = lastTime s"
  "powerUpSpawnTimer (updateEnemies dt s) = powerUpSpawnTimer s"
  by (simp_all add: updateEnemies_def split_beta forEach_preserve)

lemma hitEnemy_timers [simp]:
  "lastTime (snd (snd (hitEnemy e pt))) = lastTime (snd pt)"
  "powerUpSpawnTimer (snd (snd (hitEnemy e pt))) = powerUpSpawnTimer (snd pt)"
  by (simp_all add: hitEnemy_def Let_def createParticles_eq fire_def)

lemma projectileVsEnemies_timers [simp]:
  "lastTime (snd (snd (projectileVsEnemies p et))) = lastTime (snd et)"
  "powerUpSpawnTimer (snd (snd (projectileVsEnemies p et))) = powerUpSpawnTimer (snd et)"
  by (simp_all add: projectileVsEnemies_def split_beta
      forEach_preserve [where g = "\<lambda>pt. lastTime (snd pt)"]
      forEach_preserve [where g = "\<lambda>pt. powerUpSpawnTimer (snd pt)"])

lemma pass1_timers [simp]:
  "lastTime (pass1 s) = lastTime s"
  "powerUpSpawnTimer (pass1 s) = powerUpSpawnTimer s"
  by (simp_all add: pass1_def split_beta
      forEach_preserve [where g = "\<lambda>pt. lastTime (snd pt)"]
      forEach_preserve [where g = "\<lambda>pt. powerUpSpawnTimer (snd pt)"])

lemma damagePlayer_timers [simp]:
  "lastTime (damagePlayer col n t) = lastTime t"
  "powerUpSpawnTimer (damagePlayer col n t) = powerUpSpawnTimer t"
  by (simp_all add: damagePlayer_def Let_def createParticles_eq fire_def)

lemma pass2_timers [simp]:
  "lastTime (pass2 s) = lastTime s"
  "powerUpSpawnTimer (pass2 s) = powerUpSpawnTimer s"
  by (simp_all add: pass2_def split_beta forEach_preserve projectileVsPlayer_def)

lemma pass3_timers [simp]:
  "lastTime (pass3 s) = lastTime s"
  "powerUpSpawnTimer (pass3 s) = powerUpSpawnTimer s"
  by (simp_all add: pass3_def split_beta forEach_preserve playerVsEnemy_def)

lemma pass4_timers [simp]:
  "lastTime (pass4 s) = lastTime s"
  "powerUpSpawnTimer (pass4 s) = powerUpSpawnTimer s"
  by (simp_all add: pass4_def split_beta forEach_preserve playerVsPowerUp_def Let_def
      createParticles_eq)

lemma handleCollisions_timers [simp]:
  "lastTime (handleCollisions s) = lastTime s"
  "powerUpSpawnTimer (handleCollisions s) = powerUpSpawnTimer s"
  by (simp_all add: handleCollisions_def)

lemma updatePlayer_timers [simp]:
  "lastTime (updatePlayer dt s) = lastTime s"
  "powerUpSpawnTimer (updatePlayer dt s) = powerUpSpawnTimer s"
  by (simp_all add: updatePlayer_def Let_def fire_def createPlayerProjectile_def)

lemma beforeCollisions_lastTime [simp]: "lastTime (beforeCollisions timestamp s) = timestamp"
  by (simp add: beforeCollisions_def Let_def updateSpawning_def spawnEnemy_def
      spawnPowerUp_def random_def updateParticles_def updatePowerUps_def updateProjectiles_def)

lemma update_lastTime [simp]: "lastTime (update timestamp s) = timestamp"
  by (simp add: update_beforeCollisions cleanup_def updateGameState_def Let_def fire_def)

lemma beforeCollisions_player:
  "player (beforeCollisions timestamp s) =
     player (updatePlayer (timestamp - lastTime s)
       (s\<lparr>lastTime := timestamp, frameCount := Suc (frameCount s)\<rparr>))"
  by (simp add: beforeCollisions_def Let_def updateSpawning_def spawnEnemy_def
      spawnPowerUp_def random_def updateParticles_def updatePowerUps_def updateProjectiles_def)

lemma beforeCollisions_powerUps:
  assumes "0 < powerUpSpawnTimer s - (timestamp - lastTime s)"
  shows "powerUps (beforeCollisions timestamp s) =
           map (powerUpStep (timestamp - lastTime s) (Suc (frameCount s))) (powerUps s)"
    and "powerUpSpawnTimer (beforeCollisions timestamp s) =
           powerUpSpawnTimer s - (timestamp - lastTime s)"
  using assms
  by (simp_all add: beforeCollisions_def Let_def updateSpawning_def spawnEnemy_def
      random_def updateParticles_def updatePowerUps_def updateProjectiles_def)

lemma update_no_powerUps:
  assumes "powerUps s = []" "0 < powerUpSpawnTimer s - (timestamp - lastTime s)"
  shows "powerUps (beforeCollisions timestamp s) = []"
    and "powerUps (update timestamp s) = []"
    and "powerUpSpawnTimer (update timestamp s) = powerUpSpawnTimer s - (timestamp - lastTime s)"
proof -
  from beforeCollisions_powerUps [OF assms(2)] assms(1)
  show b: "powerUps (beforeCollisions timestamp s) = []" by simp
  with handleCollisions_pickup [of "beforeCollisions timestamp s"]
  show "powerUps (update timestamp s) = []"
    by (simp add: update_beforeCollisions cleanup_def updateGameState_def Let_def fire_def)
  from beforeCollisions_powerUps(2) [OF assms(2)]
  show "powerUpSpawnTimer (update timestamp s) = powerUpSpawnTimer s - (timestamp - lastTime s)"
    by (simp add: update_beforeCollisions cleanup_def updateGameState_def Let_def fire_def)
qed

section \<open>The stored duration over several ticks\<close>

lemma update_mapGet:
  assumes "distinct (map fst (p_powerUps (player s)))"
  shows "mapGet (p_powerUps (player (update timestamp s))) k =
     (case filter (\<lambda>pu. pu_type pu = k)
             (filter (\<lambda>pu. active pu \<and>
                            checkCollision (player (beforeCollisions timestamp s)) pu)
                (powerUps (beforeCollisions timestamp s))) of
        [] \<Rightarrow> (case mapGet (p_powerUps (player s)) k of
                 None \<Rightarrow> None
               | Some t \<Rightarrow> (if t - (timestamp - lastTime s) \<le> 0 then None
                            else Some (t - (timestamp - lastTime s))))
      | x # xs \<Rightarrow> Some (duration (last (x # xs))))"
proof -
  have p: "picked (player (beforeCollisions timestamp s)) =
      (\<lambda>pu. active pu \<and> checkCollision (player (beforeCollisions timestamp s)) pu)"
    by (rule ext) (simp add: picked_def)
  show ?thesis
    unfolding update_powerUps mapGet_fold_pickUp mapGet_ticked [OF assms] p ..
qed

lemma run_mapGet:
  assumes "distinct (map fst (p_powerUps (player s)))" "noPickup k ts s"
  shows "mapGet (p_powerUps (player (fold update ts s))) k =
     (case mapGet (p_powerUps (player s)) k of
        None \<Rightarrow> None
      | Some t \<Rightarrow> countdown t (deltas (lastTime s) ts))"
  using assms
proof (induction ts arbitrary: s)
  case Nil
  show ?case by (simp split: option.splits)
next
  case (Cons t ts)
  from Cons.prems(2) have n: "noPickup k ts (update t s)" by simp
  from Cons.prems(2) update_mapGet [OF Cons.prems(1), of t k]
  have u: "mapGet (p_powerUps (player (update t s))) k =
      (case mapGet (p_powerUps (player s)) k of
         None \<Rightarrow> None
       | Some d \<Rightarrow> (if d - (t - lastTime s) \<le> 0 then None else Some (d - (t - lastTime s))))"
    by simp
  from Cons.IH [OF update_keys [OF Cons.prems(1)] n] u show ?case
    by (simp split: option.splits)
qed

lemma update_powerUps_after:
  "powerUps (update timestamp s) =
     filter (\<lambda>pu. active pu \<and> \<not> checkCollision (player (beforeCollisions timestamp s)) pu)
       (powerUps (beforeCollisions timestamp s))"
  "powerUpSpawnTimer (update timestamp s) = powerUpSpawnTimer (beforeCollisions timestamp s)"
proof -
  have "filter active (map (\<lambda>pu. if picked p pu then pu\<lparr>active := False\<rparr> else pu) xs) =
      filter (\<lambda>pu. active pu \<and> \<not> checkCollision p pu) xs" for p xs
    by (induction xs) (simp_all add: picked_def)
  with handleCollisions_pickup [of "beforeCollisions timestamp s"]
  show "powerUps (update timestamp s) =
     filter (\<lambda>pu. active pu \<and> \<not> checkCollision (player (beforeCollisions timestamp s)) pu)
       (powerUps (beforeCollisions timestamp s))"
    by (simp add: update_beforeCollisions cleanup_def updateGameState_def Let_def fire_def)
  show "powerUpSpawnTimer (update timestamp s) = powerUpSpawnTimer (beforeCollisions timestamp s)"
    by (simp add: update_beforeCollisions cleanup_def updateGameState_def Let_def fire_def)
qed

lemma powerUpStep_active:
  assumes "active pu" "0 < duration pu - deltaTime"
  shows "active (powerUpStep deltaTime n pu)"
    and "pu_type (powerUpStep deltaTime n pu) = pu_type pu"
    and "duration (powerUpStep deltaTime n pu) = duration pu - deltaTime"
    and "obj_size (powerUpStep deltaTime n pu) = obj_size pu"
    and "vec_x (position (powerUpStep deltaTime n pu)) = vec_x (position pu)"
    and "\<bar>vec_y (position (powerUpStep deltaTime n pu)) - vec_y (position pu)\<bar> \<le> 1 / 2"
  using assms abs_sin_le_one [of "real n * 0.1"]
  by (simp_all add: powerUpStep_def Let_def abs_if split: if_splits)

text \<open>
  C6. Every active power-up that overlaps the player at collision resolution is
  deactivated, with its duration untouched, and the player's power-up map then holds,
  for each kind, the duration of the last such power-up of that kind in the list (it
  overwrites whatever the map held), or what it held before when there is none. The
  duration is the remaining one: a power-up is spawned with 8000 and every
  \<open>updatePowerUps\<close> takes \<open>deltaTime\<close> from the duration of each active power-up.

  The stored duration is then the length of the effect. The map has one entry for a
  kind; \<open>updatePlayer\<close> takes \<open>deltaTime\<close> from every entry and removes the entries that
  this brings to zero or below. Over a whole \<open>update\<close> an entry is counted down and then
  overwritten by a pickup of that kind, if there is one; over a run of ticks without
  such a pickup the entry follows \<open>countdown\<close>: with a positive stored duration and
  deltas that are not negative, it is there exactly as long as the deltas add up to
  less than the stored duration. \<open>mapHas\<close>, the test the code makes for an effect, holds
  exactly when there is an entry.
\<close>

theorem pickup_transfers_remaining_duration:
  "length (powerUps (handleCollisions s)) = length (powerUps s) \<and>
   (\<forall>i<length (powerUps s).
      active (powerUps s ! i) \<and> checkCollision (player s) (powerUps s ! i) \<longrightarrow>
      powerUps (handleCollisions s) ! i = (powerUps s ! i)\<lparr>active := False\<rparr>) \<and>
   (\<forall>k. mapGet (p_powerUps (player (handleCollisions s))) k =
      (case filter (\<lambda>pu. pu_type pu = k)
              (filter (\<lambda>pu. active pu \<and> checkCollision (player s) pu) (powerUps s)) of
         [] \<Rightarrow> mapGet (p_powerUps (player s)) k
       | x # xs \<Rightarrow> Some (duration (last (x # xs))))) \<and>
   duration (last (powerUps (spawnPowerUp s))) = 8000 \<and>
   map duration (powerUps (updatePowerUps deltaTime s)) =
     map (\<lambda>pu. if active pu then duration pu - deltaTime else duration pu) (powerUps s) \<and>
   (reachable s \<longrightarrow> distinct (map fst (p_powerUps (player s)))) \<and>
   (distinct (map fst (p_powerUps (player s))) \<longrightarrow>
      p_powerUps (player (updatePlayer deltaTime s)) =
        map (\<lambda>kv. (fst kv, snd kv - deltaTime))
          (filter (\<lambda>kv. 0 < snd kv - deltaTime) (p_powerUps (player s))) \<and>
      distinct (map fst (p_powerUps (player (update timestamp s)))) \<and>
      mapGet (p_powerUps (player (update timestamp s))) k =
        (case filter (\<lambda>pu. pu_type pu = k)
                (filter (\<lambda>pu. active pu \<and>
                               checkCollision (player (beforeCollisions timestamp s)) pu)
                   (powerUps (beforeCollisions timestamp s))) of
           [] \<Rightarrow> (case mapGet (p_powerUps (player s)) k of
                    None \<Rightarrow> None
                  | Some t \<Rightarrow> (if t - (timestamp - lastTime s) \<le> 0 then None
                               else Some (t - (timestamp - lastTime s))))
         | x # xs \<Rightarrow> Some (duration (last (x # xs)))) \<and>
      (noPickup k ts s \<longrightarrow>
         mapGet (p_powerUps (player (fold update ts s))) k =
           (case mapGet (p_powerUps (player s)) k of
              None \<Rightarrow> None
            | Some t \<Rightarrow> countdown t (deltas (lastTime s) ts)))) \<and>
   (0 < t \<and> (\<forall>d\<in>set ds. 0 \<le> d) \<longrightarrow>
      countdown t ds = (if sum_list ds < t then Some (t - sum_list ds) else None)) \<and>
   mapHas k m = (mapGet m k \<noteq> None)"
proof -
  note h = handleCollisions_pickup [of s]
  have p: "picked (player s) = (\<lambda>pu. active pu \<and> checkCollision (player s) pu)"
    by (rule ext) (simp add: picked_def)
  from h have a: "length (powerUps (handleCollisions s)) = length (powerUps s)" by simp
  from h have b: "\<forall>i<length (powerUps s).
      active (powerUps s ! i) \<and> checkCollision (player s) (powerUps s ! i) \<longrightarrow>
      powerUps (handleCollisions s) ! i = (powerUps s ! i)\<lparr>active := False\<rparr>"
    by (simp add: picked_def)
  from h have c: "\<forall>k. mapGet (p_powerUps (player (handleCollisions s))) k =
      (case filter (\<lambda>pu. pu_type pu = k)
              (filter (\<lambda>pu. active pu \<and> checkCollision (player s) pu) (powerUps s)) of
         [] \<Rightarrow> mapGet (p_powerUps (player s)) k
       | x # xs \<Rightarrow> Some (duration (last (x # xs))))"
    by (simp add: mapGet_fold_pickUp p)
  have d: "duration (last (powerUps (spawnPowerUp s))) = 8000"
    by (simp add: spawnPowerUp_def random_def Let_def)
  have e: "map duration (powerUps (updatePowerUps deltaTime s)) =
     map (\<lambda>pu. if active pu then duration pu - deltaTime else duration pu) (powerUps s)"
    by (simp add: updatePowerUps_def powerUpStep_def Let_def)
  have f: "reachable s \<longrightarrow> distinct (map fst (p_powerUps (player s)))"
    by (simp add: reachable_keys)
  have g: "p_powerUps (player (updatePlayer deltaTime s)) =
        map (\<lambda>kv. (fst kv, snd kv - deltaTime))
          (filter (\<lambda>kv. 0 < snd kv - deltaTime) (p_powerUps (player s)))"
    if "distinct (map fst (p_powerUps (player s)))"
    unfolding updatePlayer_powerUps by (rule tickPowerUps_distinct [OF that])
  have i: "0 < t \<and> (\<forall>d\<in>set ds. 0 \<le> d) \<longrightarrow>
      countdown t ds = (if sum_list ds < t then Some (t - sum_list ds) else None)"
    using countdown_sum [of t ds] by blast
  have j: "mapHas k m = (mapGet m k \<noteq> None)" by (rule mapHas_mapGet)
  from a b c d e f g update_keys [of s timestamp] update_mapGet [of s timestamp k]
    run_mapGet [of s k ts] i j
  show ?thesis by blast
qed

theorem pickup_transfers_remaining_duration_witness:
  "active (powerUps nearlyExpired ! 0) \<and>
   checkCollision (player nearlyExpired) (powerUps nearlyExpired ! 0) \<and>
   duration (powerUps nearlyExpired ! 0) = 500 \<and>
   mapGet (p_powerUps (player nearlyExpired)) shield = Some 3000 \<and>
   \<not> active (powerUps (handleCollisions nearlyExpired) ! 0) \<and>
   mapGet (p_powerUps (player (handleCollisions nearlyExpired))) shield = Some 500 \<and>
   distinct (map fst (p_powerUps (player (handleCollisions nearlyExpired)))) \<and>
   p_powerUps (player (updatePlayer 16 (handleCollisions nearlyExpired))) = [(shield, 484)] \<and>
   p_powerUps (player (updatePlayer 500 (handleCollisions nearlyExpired))) = [] \<and>
   reachable (update 16 (constructor 800 600 (\<lambda>n. 0))) \<and>
   distinct (map fst (p_powerUps (player (update 16 (constructor 800 600 (\<lambda>n. 0)))))) \<and>
   distinct (map fst (p_powerUps (player approaching))) \<and>
   mapGet (p_powerUps (player approaching)) shield = Some 3000 \<and>
   duration (powerUps approaching ! 0) = 516 \<and>
   mapGet (p_powerUps (player (update 16 approaching))) shield = Some 500 \<and>
   noPickup shield [32, 48] (update 16 approaching) \<and>
   mapGet (p_powerUps (player (fold update [32, 48] (update 16 approaching)))) shield = Some 468 \<and>
   mapHas shield (p_powerUps (player (fold update [32, 48] (update 16 approaching)))) \<and>
   noPickup shield [32, 516] (update 16 approaching) \<and>
   mapGet (p_powerUps (player (fold update [32, 516] (update 16 approaching)))) shield = None \<and>
   \<not> mapHas shield (p_powerUps (player (fold update [32, 516] (update 16 approaching)))) \<and>
   countdown 500 [16, 16] = Some 468 \<and>
   countdown 500 [16, 484] = None"
proof -
  let ?s1 = "update 16 approaching"
  let ?s2 = "update 32 ?s1"
  let ?pu = "powerUpStep 16 (Suc 0) (powerUpAt shield 410 530 516)"
  have f: "length (powerUps nearlyExpired) = 1" "active (powerUps nearlyExpired ! 0)"
    "checkCollision (player nearlyExpired) (powerUps nearlyExpired ! 0)"
    "duration (powerUps nearlyExpired ! 0) = 500"
    "mapGet (p_powerUps (player nearlyExpired)) shield = Some 3000"
    "filter (\<lambda>pu. pu_type pu = shield)
       (filter (\<lambda>pu. active pu \<and> checkCollision (player nearlyExpired) pu)
          (powerUps nearlyExpired)) = [powerUpAt shield 410 530 500]"
    by (simp_all add: nearlyExpired_def example_defs powerUpAt_def checkCollision_def mapGet_def)
  note t = pickup_transfers_remaining_duration [where s = nearlyExpired]
  from t f(1,2,3) have "powerUps (handleCollisions nearlyExpired) ! 0 =
      (powerUps nearlyExpired ! 0)\<lparr>active := False\<rparr>" by simp
  then have a: "\<not> active (powerUps (handleCollisions nearlyExpired) ! 0)" by simp
  from t have "mapGet (p_powerUps (player (handleCollisions nearlyExpired))) shield =
      (case filter (\<lambda>pu. pu_type pu = shield)
              (filter (\<lambda>pu. active pu \<and> checkCollision (player nearlyExpired) pu)
                 (powerUps nearlyExpired)) of
         [] \<Rightarrow> mapGet (p_powerUps (player nearlyExpired)) shield
       | x # xs \<Rightarrow> Some (duration (last (x # xs))))" by blast
  then have b: "mapGet (p_powerUps (player (handleCollisions nearlyExpired))) shield = Some 500"
    by (simp only: f(6)) (simp add: powerUpAt_def)
  txt \<open>the entry written by the pickup, counted down by \<open>updatePlayer\<close>\<close>
  have h: "p_powerUps (player (handleCollisions nearlyExpired)) = [(shield, 500)]"
    using handleCollisions_pickup [of nearlyExpired]
    by (simp add: nearlyExpired_def example_defs powerUpAt_def checkCollision_def picked_def
        pickUp_def)
  then have hd: "distinct (map fst (p_powerUps (player (handleCollisions nearlyExpired))))"
    by simp
  from pickup_transfers_remaining_duration
    [where s = "handleCollisions nearlyExpired" and deltaTime = 16] hd
  have c: "p_powerUps (player (updatePlayer 16 (handleCollisions nearlyExpired))) =
      [(shield, 484)]"
    by (simp add: h)
  from pickup_transfers_remaining_duration
    [where s = "handleCollisions nearlyExpired" and deltaTime = 500] hd
  have d: "p_powerUps (player (updatePlayer 500 (handleCollisions nearlyExpired))) = []"
    by (simp add: h)
  txt \<open>a state that the program reaches\<close>
  have r: "reachable (update 16 (constructor 800 600 (\<lambda>n. 0)))"
    by (intro reachable.tick reachable.start)
  with pickup_transfers_remaining_duration
    [where s = "update 16 (constructor 800 600 (\<lambda>n. 0))"]
  have rd: "distinct (map fst (p_powerUps (player (update 16 (constructor 800 600 (\<lambda>n. 0))))))"
    by blast
  txt \<open>the tick in which the power-up is picked up\<close>
  have g: "distinct (map fst (p_powerUps (player approaching)))"
    "mapGet (p_powerUps (player approaching)) shield = Some 3000"
    "duration (powerUps approaching ! 0) = 516"
    "lastTime approaching = 0" "powerUpSpawnTimer approaching = 15000"
    "frameCount approaching = 0"
    "powerUps approaching = [powerUpAt shield 410 530 516]"
    by (simp_all add: approaching_def example_defs powerUpAt_def mapGet_def)
  have pl: "position (player (beforeCollisions 16 approaching)) = \<lparr>vec_x = 400, vec_y = 540\<rparr>"
    "obj_size (player (beforeCollisions 16 approaching)) = \<lparr>vec_x = 30, vec_y = 30\<rparr>"
    by (simp_all add: beforeCollisions_player approaching_def example_defs updatePlayer_def
        fire_def)
  have pus: "powerUps (beforeCollisions 16 approaching) = [?pu]"
    "powerUpSpawnTimer (beforeCollisions 16 approaching) = 14984"
    using beforeCollisions_powerUps [of approaching 16] by (simp_all add: g)
  have st: "active ?pu" "pu_type ?pu = shield" "duration ?pu = 500"
    "obj_size ?pu = \<lparr>vec_x = 25, vec_y = 25\<rparr>" "vec_x (position ?pu) = 410"
    "\<bar>vec_y (position ?pu) - 530\<bar> \<le> 1 / 2"
    using powerUpStep_active [of "powerUpAt shield 410 530 516" 16 "Suc 0"]
    by (simp_all add: powerUpAt_def)
  have cc: "checkCollision (player (beforeCollisions 16 approaching)) ?pu"
    using st(6) unfolding checkCollision_def pl st(4,5) by (simp add: abs_if split: if_splits)
  have fl: "filter (\<lambda>pu. pu_type pu = shield)
       (filter (\<lambda>pu. active pu \<and> checkCollision (player (beforeCollisions 16 approaching)) pu)
          (powerUps (beforeCollisions 16 approaching))) = [?pu]"
    by (simp add: pus st cc)
  note u = pickup_transfers_remaining_duration
    [where s = approaching and timestamp = 16 and k = shield]
  from u g(1) have "mapGet (p_powerUps (player ?s1)) shield =
      (case filter (\<lambda>pu. pu_type pu = shield)
              (filter (\<lambda>pu. active pu \<and>
                             checkCollision (player (beforeCollisions 16 approaching)) pu)
                 (powerUps (beforeCollisions 16 approaching))) of
         [] \<Rightarrow> (case mapGet (p_powerUps (player approaching)) shield of
                  None \<Rightarrow> None
                | Some t \<Rightarrow> (if t - (16 - lastTime approaching) \<le> 0 then None
                             else Some (t - (16 - lastTime approaching))))
       | x # xs \<Rightarrow> Some (duration (last (x # xs))))" by blast
  then have e: "mapGet (p_powerUps (player ?s1)) shield = Some 500"
    by (simp only: fl) (simp add: st)
  from u g(1) have k1: "distinct (map fst (p_powerUps (player ?s1)))" by blast
  txt \<open>the ticks after it\<close>
  have s1: "powerUps ?s1 = []" "powerUpSpawnTimer ?s1 = 14984" "lastTime ?s1 = 16"
    by (simp_all add: update_powerUps_after pus cc)
  have s2: "powerUps (beforeCollisions 32 ?s1) = []" "powerUps ?s2 = []"
    "powerUpSpawnTimer ?s2 = 14968"
    using update_no_powerUps [of ?s1 32] by (simp_all add: s1)
  have s3: "powerUps (beforeCollisions 48 ?s2) = []" "powerUps (beforeCollisions 516 ?s2) = []"
    using update_no_powerUps(1) [of ?s2 48] update_no_powerUps(1) [of ?s2 516]
    by (simp_all add: s2)
  have n1: "noPickup shield [32, 48] ?s1" by (simp add: s2 s3)
  have n2: "noPickup shield [32, 516] ?s1" by (simp add: s2 s3)
  from pickup_transfers_remaining_duration
    [where s = ?s1 and k = shield and ts = "[32, 48]"] k1 n1
  have "mapGet (p_powerUps (player (fold update [32, 48] ?s1))) shield =
      (case mapGet (p_powerUps (player ?s1)) shield of
         None \<Rightarrow> None
       | Some t \<Rightarrow> countdown t (deltas (lastTime ?s1) [32, 48]))" by blast
  then have m1: "mapGet (p_powerUps (player (fold update [32, 48] ?s1))) shield = Some 468"
    by (simp only: e s1) simp
  from pickup_transfers_remaining_duration
    [where s = ?s1 and k = shield and ts = "[32, 516]"] k1 n2
  have "mapGet (p_powerUps (player (fold update [32, 516] ?s1))) shield =
      (case mapGet (p_powerUps (player ?s1)) shield of
         None \<Rightarrow> None
       | Some t \<Rightarrow> countdown t (deltas (lastTime ?s1) [32, 516]))" by blast
  then have m2: "mapGet (p_powerUps (player (fold update [32, 516] ?s1))) shield = None"
    by (simp only: e s1) simp
  from pickup_transfers_remaining_duration
    [where k = shield and m = "p_powerUps (player (fold update [32, 48] ?s1))"] m1
  have h1: "mapHas shield (p_powerUps (player (fold update [32, 48] ?s1)))" by simp
  from pickup_transfers_remaining_duration
    [where k = shield and m = "p_powerUps (player (fold update [32, 516] ?s1))"] m2
  have h2: "\<not> mapHas shield (p_powerUps (player (fold update [32, 516] ?s1)))" by simp
  txt \<open>the countdown in closed form\<close>
  have "(0::real) < 500 \<and> (\<forall>d\<in>set [16, 16::real]. 0 \<le> d)" by simp
  with pickup_transfers_remaining_duration [where t = 500 and ds = "[16, 16]"]
  have c1: "countdown 500 [16, 16] = Some 468" by simp
  have "(0::real) < 500 \<and> (\<forall>d\<in>set [16, 484::real]. 0 \<le> d)" by simp
  with pickup_transfers_remaining_duration [where t = 500 and ds = "[16, 484]"]
  have c2: "countdown 500 [16, 484] = None" by simp
  from f(2-5) a b hd c d r rd g(1-3) e n1 m1 h1 n2 m2 h2 c1 c2 show ?thesis
    by (intro conjI)
qed

end
